(* ===== verification/Net_Prelude.thy ===== *)
theory Net_Prelude
  imports
    Main
    "HOL-Library.Word"
    "HOL-Library.AList"
    "HOL-Library.Char_ord"
    "HOL-Library.List_Lexorder"
begin

text \<open>
  Shared vocabulary of the development: the machine integers of the Rust sources, byte
  buffers, the operations of \<^verbatim>\<open>std::collections::HashMap\<close> the sources use, saturating
  arithmetic, decimal rendering, and the results of a non-blocking channel send. It also
  holds the three generic interfaces that several components provide: \<open>table\<close> (what a
  keyed container promises), \<open>invariant_system\<close> (a component whose steps keep an invariant) and
  \<open>event_sourced\<close> (a component whose emitted events reconstruct its observable state).
\<close>

unbundle bit_operations_syntax

section \<open>Machine integers, bytes and results\<close>

type_synonym u8 = "8 word"
type_synonym u16 = "16 word"
type_synonym u32 = "32 word"
type_synonym u64 = "64 word"
type_synonym bytes = "u8 list"

text \<open>
  \<^verbatim>\<open>std::time::Instant\<close> is a reading of the monotonic clock in nanoseconds. Subtraction on
  \<open>nat\<close> stops at zero, which is what \<^verbatim>\<open>Instant::duration_since\<close> does.
\<close>

type_synonym instant = nat

definition from_millis :: "nat \<Rightarrow> nat" where
  "from_millis ms = ms * 1000000"

definition saturating_sub :: "'a::len word \<Rightarrow> 'a word \<Rightarrow> 'a word" where
  "saturating_sub a b = (if a < b then 0 else a - b)"

definition saturating_add :: "'a::len word \<Rightarrow> 'a word \<Rightarrow> 'a word" where
  "saturating_add a b = (if unat a + unat b < 2 ^ LENGTH('a) then a + b else - 1)"

definition saturating_mul :: "'a::len word \<Rightarrow> 'a word \<Rightarrow> 'a word" where
  "saturating_mul a b = (if unat a * unat b < 2 ^ LENGTH('a) then a * b else - 1)"

text \<open>Decimal rendering of an unsigned integer, as \<^verbatim>\<open>Display\<close> prints it.\<close>

fun show_nat :: "nat \<Rightarrow> string" where
  "show_nat n =
     (if n < 10 then [char_of (48 + n)] else show_nat (n div 10) @ [char_of (48 + n mod 10)])"

declare show_nat.simps [simp del]

text \<open>
  What a non-blocking \<^verbatim>\<open>try_send\<close> on a bounded channel reports. The channels live in a
  third-party crate; every operation that sends takes the outcome as an argument.
\<close>

datatype try_send_result = Sent | Full | Closed

section \<open>The operations of \<^verbatim>\<open>HashMap\<close>\<close>

text \<open>
  A hash map is the list of its entries in the order an iteration visits them. The order is
  unspecified in Rust: statements quantify over every list with distinct keys, hence over
  every iteration order, and never rely on where a new entry is placed.
\<close>

type_synonym ('k, 'v) hash_map = "('k \<times> 'v) list"

definition hm_get :: "('k, 'v) hash_map \<Rightarrow> 'k \<Rightarrow> 'v option" where
  "hm_get m k = map_of m k"

definition hm_contains :: "('k, 'v) hash_map \<Rightarrow> 'k \<Rightarrow> bool" where
  "hm_contains m k = (hm_get m k \<noteq> None)"

definition hm_insert :: "'k \<Rightarrow> 'v \<Rightarrow> ('k, 'v) hash_map \<Rightarrow> ('k, 'v) hash_map" where
  "hm_insert k v m = AList.update k v m"

definition hm_remove :: "'k \<Rightarrow> ('k, 'v) hash_map \<Rightarrow> ('k, 'v) hash_map" where
  "hm_remove k m = AList.delete k m"

text \<open>\<^verbatim>\<open>if let Some(v) = m.get_mut(k) { *v = f(v) }\<close>\<close>

definition hm_modify :: "'k \<Rightarrow> ('v \<Rightarrow> 'v) \<Rightarrow> ('k, 'v) hash_map \<Rightarrow> ('k, 'v) hash_map" where
  "hm_modify k f m = AList.map_entry k f m"

definition hm_wf :: "('k, 'v) hash_map \<Rightarrow> bool" where
  "hm_wf m = distinct (map fst m)"

section \<open>Interfaces\<close>

text \<open>
  What a keyed container promises: lookups after every update, an enumeration that lists
  each binding once, and a well-formedness predicate that every update keeps.
\<close>

locale table =
  fixes get :: "'m \<Rightarrow> 'k \<Rightarrow> 'v option"
    and put :: "'k \<Rightarrow> 'v \<Rightarrow> 'm \<Rightarrow> 'm"
    and del :: "'k \<Rightarrow> 'm \<Rightarrow> 'm"
    and adj :: "'k \<Rightarrow> ('v \<Rightarrow> 'v) \<Rightarrow> 'm \<Rightarrow> 'm"
    and entries :: "'m \<Rightarrow> ('k \<times> 'v) list"
    and wf :: "'m \<Rightarrow> bool"
  assumes get_put: "get (put k v m) = (get m)(k \<mapsto> v)"
    and get_del: "get (del k m) = (get m)(k := None)"
    and get_adj: "get (adj k f m) = (get m)(k := map_option f (get m k))"
    and entries_get: "wf m \<Longrightarrow> (k, v) \<in> set (entries m) \<longleftrightarrow> get m k = Some v"
    and entries_distinct: "wf m \<Longrightarrow> distinct (map fst (entries m))"
    and wf_put: "wf m \<Longrightarrow> wf (put k v m)"
    and wf_del: "wf m \<Longrightarrow> wf (del k m)"
    and wf_adj: "wf m \<Longrightarrow> wf (adj k f m)"
begin

lemma keys_dom: "wf m \<Longrightarrow> fst ` set (entries m) = dom (get m)"
proof -
  assume w: "wf m"
  show ?thesis
  proof (rule set_eqI)
    fix k
    have "k \<in> fst ` set (entries m) \<longleftrightarrow> (\<exists>v. (k, v) \<in> set (entries m))"
      by force
    then show "k \<in> fst ` set (entries m) \<longleftrightarrow> k \<in> dom (get m)"
      by (auto simp: entries_get [OF w])
  qed
qed

lemma count_entries:
  assumes "wf m"
  shows "length (filter (\<lambda>(k, v). P k v) (entries m)) = card {k. \<exists>v. get m k = Some v \<and> P k v}"
proof -
  let ?xs = "filter (\<lambda>(k, v). P k v) (entries m)"
  have "distinct (map fst ?xs)"
    using entries_distinct [OF assms] by (rule distinct_map_filter)
  then have "length ?xs = card (fst ` set ?xs)"
    by (metis distinct_card length_map set_map)
  also have "fst ` set ?xs = {k. \<exists>v. get m k = Some v \<and> P k v}"
    using entries_get [OF assms] by (force simp: image_iff)
  finally show ?thesis .
qed

lemma size_entries: "wf m \<Longrightarrow> length (entries m) = card (dom (get m))"
  using count_entries [of m "\<lambda>_ _. True"] by (simp add: dom_def)

lemma finite_keys: "wf m \<Longrightarrow> finite (dom (get m))"
  by (metis finite_imageI finite_set keys_dom)

lemma size_put:
  "wf m \<Longrightarrow> length (entries (put k v m)) =
     (if get m k = None then Suc (length (entries m)) else length (entries m))"
  by (simp add: size_entries wf_put get_put finite_keys insert_absorb domIff)

lemma size_del:
  "wf m \<Longrightarrow> length (entries (del k m)) =
     (if get m k = None then length (entries m) else length (entries m) - 1)"
  by (auto simp: size_entries wf_del get_del finite_keys domIff card_Diff_singleton_if)

lemma size_adj: "wf m \<Longrightarrow> length (entries (adj k f m)) = length (entries m)"
proof -
  assume "wf m"
  moreover have "dom (get (adj k f m)) = dom (get m)"
    by (auto simp: get_adj dom_def split: if_splits)
  ultimately show ?thesis by (simp add: size_entries wf_adj)
qed

end

text \<open>
  A component whose operations keep an invariant, provided each operation is admissible where it is run; admissibility does
  not depend on the operations run before.
\<close>

locale invariant_system =
  fixes exec :: "'op \<Rightarrow> 's \<Rightarrow> 's"
    and ok :: "'s \<Rightarrow> bool"
    and may :: "'s \<Rightarrow> 'op \<Rightarrow> bool"
  assumes exec_keeps: "ok s \<Longrightarrow> may s op \<Longrightarrow> ok (exec op s)"
    and may_stable: "may (exec op s) op' \<longleftrightarrow> may s op'"
begin

lemma run_keeps: "ok s \<Longrightarrow> list_all (may s) ops \<Longrightarrow> ok (fold exec ops s)"
  by (induction ops arbitrary: s) (simp_all add: exec_keeps may_stable [abs_def])

end

text \<open>
  A component that announces every change of what it shows: applying the announced events,
  in order, to the state shown before an operation gives the state shown after it.
\<close>

locale event_sourced =
  fixes exec :: "'op \<Rightarrow> 's \<Rightarrow> 's"
    and emitted :: "'s \<Rightarrow> 'e list"
    and shown :: "'s \<Rightarrow> 'a"
    and apply_ev :: "'e \<Rightarrow> 'a \<Rightarrow> 'a"
    and ok :: "'s \<Rightarrow> bool"
  assumes exec_emits:
    "ok s \<Longrightarrow> \<exists>es. emitted (exec op s) = emitted s @ es \<and> shown (exec op s) = fold apply_ev es (shown s)"
    and exec_ok: "ok s \<Longrightarrow> ok (exec op s)"
begin

lemma run_emits:
  "ok s \<Longrightarrow> \<exists>es. emitted (fold exec ops s) = emitted s @ es
     \<and> shown (fold exec ops s) = fold apply_ev es (shown s)"
proof (induction ops arbitrary: s)
  case Nil
  then show ?case by simp
next
  case (Cons op ops)
  from exec_emits [OF Cons.prems, of op] obtain es1 where
    1: "emitted (exec op s) = emitted s @ es1" "shown (exec op s) = fold apply_ev es1 (shown s)"
    by blast
  from Cons.IH [OF exec_ok [OF Cons.prems]] obtain es2 where
    "emitted (fold exec ops (exec op s)) = emitted (exec op s) @ es2"
    "shown (fold exec ops (exec op s)) = fold apply_ev es2 (shown (exec op s))"
    by blast
  with 1 have "emitted (fold exec (op # ops) s) = emitted s @ (es1 @ es2)"
    "shown (fold exec (op # ops) s) = fold apply_ev (es1 @ es2) (shown s)"
    by simp_all
  then show ?case by blast
qed

lemma replay: "ok s \<Longrightarrow> emitted s = [] \<Longrightarrow>
   shown (fold exec ops s) = fold apply_ev (emitted (fold exec ops s)) (shown s)"
  using run_emits [of s ops] by auto

end

sublocale event_sourced \<subseteq> steps: invariant_system exec ok "\<lambda>_ _. True"
  by unfold_locales (simp_all add: exec_ok)

section \<open>Facts the components share\<close>

named_theorems net_simps \<open>lookup and size rules for the hash-map operations\<close>

lemma hm_get_insert: "hm_get (hm_insert k v m) = (hm_get m)(k \<mapsto> v)"
  by (simp add: hm_get_def [abs_def] hm_insert_def update_conv' fun_eq_iff)

lemma hm_get_remove: "hm_get (hm_remove k m) = (hm_get m)(k := None)"
  by (simp add: hm_get_def [abs_def] hm_remove_def delete_conv' fun_eq_iff)

lemma hm_get_modify: "hm_get (hm_modify k f m) = (hm_get m)(k := map_option f (hm_get m k))"
  by (auto simp: hm_get_def [abs_def] hm_modify_def map_of_map_entry fun_eq_iff split: option.split)

interpretation hm: table hm_get hm_insert hm_remove hm_modify "\<lambda>m. m" hm_wf
proof unfold_locales
  fix m :: "('a \<times> 'b) list" and k v
  assume "hm_wf m"
  then show "(k, v) \<in> set m \<longleftrightarrow> hm_get m k = Some v" "distinct (map fst m)"
    by (simp_all add: hm_wf_def hm_get_def)
qed (simp_all only: hm_get_insert hm_get_remove hm_get_modify,
    simp_all add: hm_wf_def hm_insert_def hm_remove_def hm_modify_def
      distinct_update distinct_delete distinct_map_entry)

lemmas hm_lookup [net_simps] = hm_get_insert hm_get_remove hm_get_modify hm_contains_def
lemmas hm_size [net_simps] = hm.size_put hm.size_del hm.size_adj
lemmas hm_keeps [simp, intro] = hm.wf_put hm.wf_del hm.wf_adj

lemma hm_wf_empty [simp]: "hm_wf []"
  by (simp add: hm_wf_def)

lemma hm_get_empty [simp]: "hm_get [] k = None"
  by (simp add: hm_get_def)

lemma set_map_range: "xs = map f ys \<Longrightarrow> set xs \<subseteq> range f"
  by auto

lemma word_of_nat_unat_small: "n < 2 ^ LENGTH('a) \<Longrightarrow> unat (word_of_nat n :: 'a::len word) = n"
  by (simp add: unat_of_nat take_bit_nat_eq_self)

lemma unat_below: "unat (x :: 'a::len word) < 2 ^ LENGTH('a)"
  by (rule unsigned_less)

lemma saturating_sub_le: "unat (saturating_sub a b) = unat a - unat b"
  by (simp add: saturating_sub_def word_less_nat_alt unat_sub word_le_nat_alt)

lemma unat_all_ones: "unat (- 1 :: 'a::len word) = 2 ^ LENGTH('a) - 1"
  by (simp add: unsigned_minus_1_eq_mask mask_eq_exp_minus_1)

lemma saturating_add_unat:
  fixes a b :: "'a::len word"
  shows "unat (saturating_add a b) = min (unat a + unat b) (2 ^ LENGTH('a) - 1)"
  by (auto simp: saturating_add_def unat_word_ariths unat_all_ones min_def)

lemma saturating_mul_unat:
  fixes a b :: "'a::len word"
  shows "unat (saturating_mul a b) = min (unat a * unat b) (2 ^ LENGTH('a) - 1)"
proof (cases "unat a * unat b < 2 ^ LENGTH('a)")
  case True
  then show ?thesis by (simp add: saturating_mul_def unat_word_ariths)
next
  case False
  then have "2 ^ LENGTH('a) - 1 \<le> unat a * unat b" by linarith
  with False show ?thesis by (simp add: saturating_mul_def unat_all_ones)
qed

lemma unat_plus_one: "(x :: 'a::len word) \<noteq> - 1 \<Longrightarrow> unat (x + 1) = Suc (unat x)"
  by (metis Suc_eq_plus1 add.commute unatSuc word_not_simps(1) add_eq_0_iff)

lemma less_plus_one: "(x :: 'a::len word) \<noteq> - 1 \<Longrightarrow> x < x + 1"
  by (simp add: word_less_nat_alt unat_plus_one)

end
