(* ===== verification/Net_Types.thy ===== *)
theory Net_Types
  imports Net_Prelude
begin

text \<open>
  The basic types of \<^verbatim>\<open>src/types.rs\<close>: peer identifiers, connection status, the record kept
  for each known peer, and the destinations of user messages. A Rust string is its list of
  UTF-8 bytes, written as a \<open>string\<close> (a HOL \<open>char\<close> is a byte); string comparison is the
  lexicographic order on bytes.
\<close>

section \<open>Definitions\<close>

datatype PeerId = PeerId (as_str: string)

text \<open>
  Peer identifiers are compared through \<^verbatim>\<open>as_str()\<close> everywhere in the sources; the class
  instance names that order, so that the library's facts on linear orders apply to it.
\<close>

instantiation PeerId :: linorder
begin

definition less_eq_PeerId :: "PeerId \<Rightarrow> PeerId \<Rightarrow> bool" where
  "less_eq_PeerId p q \<longleftrightarrow> as_str p \<le> as_str q"

definition less_PeerId :: "PeerId \<Rightarrow> PeerId \<Rightarrow> bool" where
  "less_PeerId p q \<longleftrightarrow> as_str p < as_str q"

instance
  by standard (auto simp: less_eq_PeerId_def less_PeerId_def intro: PeerId.expand)

end

datatype PeerStatus = Connected | Disconnected | Reconnecting | Handshaking

fun as_i32 :: "PeerStatus \<Rightarrow> int" where
  "as_i32 Connected = 0"
| "as_i32 Disconnected = 1"
| "as_i32 Reconnecting = 2"
| "as_i32 Handshaking = 3"

datatype IpAddr = V4 u32 | V6 "128 word"

datatype SocketAddr = SocketAddr (ip: IpAddr) (port: u16)

record PeerInfo =
  pi_peer_id :: PeerId
  pi_addr :: SocketAddr
  pi_status :: PeerStatus
  pi_last_seen :: instant
  pi_rtt_ms :: "u32 option"
  pi_connected_at :: instant
  pi_should_reconnect :: bool

definition peer_info_new :: "instant \<Rightarrow> PeerId \<Rightarrow> SocketAddr \<Rightarrow> PeerInfo" where
  "peer_info_new now pid addr =
     \<lparr>pi_peer_id = pid, pi_addr = addr, pi_status = Connected, pi_last_seen = now,
      pi_rtt_ms = None, pi_connected_at = now, pi_should_reconnect = True\<rparr>"

datatype MessageTarget = Broadcast | ToPeer PeerId | ToLeader

datatype ForwardTarget = FwdToPeer PeerId | FwdBroadcast

section \<open>Lemmas\<close>

lemma PeerId_less_iff [simp]: "PeerId s < PeerId t \<longleftrightarrow> s < t"
  by (simp add: less_PeerId_def)

lemma PeerId_le_iff [simp]: "PeerId s \<le> PeerId t \<longleftrightarrow> s \<le> t"
  by (simp add: less_eq_PeerId_def)

lemma as_str_eq_iff: "as_str p = as_str q \<longleftrightarrow> p = q"
  by (auto intro: PeerId.expand)

lemma as_i32_inj: "as_i32 s = as_i32 t \<longleftrightarrow> s = t"
  by (cases s; cases t) simp_all

lemma peer_info_new_simps [simp]:
  "pi_peer_id (peer_info_new now p a) = p"
  "pi_addr (peer_info_new now p a) = a"
  "pi_status (peer_info_new now p a) = Connected"
  "pi_last_seen (peer_info_new now p a) = now"
  "pi_rtt_ms (peer_info_new now p a) = None"
  "pi_should_reconnect (peer_info_new now p a)"
  by (simp_all add: peer_info_new_def)

end
