(* ===== verification/Net_Error.thy ===== *)
theory Net_Error
  imports Net_Types
begin

text \<open>
  The error values of \<^verbatim>\<open>src/error.rs\<close>, their numeric codes at the C boundary and their
  rendered text. An I/O error and a serialization error of the third-party encoder are
  represented by the text they render to. An \<^verbatim>\<open>i32\<close> code is an \<open>int\<close>: codes are only
  compared and returned, never computed with.
\<close>

section \<open>Definitions\<close>

abbreviation "OK \<equiv> (0 :: int)"
abbreviation "NOT_INITIALIZED \<equiv> (-1 :: int)"
abbreviation "ALREADY_INITIALIZED \<equiv> (-2 :: int)"
abbreviation "INVALID_ARGUMENT \<equiv> (-3 :: int)"
abbreviation "CONNECTION_FAILED \<equiv> (-4 :: int)"
abbreviation "PEER_NOT_FOUND \<equiv> (-5 :: int)"
abbreviation "NOT_LEADER \<equiv> (-6 :: int)"
abbreviation "SEND_QUEUE_FULL \<equiv> (-7 :: int)"
abbreviation "MESSAGE_TOO_LARGE \<equiv> (-8 :: int)"
abbreviation "SERIALIZATION_ERROR \<equiv> (-9 :: int)"
abbreviation "SESSION_MISMATCH \<equiv> (-10 :: int)"
abbreviation "DUPLICATE_PEER_ID \<equiv> (-11 :: int)"
abbreviation "VERSION_MISMATCH \<equiv> (-12 :: int)"
abbreviation "MAX_CONNECTIONS_REACHED \<equiv> (-13 :: int)"
abbreviation "ALREADY_CONNECTED \<equiv> (-14 :: int)"
abbreviation "INTERNAL_ERROR \<equiv> (-99 :: int)"

datatype NetworkError =
    NotInitialized
  | AlreadyInitialized
  | InvalidArgument string
  | Io string
  | ConnectionFailed string
  | HandshakeFailed string
  | HandshakeTimeout
  | PeerNotFound string
  | DuplicatePeerId string
  | VersionMismatch u16 u16
  | SessionMismatch string string
  | NotLeader
  | MaxConnectionsReached
  | AlreadyConnected string
  | SendQueueFull
  | MessageTooLarge u32
  | Serialization string
  | NotImplemented
  | Internal string

fun error_code :: "NetworkError \<Rightarrow> int" where
  "error_code NotInitialized = NOT_INITIALIZED"
| "error_code AlreadyInitialized = ALREADY_INITIALIZED"
| "error_code (InvalidArgument _) = INVALID_ARGUMENT"
| "error_code (Io _) = CONNECTION_FAILED"
| "error_code (ConnectionFailed _) = CONNECTION_FAILED"
| "error_code (HandshakeFailed _) = CONNECTION_FAILED"
| "error_code HandshakeTimeout = CONNECTION_FAILED"
| "error_code (PeerNotFound _) = PEER_NOT_FOUND"
| "error_code NotLeader = NOT_LEADER"
| "error_code SendQueueFull = SEND_QUEUE_FULL"
| "error_code (MessageTooLarge _) = MESSAGE_TOO_LARGE"
| "error_code (Serialization _) = SERIALIZATION_ERROR"
| "error_code (SessionMismatch _ _) = SESSION_MISMATCH"
| "error_code (DuplicatePeerId _) = DUPLICATE_PEER_ID"
| "error_code (VersionMismatch _ _) = VERSION_MISMATCH"
| "error_code MaxConnectionsReached = MAX_CONNECTIONS_REACHED"
| "error_code (AlreadyConnected _) = ALREADY_CONNECTED"
| "error_code NotImplemented = INTERNAL_ERROR"
| "error_code (Internal _) = INTERNAL_ERROR"

fun error_text :: "NetworkError \<Rightarrow> string" where
  "error_text NotInitialized = ''network not initialized''"
| "error_text AlreadyInitialized = ''network already initialized''"
| "error_text (InvalidArgument msg) = ''invalid argument: '' @ msg"
| "error_text (Io e) = ''IO error: '' @ e"
| "error_text (ConnectionFailed msg) = ''connection failed: '' @ msg"
| "error_text (PeerNotFound i) = ''peer not found: '' @ i"
| "error_text NotLeader = ''not leader''"
| "error_text SendQueueFull = ''send queue full''"
| "error_text (MessageTooLarge n) = ''message too large: '' @ show_nat (unat n) @ '' bytes''"
| "error_text (Serialization e) = ''serialization error: '' @ e"
| "error_text (SessionMismatch x g) = ''session mismatch: expected '' @ x @ '', got '' @ g"
| "error_text (DuplicatePeerId i) = ''duplicate peer id: '' @ i"
| "error_text (VersionMismatch x g) =
     ''version mismatch: expected '' @ show_nat (unat x) @ '', got '' @ show_nat (unat g)"
| "error_text MaxConnectionsReached = ''max connections reached''"
| "error_text (AlreadyConnected i) = ''already connected to peer: '' @ i"
| "error_text (HandshakeFailed msg) = ''handshake failed: '' @ msg"
| "error_text HandshakeTimeout = ''handshake timeout''"
| "error_text NotImplemented = ''not implemented''"
| "error_text (Internal msg) = ''internal error: '' @ msg"

fun error_source :: "NetworkError \<Rightarrow> string option" where
  "error_source (Io e) = Some e"
| "error_source (Serialization e) = Some e"
| "error_source _ = None"

definition from_io_error :: "string \<Rightarrow> NetworkError" where
  "from_io_error e = Io e"

definition from_postcard_error :: "string \<Rightarrow> NetworkError" where
  "from_postcard_error e = Serialization e"

text \<open>\<^verbatim>\<open>?\<close> on a \<open>Result\<close>: the error leaves the function, the value goes on.\<close>

definition try_bind :: "'e + 'a \<Rightarrow> ('a \<Rightarrow> 'e + 'b) \<Rightarrow> 'e + 'b" where
  "try_bind r f = (case r of Inl e \<Rightarrow> Inl e | Inr x \<Rightarrow> f x)"

section \<open>Lemmas\<close>

lemma error_code_range: "error_code e \<in> {-14..-1} \<union> {INTERNAL_ERROR}"
  by (cases e) simp_all

lemma error_code_not_OK [simp]: "error_code e \<noteq> OK" "error_code e < 0"
  using error_code_range [of e] by auto

lemma try_bind_simps [simp]:
  "try_bind (Inl e) f = Inl e" "try_bind (Inr x) f = f x"
  by (simp_all add: try_bind_def)

lemma try_bind_Inr_iff: "try_bind r f = Inr y \<longleftrightarrow> (\<exists>x. r = Inr x \<and> f x = Inr y)"
  by (auto simp: try_bind_def split: sum.split)

end
