(* ===== verification/Net_Config.thy ===== *)
theory Net_Config
  imports Net_Error
begin

text \<open>
  The run-time configuration of \<^verbatim>\<open>src/config.rs\<close>: its fields at their widths (\<^verbatim>\<open>usize\<close> as
  \<open>nat\<close>), the defaults and the validation that \<^verbatim>\<open>InitializeNetworkWithConfig\<close> relies on.
\<close>

section \<open>Definitions\<close>

definition PROTOCOL_VERSION :: u16 where
  "PROTOCOL_VERSION = 1"

datatype ManualOverrideRecovery = Hold | AutoElect

definition recovery_from_u8 :: "u8 \<Rightarrow> ManualOverrideRecovery" where
  "recovery_from_u8 v = (if v = 1 then AutoElect else Hold)"

record NetworkConfig =
  reconnect_max_ms :: u32
  cfg_compression_threshold :: u32
  cfg_max_message_size :: u32
  heartbeat_interval_ms :: u16
  election_timeout_min_ms :: u16
  election_timeout_max_ms :: u16
  reconnect_initial_ms :: u16
  handshake_timeout_ms :: u16
  write_timeout_ms :: u16
  send_queue_capacity :: nat
  incoming_queue_capacity :: nat
  max_connections :: nat
  keepalive_time_secs :: u16
  keepalive_interval_secs :: u16
  mdns_port :: u16
  heartbeat_timeout_multiplier :: u8
  keepalive_retries :: u8
  cfg_centralized_auto_forward :: bool
  cfg_auto_election_enabled :: bool
  cfg_manual_override_recovery :: ManualOverrideRecovery
  tcp_nodelay :: bool
  cfg_auto_reconnect_enabled :: bool
  reconnect_max_retries :: u8

definition config_default :: NetworkConfig where
  "config_default =
     \<lparr>reconnect_max_ms = 30000,
      cfg_compression_threshold = 512,
      cfg_max_message_size = 256 * 1024,
      heartbeat_interval_ms = 500,
      election_timeout_min_ms = 1500,
      election_timeout_max_ms = 3000,
      reconnect_initial_ms = 1000,
      handshake_timeout_ms = 5000,
      write_timeout_ms = 5000,
      send_queue_capacity = 128,
      incoming_queue_capacity = 256,
      max_connections = 64,
      keepalive_time_secs = 60,
      keepalive_interval_secs = 10,
      mdns_port = 15353,
      heartbeat_timeout_multiplier = 3,
      keepalive_retries = 3,
      cfg_centralized_auto_forward = True,
      cfg_auto_election_enabled = True,
      cfg_manual_override_recovery = Hold,
      tcp_nodelay = True,
      cfg_auto_reconnect_enabled = True,
      reconnect_max_retries = 0\<rparr>"

text \<open>\<^verbatim>\<open>validate\<close> reports the first field that is out of range.\<close>

definition validate :: "NetworkConfig \<Rightarrow> NetworkError + unit" where
  "validate c =
    (if heartbeat_interval_ms c = 0
       then Inl (InvalidArgument ''heartbeat_interval_ms must be > 0'')
     else if election_timeout_min_ms c \<le> heartbeat_interval_ms c
       then Inl (InvalidArgument ''election_timeout_min_ms must be > heartbeat_interval_ms'')
     else if election_timeout_min_ms c > election_timeout_max_ms c
       then Inl (InvalidArgument ''election_timeout_min_ms must be <= election_timeout_max_ms'')
     else if heartbeat_timeout_multiplier c = 0
       then Inl (InvalidArgument ''heartbeat_timeout_multiplier must be > 0'')
     else if reconnect_initial_ms c = 0
       then Inl (InvalidArgument ''reconnect_initial_ms must be > 0'')
     else if (ucast (reconnect_initial_ms c) :: u32) > reconnect_max_ms c
       then Inl (InvalidArgument ''reconnect_initial_ms must be <= reconnect_max_ms'')
     else if send_queue_capacity c = 0
       then Inl (InvalidArgument ''send_queue_capacity must be > 0'')
     else if incoming_queue_capacity c = 0
       then Inl (InvalidArgument ''incoming_queue_capacity must be > 0'')
     else if max_connections c = 0
       then Inl (InvalidArgument ''max_connections must be > 0'')
     else if cfg_max_message_size c = 0
       then Inl (InvalidArgument ''max_message_size must be > 0'')
     else if handshake_timeout_ms c = 0
       then Inl (InvalidArgument ''handshake_timeout_ms must be > 0'')
     else if write_timeout_ms c = 0
       then Inl (InvalidArgument ''write_timeout_ms must be > 0'')
     else if keepalive_time_secs c = 0
       then Inl (InvalidArgument ''keepalive_time_secs must be > 0'')
     else if keepalive_interval_secs c = 0
       then Inl (InvalidArgument ''keepalive_interval_secs must be > 0'')
     else if keepalive_retries c = 0
       then Inl (InvalidArgument ''keepalive_retries must be > 0'')
     else Inr ())"

text \<open>
  What a validated configuration guarantees to the components that read it, over the
  integers the fields denote.
\<close>

definition config_ok :: "NetworkConfig \<Rightarrow> bool" where
  "config_ok c \<longleftrightarrow>
     0 < unat (heartbeat_interval_ms c)
   \<and> unat (heartbeat_interval_ms c) < unat (election_timeout_min_ms c)
   \<and> unat (election_timeout_min_ms c) \<le> unat (election_timeout_max_ms c)
   \<and> 0 < unat (heartbeat_timeout_multiplier c)
   \<and> 0 < unat (reconnect_initial_ms c)
   \<and> unat (reconnect_initial_ms c) \<le> unat (reconnect_max_ms c)
   \<and> 0 < send_queue_capacity c \<and> 0 < incoming_queue_capacity c \<and> 0 < max_connections c
   \<and> 0 < unat (cfg_max_message_size c)
   \<and> 0 < unat (handshake_timeout_ms c) \<and> 0 < unat (write_timeout_ms c)
   \<and> 0 < unat (keepalive_time_secs c) \<and> 0 < unat (keepalive_interval_secs c)
   \<and> 0 < unat (keepalive_retries c)"

section \<open>Lemmas\<close>

lemma unat_ucast_16_32 [simp]: "unat (ucast (x :: u16) :: u32) = unat x"
  by (simp add: unsigned_ucast_eq take_bit_nat_eq_self unsigned_less [THEN less_le_trans])

lemma validate_Inr_iff: "validate c = Inr () \<longleftrightarrow> config_ok c"
  unfolding validate_def config_ok_def
  by (simp add: word_le_nat_alt word_less_nat_alt unat_gt_0 not_le not_less)

lemma validate_error_kind: "validate c = Inr () \<or> (\<exists>msg. validate c = Inl (InvalidArgument msg))"
proof -
  let ?ok = "\<lambda>r :: NetworkError + unit. r = Inr () \<or> (\<exists>msg. r = Inl (InvalidArgument msg))"
  have ite: "?ok (if b then x else y)" if "?ok x" "?ok y" for b x y
    using that by simp
  show ?thesis
    unfolding validate_def by (intro ite) simp_all
qed

section \<open>Properties\<close>

text \<open>
  Validation accepts exactly the configurations whose fields are in range; a rejected one is
  always reported as an invalid argument; the default configuration is accepted.
\<close>

theorem validate_exact:
  "(validate c = Inr () \<longleftrightarrow> config_ok c) \<and> (validate c = Inr () \<or> (\<exists>msg. validate c = Inl (InvalidArgument msg)))
   \<and> validate config_default = Inr ()"
proof -
  have "config_ok config_default" by (simp add: config_ok_def config_default_def)
  then show ?thesis using validate_Inr_iff validate_error_kind by blast
qed

end
