(* ===== verification/Membership.thy ===== *)
theory Membership
  imports Net_Config
begin

text \<open>
  The membership table (\<^verbatim>\<open>src/membership.rs\<close>): the known peers with their status, round-trip
  time and last sign of life, and the events announced when the table changes. Each
  operation takes the lock once. Clock readings are arguments: \<open>now\<close> is
  \<^verbatim>\<open>Instant::now()\<close>, \<open>wall\<close> the system time in nanoseconds relative to the UNIX epoch.
  \<open>mm_events\<close> is the sequence of events given to the broadcast channel.
\<close>

section \<open>Definitions\<close>

datatype MembershipEvent =
    Joined PeerId
  | Left PeerId
  | StatusChanged PeerId PeerStatus PeerStatus

record MembershipManager =
  mm_local_peer_id :: PeerId
  mm_peers :: "(PeerId, PeerInfo) hash_map"
  mm_config :: NetworkConfig
  mm_events :: "MembershipEvent list"

definition membership_new :: "PeerId \<Rightarrow> NetworkConfig \<Rightarrow> MembershipManager" where
  "membership_new local_id config =
     \<lparr>mm_local_peer_id = local_id, mm_peers = [], mm_config = config, mm_events = []\<rparr>"

definition mm_emit :: "MembershipEvent \<Rightarrow> MembershipManager \<Rightarrow> MembershipManager" where
  "mm_emit e m = m\<lparr>mm_events := mm_events m @ [e]\<rparr>"

definition add_peer ::
  "instant \<Rightarrow> PeerId \<Rightarrow> SocketAddr \<Rightarrow> MembershipManager \<Rightarrow> (NetworkError + unit) \<times> MembershipManager" where
  "add_peer now pid addr m =
     (if hm_contains (mm_peers m) pid then (Inl (DuplicatePeerId (as_str pid)), m)
      else (Inr (), mm_emit (Joined pid)
              (m\<lparr>mm_peers := hm_insert pid (peer_info_new now pid addr) (mm_peers m)\<rparr>)))"

definition remove_peer :: "PeerId \<Rightarrow> MembershipManager \<Rightarrow> MembershipManager" where
  "remove_peer pid m =
     (let removed = hm_contains (mm_peers m) pid;
          m1 = m\<lparr>mm_peers := hm_remove pid (mm_peers m)\<rparr> in
      if removed then mm_emit (Left pid) m1 else m1)"

definition update_status :: "PeerId \<Rightarrow> PeerStatus \<Rightarrow> MembershipManager \<Rightarrow> MembershipManager" where
  "update_status pid new_status m =
     (case hm_get (mm_peers m) pid of
        None \<Rightarrow> m
      | Some info \<Rightarrow>
          let old = pi_status info in
          if old \<noteq> new_status then
            mm_emit (StatusChanged pid old new_status)
              (m\<lparr>mm_peers := hm_modify pid (\<lambda>i. i\<lparr>pi_status := new_status\<rparr>) (mm_peers m)\<rparr>)
          else m)"

definition has_peer :: "MembershipManager \<Rightarrow> PeerId \<Rightarrow> bool" where
  "has_peer m pid = hm_contains (mm_peers m) pid"

definition get_peer_list :: "MembershipManager \<Rightarrow> PeerInfo list" where
  "get_peer_list m = map snd (mm_peers m)"

definition get_connected_peers :: "MembershipManager \<Rightarrow> PeerId list" where
  "get_connected_peers m = map fst (filter (\<lambda>(_, info). pi_status info = Connected) (mm_peers m))"

definition get_peer_rtt :: "MembershipManager \<Rightarrow> PeerId \<Rightarrow> u32 option" where
  "get_peer_rtt m pid = Option.bind (hm_get (mm_peers m) pid) pi_rtt_ms"

definition get_peer_status :: "MembershipManager \<Rightarrow> PeerId \<Rightarrow> PeerStatus option" where
  "get_peer_status m pid = map_option pi_status (hm_get (mm_peers m) pid)"

definition get_connected_peer_count :: "MembershipManager \<Rightarrow> nat" where
  "get_connected_peer_count m =
     length (filter (\<lambda>info. pi_status info = Connected) (map snd (mm_peers m)))"

text \<open>A system clock set before 1970 reads as zero; the milliseconds are truncated to 64 bits.\<close>

definition current_timestamp_ms :: "int \<Rightarrow> u64" where
  "current_timestamp_ms wall = word_of_nat (nat wall div 1000000)"

definition handle_pong :: "int \<Rightarrow> instant \<Rightarrow> PeerId \<Rightarrow> u64 \<Rightarrow> MembershipManager \<Rightarrow> MembershipManager" where
  "handle_pong wall now pid sent_timestamp_ms m =
     (let rtt = ucast (saturating_sub (current_timestamp_ms wall) sent_timestamp_ms) :: u32 in
      m\<lparr>mm_peers := hm_modify pid (\<lambda>i. i\<lparr>pi_rtt_ms := Some rtt, pi_last_seen := now\<rparr>) (mm_peers m)\<rparr>)"

definition update_last_seen :: "instant \<Rightarrow> PeerId \<Rightarrow> MembershipManager \<Rightarrow> MembershipManager" where
  "update_last_seen now pid m =
     m\<lparr>mm_peers := hm_modify pid (\<lambda>i. i\<lparr>pi_last_seen := now\<rparr>) (mm_peers m)\<rparr>"

text \<open>The product of interval and multiplier is computed in 32 bits.\<close>

definition timeout_ms :: "NetworkConfig \<Rightarrow> u32" where
  "timeout_ms c = ucast (heartbeat_interval_ms c) * ucast (heartbeat_timeout_multiplier c)"

definition check_timeouts :: "instant \<Rightarrow> MembershipManager \<Rightarrow> PeerId list" where
  "check_timeouts now m =
     (let timeout = from_millis (unat (timeout_ms (mm_config m))) in
      map fst (filter (\<lambda>(_, info). pi_status info = Connected \<and> now - pi_last_seen info > timeout)
        (mm_peers m)))"

text \<open>The mutating operations as a datatype, and the invariant of the table.\<close>

datatype membership_op =
    MAdd instant PeerId SocketAddr
  | MRemove PeerId
  | MStatus PeerId PeerStatus
  | MPong int instant PeerId u64
  | MSeen instant PeerId

fun membership_exec :: "membership_op \<Rightarrow> MembershipManager \<Rightarrow> MembershipManager" where
  "membership_exec (MAdd now p a) m = snd (add_peer now p a m)"
| "membership_exec (MRemove p) m = remove_peer p m"
| "membership_exec (MStatus p s) m = update_status p s m"
| "membership_exec (MPong wall now p t) m = handle_pong wall now p t m"
| "membership_exec (MSeen now p) m = update_last_seen now p m"

definition membership_inv :: "MembershipManager \<Rightarrow> bool" where
  "membership_inv m \<longleftrightarrow>
     hm_wf (mm_peers m) \<and> (\<forall>p info. hm_get (mm_peers m) p = Some info \<longrightarrow> pi_peer_id info = p)"

text \<open>
  What the table shows to an observer, a status for each known peer, and what an event does
  to that view.
\<close>

definition status_view :: "MembershipManager \<Rightarrow> (PeerId \<rightharpoonup> PeerStatus)" where
  "status_view m = (\<lambda>p. get_peer_status m p)"

fun apply_event :: "MembershipEvent \<Rightarrow> (PeerId \<rightharpoonup> PeerStatus) \<Rightarrow> (PeerId \<rightharpoonup> PeerStatus)" where
  "apply_event (Joined p) v = v(p \<mapsto> Connected)"
| "apply_event (Left p) v = v(p := None)"
| "apply_event (StatusChanged p old new) v = v(p \<mapsto> new)"

section \<open>Lemmas\<close>

named_theorems membership_defs \<open>the operations of the membership table, unfolded\<close>

lemmas [membership_defs] =
  add_peer_def remove_peer_def update_status_def handle_pong_def update_last_seen_def mm_emit_def Let_def

lemma membership_exec_config [simp]:
  "mm_config (membership_exec op m) = mm_config m"
  "mm_local_peer_id (membership_exec op m) = mm_local_peer_id m"
  by (cases op; simp add: membership_defs split: option.split)+

lemma membership_inv_new: "membership_inv (membership_new p c)"
  by (simp add: membership_inv_def membership_new_def)

lemma membership_inv_exec: "membership_inv m \<Longrightarrow> membership_inv (membership_exec op m)"
  by (cases op) (auto simp: membership_inv_def membership_defs hm_lookup split: option.split)

lemma status_view_get: "status_view m p = map_option pi_status (hm_get (mm_peers m) p)"
  by (simp add: status_view_def get_peer_status_def)

interpretation membership_events:
  event_sourced membership_exec mm_events status_view apply_event membership_inv
proof unfold_locales
  fix op m
  assume "membership_inv m"
  show "\<exists>es. mm_events (membership_exec op m) = mm_events m @ es
      \<and> status_view (membership_exec op m) = fold apply_event es (status_view m)"
    by (cases op)
       (auto simp: membership_defs status_view_get hm_lookup fun_eq_iff option.map_comp comp_def
         split: option.split)
qed (rule membership_inv_exec)

lemma timeout_ms_exact:
  "unat (timeout_ms c) = unat (heartbeat_interval_ms c) * unat (heartbeat_timeout_multiplier c)"
proof -
  have "unat (heartbeat_interval_ms c) \<le> 65535" "unat (heartbeat_timeout_multiplier c) \<le> 255"
    using unat_below [of "heartbeat_interval_ms c"] unat_below [of "heartbeat_timeout_multiplier c"] by simp_all
  then have "unat (heartbeat_interval_ms c) * unat (heartbeat_timeout_multiplier c) \<le> 65535 * 255"
    and "unat (ucast (heartbeat_timeout_multiplier c) :: u32) = unat (heartbeat_timeout_multiplier c)"
    by (rule mult_le_mono, simp add: unsigned_ucast_eq take_bit_nat_eq_self)
  then show ?thesis
    by (simp add: timeout_ms_def unat_word_ariths)
qed

lemma in_check_timeouts:
  assumes "hm_wf (mm_peers m)"
  shows "p \<in> set (check_timeouts now m) \<longleftrightarrow>
    (\<exists>info. hm_get (mm_peers m) p = Some info \<and> pi_status info = Connected \<and>
        now > pi_last_seen info + unat (heartbeat_interval_ms (mm_config m))
              * unat (heartbeat_timeout_multiplier (mm_config m)) * 1000000)"
proof -
  have "p \<in> set (check_timeouts now m) \<longleftrightarrow>
    (\<exists>info. (p, info) \<in> set (mm_peers m) \<and> pi_status info = Connected \<and>
        now > pi_last_seen info + from_millis (unat (timeout_ms (mm_config m))))"
    unfolding check_timeouts_def Let_def by (force simp: less_diff_conv add.commute)
  then show ?thesis
    using hm.entries_get [OF assms] by (simp add: timeout_ms_exact from_millis_def)
qed

text \<open>
  The membership invariant. From an empty table, whatever sequence of joins, leaves, status
  changes, pongs and last-seen updates runs, every peer has one entry, filed under its own
  identifier.
\<close>

theorem membership_invariant:
  "membership_inv (fold membership_exec ops (membership_new local_id cfg))"
  by (rule membership_events.steps.run_keeps) (simp_all add: membership_inv_new list.pred_True)

text \<open>
  C14: The membership events are complete: replaying the announced events, in order, over the
  empty view gives exactly the peers the table knows with their current status. An observer of
  the event channel loses nothing. This is about operations that follow one another; the lock is released before the event is
  sent, and \<open>Node_Tasks\<close> shows what overlapping operations can do to the order.
\<close>

theorem membership_replay:
  "status_view (fold membership_exec ops (membership_new local_id cfg))
     = fold apply_event (mm_events (fold membership_exec ops (membership_new local_id cfg))) Map.empty"
proof -
  have "status_view (membership_new local_id cfg) = Map.empty"
    by (simp add: fun_eq_iff status_view_get membership_new_def)
  then show ?thesis
    using membership_events.replay [OF membership_inv_new, of local_id cfg ops]
    by (simp add: membership_new_def)
qed

text \<open>
  The heartbeat timeout. The peers reported by \<^verbatim>\<open>check_timeouts\<close> are exactly those whose status is
  connected and whose last sign of life is more than interval times multiplier milliseconds old, each
  reported once; the 32-bit product never wraps.
\<close>

theorem check_timeouts_exact:
  assumes "membership_inv m"
  shows "distinct (check_timeouts now m) \<and>
    (p \<in> set (check_timeouts now m) \<longleftrightarrow>
      (\<exists>info. hm_get (mm_peers m) p = Some info \<and> pi_status info = Connected \<and>
        now > pi_last_seen info + unat (heartbeat_interval_ms (mm_config m))
              * unat (heartbeat_timeout_multiplier (mm_config m)) * 1000000))"
proof -
  have wf: "hm_wf (mm_peers m)" using assms by (simp add: membership_inv_def)
  have "distinct (check_timeouts now m)"
    unfolding check_timeouts_def Let_def using hm.entries_distinct [OF wf] by (rule distinct_map_filter)
  with in_check_timeouts [OF wf] show ?thesis by blast
qed

definition sample_addr :: SocketAddr where
  "sample_addr = SocketAddr (V4 0x7F000001) 8080"

definition sample_table :: MembershipManager where
  "sample_table = fold membership_exec [MAdd 0 (PeerId ''p'') sample_addr, MAdd 5 (PeerId ''q'') sample_addr]
     (membership_new (PeerId ''me'') config_default)"

lemma sample_table_inv: "membership_inv sample_table"
  unfolding sample_table_def by (rule membership_events.steps.run_keeps) (simp_all add: membership_inv_new list.pred_True)

lemmas sample_table_run = sample_table_def membership_new_def membership_defs hm_lookup config_default_def

theorem check_timeouts_exact_witness:
  "PeerId ''p'' \<in> set (check_timeouts (1500000001) sample_table)
   \<and> PeerId ''q'' \<notin> set (check_timeouts (1500000001) sample_table)"
  using check_timeouts_exact [OF sample_table_inv, of 1500000001 "PeerId ''p''"]
    check_timeouts_exact [OF sample_table_inv, of 1500000001 "PeerId ''q''"]
  by (simp add: sample_table_run)

text \<open>
  The connected count that the election uses is the number of distinct peers whose status is
  connected, and it agrees with the list of connected peers.
\<close>

theorem connected_count_exact:
  assumes "membership_inv m"
  shows "get_connected_peer_count m = card {p. get_peer_status m p = Some Connected}
    \<and> set (get_connected_peers m) = {p. get_peer_status m p = Some Connected}
    \<and> length (get_connected_peers m) = get_connected_peer_count m"
proof -
  have wf: "hm_wf (mm_peers m)" using assms by (simp add: membership_inv_def)
  let ?c = "\<lambda>info. pi_status info = Connected"
  have len: "get_connected_peer_count m = length (filter (\<lambda>(_, info). ?c info) (mm_peers m))"
    by (simp add: get_connected_peer_count_def filter_map comp_def case_prod_unfold)
  have view: "{p. \<exists>info. hm_get (mm_peers m) p = Some info \<and> ?c info} = {p. get_peer_status m p = Some Connected}"
    by (auto simp: get_peer_status_def)
  have "set (get_connected_peers m) = {p. \<exists>info. (p, info) \<in> set (mm_peers m) \<and> ?c info}"
    by (force simp: get_connected_peers_def)
  then show ?thesis
    using len hm.count_entries [OF wf, of "\<lambda>_. ?c"] hm.entries_get [OF wf]
    by (simp add: view get_connected_peers_def)
qed

theorem connected_count_exact_witness:
  "get_connected_peer_count (membership_exec (MStatus (PeerId ''p'') Disconnected) sample_table) = 1
   \<and> set (get_connected_peers (membership_exec (MStatus (PeerId ''p'') Disconnected) sample_table)) = {PeerId ''q''}"
proof -
  let ?m = "membership_exec (MStatus (PeerId ''p'') Disconnected) sample_table"
  have "get_peer_status ?m p = Some Connected \<longleftrightarrow> p = PeerId ''q''" for p
    by (simp add: get_peer_status_def sample_table_run)
  with connected_count_exact [OF membership_inv_exec [OF sample_table_inv], of "MStatus (PeerId ''p'') Disconnected"]
  show ?thesis by simp
qed

text \<open>
  A sign of life keeps a peer alive. After a pong or any traffic recorded at time \<open>t\<close>, the peer is
  not timed out until interval times multiplier milliseconds have passed since, whatever its
  earlier record.
\<close>

theorem sign_of_life:
  assumes "membership_inv m" "op = MPong wall t p sent \<or> op = MSeen t p"
    and "now \<le> t + unat (heartbeat_interval_ms (mm_config m)) * unat (heartbeat_timeout_multiplier (mm_config m)) * 1000000"
  shows "p \<notin> set (check_timeouts now (membership_exec op m))"
proof -
  have "hm_wf (mm_peers (membership_exec op m))"
    using membership_inv_exec [OF assms(1)] by (simp add: membership_inv_def)
  moreover have "pi_last_seen info = t" if "hm_get (mm_peers (membership_exec op m)) p = Some info" for info
    using that assms(2) by (auto simp: handle_pong_def update_last_seen_def Let_def hm_lookup)
  ultimately show ?thesis using assms(3) by (auto simp: in_check_timeouts)
qed

theorem sign_of_life_witness:
  "PeerId ''p'' \<notin> set (check_timeouts 1500000001 (membership_exec (MSeen 1 (PeerId ''p'')) sample_table))"
  by (rule sign_of_life [OF sample_table_inv, of _ 0 1 _ 0]) (simp_all add: sample_table_run)

text \<open>
  A pong sets the round-trip time of a known peer to the milliseconds elapsed since the ping was
  sent, when the clock has not gone back and the difference fits in 32 bits. If the clock has
  gone back the round-trip time is zero, never a wrapped value.
\<close>

theorem pong_rtt:
  assumes "has_peer m p" "unat (current_timestamp_ms wall) < unat sent + 2 ^ 32"
  shows "map_option unat (get_peer_rtt (handle_pong wall now p sent m) p)
           = Some (unat (current_timestamp_ms wall) - unat sent)"
proof -
  let ?d = "saturating_sub (current_timestamp_ms wall) sent"
  have "unat ?d < 2 ^ 32" using assms(2) by (simp add: saturating_sub_le less_diff_conv2)
  then have "unat (ucast ?d :: u32) = unat ?d" by (simp add: unsigned_ucast_eq take_bit_nat_eq_self)
  with assms(1) show ?thesis
    by (auto simp: handle_pong_def Let_def get_peer_rtt_def has_peer_def hm_lookup saturating_sub_le)
qed

theorem pong_rtt_witness:
  "map_option unat (get_peer_rtt (handle_pong 1700000000050000000 0 (PeerId ''p'') 1700000000000 sample_table) (PeerId ''p''))
     = Some 50"
  using pong_rtt [of sample_table "PeerId ''p''" 1700000000050000000 1700000000000 0]
  by (simp add: has_peer_def sample_table_run current_timestamp_ms_def)

end
