(* ===== verification/Net_Protocol.thy ===== *)
theory Net_Protocol
  imports Net_Config
begin

text \<open>
  The internal protocol messages of \<^verbatim>\<open>src/protocol.rs\<close> and their wire-level type codes.
\<close>

section \<open>Definitions\<close>

datatype InternalMessage =
    Handshake (hs_peer_id: string) (hs_listen_port: u16) (hs_protocol_version: u16) (hs_session_id: string)
  | HandshakeAck (ack_peer_id: string) (ack_listen_port: u16) (ack_success: bool)
      (ack_error_reason: "string option")
  | PeerLeave (leave_peer_id: string)
  | PeerListSync (sync_peers: "(string \<times> string) list")
  | Heartbeat (hb_term: u64) (hb_leader_id: string) (hb_timestamp_ms: u64)
  | HeartbeatResponse (hbr_term: u64) (hbr_timestamp_ms: u64)
  | Ping (ping_timestamp_ms: u64)
  | Pong (pong_timestamp_ms: u64)
  | RequestVote (rv_term: u64) (rv_candidate_id: string)
  | VoteResponse (vr_term: u64) (vr_voter_id: string) (vr_granted: bool)
  | LeaderAssign (la_term: u64) (la_leader_id: string) (la_assigner_id: string)
  | ForwardedUserData (fud_from_peer_id: string) (fud_original_msg_type: u16)
      (fud_original_flags: u8) (fud_payload: bytes)
  | DataChannelHandshake (dch_peer_id: string)
  | DataChannelHandshakeAck (dca_peer_id: string) (dca_success: bool)

definition HANDSHAKE :: u16 where "HANDSHAKE = 0x0001"
definition HANDSHAKE_ACK :: u16 where "HANDSHAKE_ACK = 0x0002"
definition PEER_LEAVE :: u16 where "PEER_LEAVE = 0x0003"
definition PEER_LIST_SYNC :: u16 where "PEER_LIST_SYNC = 0x0004"
definition HEARTBEAT :: u16 where "HEARTBEAT = 0x0010"
definition HEARTBEAT_RESPONSE :: u16 where "HEARTBEAT_RESPONSE = 0x0011"
definition PING :: u16 where "PING = 0x0012"
definition PONG :: u16 where "PONG = 0x0013"
definition REQUEST_VOTE :: u16 where "REQUEST_VOTE = 0x0020"
definition VOTE_RESPONSE :: u16 where "VOTE_RESPONSE = 0x0021"
definition LEADER_ASSIGN :: u16 where "LEADER_ASSIGN = 0x0022"
definition FORWARDED_USER_DATA :: u16 where "FORWARDED_USER_DATA = 0x0030"
definition DATA_CHANNEL_HANDSHAKE :: u16 where "DATA_CHANNEL_HANDSHAKE = 0x0040"
definition DATA_CHANNEL_HANDSHAKE_ACK :: u16 where "DATA_CHANNEL_HANDSHAKE_ACK = 0x0041"
definition USER_MESSAGE_START :: u16 where "USER_MESSAGE_START = 0x0100"

fun msg_type :: "InternalMessage \<Rightarrow> u16" where
  "msg_type (Handshake _ _ _ _) = HANDSHAKE"
| "msg_type (HandshakeAck _ _ _ _) = HANDSHAKE_ACK"
| "msg_type (PeerLeave _) = PEER_LEAVE"
| "msg_type (PeerListSync _) = PEER_LIST_SYNC"
| "msg_type (Heartbeat _ _ _) = HEARTBEAT"
| "msg_type (HeartbeatResponse _ _) = HEARTBEAT_RESPONSE"
| "msg_type (Ping _) = PING"
| "msg_type (Pong _) = PONG"
| "msg_type (RequestVote _ _) = REQUEST_VOTE"
| "msg_type (VoteResponse _ _ _) = VOTE_RESPONSE"
| "msg_type (LeaderAssign _ _ _) = LEADER_ASSIGN"
| "msg_type (ForwardedUserData _ _ _ _) = FORWARDED_USER_DATA"
| "msg_type (DataChannelHandshake _) = DATA_CHANNEL_HANDSHAKE"
| "msg_type (DataChannelHandshakeAck _ _) = DATA_CHANNEL_HANDSHAKE_ACK"

text \<open>All type codes in the order the constants are declared.\<close>

definition msg_types_all :: "u16 list" where
  "msg_types_all =
     [HANDSHAKE, HANDSHAKE_ACK, PEER_LEAVE, PEER_LIST_SYNC, HEARTBEAT, HEARTBEAT_RESPONSE, PING, PONG,
      REQUEST_VOTE, VOTE_RESPONSE, LEADER_ASSIGN, FORWARDED_USER_DATA, DATA_CHANNEL_HANDSHAKE,
      DATA_CHANNEL_HANDSHAKE_ACK]"

section \<open>Lemmas\<close>

named_theorems msg_code_defs \<open>the values of the type codes\<close>

lemmas [msg_code_defs] =
  HANDSHAKE_def HANDSHAKE_ACK_def PEER_LEAVE_def PEER_LIST_SYNC_def HEARTBEAT_def
  HEARTBEAT_RESPONSE_def PING_def PONG_def REQUEST_VOTE_def VOTE_RESPONSE_def LEADER_ASSIGN_def
  FORWARDED_USER_DATA_def DATA_CHANNEL_HANDSHAKE_def DATA_CHANNEL_HANDSHAKE_ACK_def
  USER_MESSAGE_START_def

lemma msg_types_all_distinct: "distinct msg_types_all"
  by (simp add: msg_types_all_def msg_code_defs)

lemma msg_types_all_complete: "set msg_types_all = range msg_type"
proof
  show "range msg_type \<subseteq> set msg_types_all"
  proof
    fix t assume "t \<in> range msg_type"
    then obtain m where "t = msg_type m" by blast
    then show "t \<in> set msg_types_all" by (cases m) (simp_all add: msg_types_all_def)
  qed
  have "msg_types_all = map msg_type
     [Handshake [] 0 0 [], HandshakeAck [] 0 True None, PeerLeave [], PeerListSync [], Heartbeat 0 [] 0,
      HeartbeatResponse 0 0, Ping 0, Pong 0, RequestVote 0 [], VoteResponse 0 [] True, LeaderAssign 0 [] [],
      ForwardedUserData [] 0 0 [], DataChannelHandshake [], DataChannelHandshakeAck [] True]"
    by (simp add: msg_types_all_def)
  then show "set msg_types_all \<subseteq> range msg_type"
    by (rule set_map_range)
qed

lemma msg_type_internal [simp]: "msg_type m < USER_MESSAGE_START"
  by (cases m) (simp_all add: msg_code_defs)

lemma msg_type_data_handshake_iff:
  "msg_type m = DATA_CHANNEL_HANDSHAKE \<longleftrightarrow> (\<exists>p. m = DataChannelHandshake p)"
  by (cases m) (simp_all add: msg_code_defs)

end
