(* ===== verification/Messaging.thy ===== *)
theory Messaging
  imports Net_Protocol
begin

text \<open>
  Packets and their payloads (\<^verbatim>\<open>src/messaging.rs\<close>). LZ4 compression and the \<^verbatim>\<open>postcard\<close>
  serializer are third-party code: they are the fields of the record \<open>ext\<close>, an argument of
  every definition that uses them. What the sources rely on is stated by \<open>lz4_laws\<close> and
  \<open>postcard_laws\<close>: decompressing a compressed buffer gives it back, and deserializing a
  serialized message gives it back.
\<close>

section \<open>Definitions\<close>

record ext =
  compress_prepend_size :: "bytes \<Rightarrow> bytes"
  decompress_size_prepended :: "bytes \<Rightarrow> string + bytes"
  to_allocvec :: "InternalMessage \<Rightarrow> string + bytes"
  from_bytes :: "bytes \<Rightarrow> string + InternalMessage"

definition lz4_laws :: "ext \<Rightarrow> bool" where
  "lz4_laws x \<longleftrightarrow>
     (\<forall>d. decompress_size_prepended x (compress_prepend_size x d) = Inr d)"

definition postcard_laws :: "ext \<Rightarrow> bool" where
  "postcard_laws x \<longleftrightarrow> (\<forall>m b. to_allocvec x m = Inr b \<longrightarrow> from_bytes x b = Inr m)"

record RawPacket =
  pkt_type :: u16
  pkt_flags :: u8
  pkt_payload :: bytes

definition is_compressed :: "RawPacket \<Rightarrow> bool" where
  "is_compressed p \<longleftrightarrow> pkt_flags p AND 0x01 \<noteq> 0"

definition is_internal :: "RawPacket \<Rightarrow> bool" where
  "is_internal p \<longleftrightarrow> pkt_type p < USER_MESSAGE_START"

text \<open>\<^verbatim>\<open>data.len() as u32\<close>: the length truncated to 32 bits.\<close>

definition len_u32 :: "bytes \<Rightarrow> u32" where
  "len_u32 d = word_of_nat (length d)"

definition encode_packet :: "ext \<Rightarrow> u16 \<Rightarrow> bytes \<Rightarrow> u8 \<Rightarrow> u32 \<Rightarrow> u32 \<Rightarrow> NetworkError + RawPacket" where
  "encode_packet x mt data user_flags compression_threshold max_message_size =
     (if mt < USER_MESSAGE_START then
        Inl (InvalidArgument ''msg_type must be >= 0x0100 for user messages'')
      else if len_u32 data > max_message_size then Inl (MessageTooLarge (len_u32 data))
      else
        let clean_flags = user_flags AND 0xFE in
        if len_u32 data > compression_threshold then
          let compressed = compress_prepend_size x data in
          if length compressed < length data then
            Inr \<lparr>pkt_type = mt, pkt_flags = clean_flags OR 0x01, pkt_payload = compressed\<rparr>
          else Inr \<lparr>pkt_type = mt, pkt_flags = clean_flags, pkt_payload = data\<rparr>
        else Inr \<lparr>pkt_type = mt, pkt_flags = clean_flags, pkt_payload = data\<rparr>)"

definition decode_payload :: "ext \<Rightarrow> RawPacket \<Rightarrow> NetworkError + bytes" where
  "decode_payload x p =
     (if is_compressed p then
        (case decompress_size_prepended x (pkt_payload p) of
           Inl e \<Rightarrow> Inl (Internal (''LZ4 decompression failed: '' @ e))
         | Inr d \<Rightarrow> Inr d)
      else Inr (pkt_payload p))"

definition encode_internal :: "ext \<Rightarrow> InternalMessage \<Rightarrow> u32 \<Rightarrow> NetworkError + RawPacket" where
  "encode_internal x msg max_message_size =
     (case to_allocvec x msg of
        Inl e \<Rightarrow> Inl (from_postcard_error e)
      | Inr payload \<Rightarrow>
          if len_u32 payload > max_message_size then Inl (MessageTooLarge (len_u32 payload))
          else Inr \<lparr>pkt_type = msg_type msg, pkt_flags = 0, pkt_payload = payload\<rparr>)"

definition decode_internal :: "ext \<Rightarrow> RawPacket \<Rightarrow> NetworkError + InternalMessage" where
  "decode_internal x p =
     (case from_bytes x (pkt_payload p) of Inl e \<Rightarrow> Inl (Serialization e) | Inr m \<Rightarrow> Inr m)"

text \<open>
  An instance of the third-party interface for closed examples: messages are serialized as
  their position in a fixed table, and a run of at least two equal bytes is compressed to its
  length and value.
\<close>

fun index_of :: "'a list \<Rightarrow> 'a \<Rightarrow> nat option" where
  "index_of [] m = None"
| "index_of (x # xs) m = (if x = m then Some 0 else map_option Suc (index_of xs m))"

definition table_ext :: "InternalMessage list \<Rightarrow> ext" where
  "table_ext ms =
     \<lparr>compress_prepend_size = (\<lambda>d.
        if 3 < length d \<and> length d < 256 \<and> (\<forall>b \<in> set d. b = hd d) then [1, word_of_nat (length d), hd d]
        else 0 # d),
      decompress_size_prepended = (\<lambda>b. case b of
          [] \<Rightarrow> Inl ''empty''
        | t # r \<Rightarrow> if t = 0 then Inr r
                   else (case r of [n, v] \<Rightarrow> Inr (replicate (unat n) v) | _ \<Rightarrow> Inl ''malformed'')),
      to_allocvec = (\<lambda>m. case index_of ms m of
          None \<Rightarrow> Inl ''not in table'' | Some i \<Rightarrow> if i < 256 then Inr [word_of_nat i] else Inl ''table full''),
      from_bytes = (\<lambda>b. case b of
          [w] \<Rightarrow> if unat w < length ms then Inr (ms ! unat w) else Inl ''unknown index''
        | _ \<Rightarrow> Inl ''malformed'')\<rparr>"

section \<open>Lemmas\<close>

lemma flag_bit_cleared [simp]: "(f AND 0xFE) AND (0x01 :: u8) = 0"
  by (simp add: and.assoc)

lemma flag_bit_set [simp]: "((f AND 0xFE) OR 0x01) AND (0x01 :: u8) = 0x01"
  by (simp add: bit_eq_iff bit_and_iff bit_or_iff)

lemma user_flags_kept:
  "((f AND 0xFE) OR 0x01) AND (0xFE :: u8) = f AND 0xFE" "(f AND 0xFE) AND (0xFE :: u8) = f AND 0xFE"
proof -
  show "((f AND 0xFE) OR 0x01) AND (0xFE :: u8) = f AND 0xFE"
    by (simp add: bit.conj_disj_distrib2 and.assoc)
qed (simp add: and.assoc)

lemma len_u32_unat: "length d < 2 ^ 32 \<Longrightarrow> unat (len_u32 d) = length d"
  by (simp add: len_u32_def word_of_nat_unat_small)

lemma encode_packet_type: "encode_packet x mt d f t mx = Inr p \<Longrightarrow> pkt_type p = mt \<and> \<not> is_internal p"
  by (auto simp: encode_packet_def Let_def is_internal_def split: if_splits)

lemma encode_packet_payload:
  "encode_packet x mt d f t mx = Inr p \<Longrightarrow> length (pkt_payload p) \<le> length d"
  by (auto simp: encode_packet_def Let_def split: if_splits)

lemma encode_packet_flags:
  "encode_packet x mt d f t mx = Inr p \<Longrightarrow>
     pkt_flags p AND 0xFE = f AND 0xFE \<and>
     (is_compressed p \<longleftrightarrow> t < len_u32 d \<and> length (compress_prepend_size x d) < length d)"
  by (auto simp: encode_packet_def Let_def is_compressed_def user_flags_kept split: if_splits)

lemma decode_encode_packet:
  "lz4_laws x \<Longrightarrow> encode_packet x mt d f t mx = Inr p \<Longrightarrow> decode_payload x p = Inr d"
  by (auto simp: encode_packet_def Let_def decode_payload_def is_compressed_def lz4_laws_def split: if_splits)

lemma encode_internal_type: "encode_internal x m mx = Inr p \<Longrightarrow>
   pkt_type p = msg_type m \<and> is_internal p \<and> \<not> is_compressed p \<and> pkt_flags p = 0"
  by (auto simp: encode_internal_def is_internal_def is_compressed_def split: sum.splits if_splits)

lemma decode_encode_internal:
  "postcard_laws x \<Longrightarrow> encode_internal x m mx = Inr p \<Longrightarrow> decode_internal x p = Inr m"
  by (auto simp: encode_internal_def decode_internal_def postcard_laws_def split: sum.splits if_splits)

lemma index_of_nth: "index_of ms m = Some i \<Longrightarrow> i < length ms \<and> ms ! i = m"
  by (induction ms arbitrary: i) (auto split: if_splits)

lemma table_ext_postcard: "postcard_laws (table_ext ms)"
  by (auto simp: postcard_laws_def table_ext_def word_of_nat_unat_small
      dest: index_of_nth split: option.splits if_splits)

lemma table_ext_lz4: "lz4_laws (table_ext ms)"
proof -
  have "replicate (length d) (hd d) = d" if "\<forall>b \<in> set d. b = hd d" for d :: bytes
    using that by (metis replicate_length_same)
  then show ?thesis
    by (auto simp: lz4_laws_def table_ext_def word_of_nat_unat_small)
qed

section \<open>Properties\<close>

text \<open>
  C17: User messages survive packing. If \<^verbatim>\<open>encode_packet\<close> accepts a message, decoding the packet's
  payload gives the data back, the message type is kept, the user's flag bits 1 to 7 are kept, the reserved bit tells
  whether the payload is compressed, and compression never makes the payload longer.
\<close>

theorem user_message_roundtrip:
  assumes "lz4_laws x" "encode_packet x mt d f thr mx = Inr p"
  shows "decode_payload x p = Inr d \<and> pkt_type p = mt \<and> pkt_flags p AND 0xFE = f AND 0xFE
    \<and> (is_compressed p \<longleftrightarrow> pkt_payload p \<noteq> d) \<and> length (pkt_payload p) \<le> length d"
  using assms
  by (auto simp: encode_packet_def Let_def decode_payload_def is_compressed_def lz4_laws_def user_flags_kept
      split: if_splits)

theorem user_message_roundtrip_witness:
  "let p = \<lparr>pkt_type = 0x0102, pkt_flags = 0x07, pkt_payload = [1, 8, 42]\<rparr> in
     encode_packet (table_ext []) 0x0102 (replicate 8 42) 0x06 4 1024 = Inr p
   \<and> decode_payload (table_ext []) p = Inr (replicate 8 42)"
proof -
  have e: "encode_packet (table_ext []) 0x0102 (replicate 8 42) 0x06 4 1024
      = Inr \<lparr>pkt_type = 0x0102, pkt_flags = 0x07, pkt_payload = [1, 8, 42]\<rparr>"
    by (simp add: encode_packet_def table_ext_def len_u32_def USER_MESSAGE_START_def)
  from user_message_roundtrip [OF table_ext_lz4 e] e show ?thesis by (simp add: Let_def)
qed

text \<open>
  When a user message is refused. For data shorter than 4 GiB, \<^verbatim>\<open>encode_packet\<close> fails exactly on a
  reserved message type, with an invalid-argument error, or on data above the size limit, with the size in the error.
\<close>

theorem encode_packet_refuses:
  assumes "length d < 2 ^ 32"
  shows "encode_packet x mt d f thr mx = Inl e \<longleftrightarrow>
     (if mt < USER_MESSAGE_START then e = InvalidArgument ''msg_type must be >= 0x0100 for user messages''
      else unat mx < length d \<and> e = MessageTooLarge (len_u32 d))"
  using len_u32_unat [OF assms] by (auto simp: encode_packet_def Let_def word_less_nat_alt)

theorem encode_packet_refuses_witness:
  "encode_packet (table_ext []) 0x00FF [1] 0 512 1024
     = Inl (InvalidArgument ''msg_type must be >= 0x0100 for user messages'')
   \<and> encode_packet (table_ext []) 0x0100 [1, 2] 0 512 1 = Inl (MessageTooLarge 2)"
proof
  have "length [1 :: u8] < 2 ^ 32" "length [1 :: u8, 2] < 2 ^ 32" by simp_all
  from encode_packet_refuses [OF this(1)] show "encode_packet (table_ext []) 0x00FF [1] 0 512 1024
     = Inl (InvalidArgument ''msg_type must be >= 0x0100 for user messages'')"
    by (simp add: USER_MESSAGE_START_def)
  from encode_packet_refuses [OF \<open>length [1 :: u8, 2] < 2 ^ 32\<close>]
  show "encode_packet (table_ext []) 0x0100 [1, 2] 0 512 1 = Inl (MessageTooLarge 2)"
    by (simp add: USER_MESSAGE_START_def len_u32_def)
qed

text \<open>
  Control messages survive packing: an encoded internal message carries its own type code, is
  classed as internal and uncompressed, respects the size limit, and decodes to the message that was sent.
\<close>

theorem internal_message_roundtrip:
  assumes "postcard_laws x" "encode_internal x m mx = Inr p"
  shows "decode_internal x p = Inr m \<and> pkt_type p = msg_type m \<and> is_internal p \<and> \<not> is_compressed p
    \<and> len_u32 (pkt_payload p) \<le> mx"
  using decode_encode_internal [OF assms] encode_internal_type [OF assms(2)] assms(2)
  by (auto simp: encode_internal_def not_less split: sum.splits if_splits)

theorem internal_message_roundtrip_witness:
  "let x = table_ext [Ping 7]; p = \<lparr>pkt_type = PING, pkt_flags = 0, pkt_payload = [0]\<rparr> in
     encode_internal x (Ping 7) 64 = Inr p \<and> decode_internal x p = Inr (Ping 7)"
proof -
  have e: "encode_internal (table_ext [Ping 7]) (Ping 7) 64
      = Inr \<lparr>pkt_type = PING, pkt_flags = 0, pkt_payload = [0]\<rparr>"
    by (simp add: encode_internal_def table_ext_def len_u32_def)
  from internal_message_roundtrip [OF table_ext_postcard e] e show ?thesis by (simp add: Let_def)
qed

end
