(* ===== verification/Packet_Codec.thy ===== *)
theory Packet_Codec
  imports Messaging
begin

text \<open>
  The packet framing of \<^verbatim>\<open>src/transport.rs\<close> (\<^verbatim>\<open>PacketCodec\<close>): a seven-byte header (length,
  type code, flags, big endian) followed by the payload. \<open>drain\<close> and \<open>feed\<close> are the
  specification of a reader that owns a buffer, appends whatever the socket delivers and
  calls the decoder until it asks for more; the locales state what such a reader needs from
  a decoder and an encoder, and the codec provides it.
\<close>

section \<open>Definitions\<close>

definition u32_to_be :: "u32 \<Rightarrow> bytes" where
  "u32_to_be w =
     [word_of_nat (unat w div 2 ^ 24), word_of_nat (unat w div 2 ^ 16 mod 256),
      word_of_nat (unat w div 2 ^ 8 mod 256), word_of_nat (unat w mod 256)]"

definition u32_from_be :: "u8 \<Rightarrow> u8 \<Rightarrow> u8 \<Rightarrow> u8 \<Rightarrow> u32" where
  "u32_from_be a b c d = word_of_nat (unat a * 2 ^ 24 + unat b * 2 ^ 16 + unat c * 2 ^ 8 + unat d)"

definition u16_to_be :: "u16 \<Rightarrow> bytes" where
  "u16_to_be w = [word_of_nat (unat w div 256), word_of_nat (unat w mod 256)]"

definition u16_from_be :: "u8 \<Rightarrow> u8 \<Rightarrow> u16" where
  "u16_from_be a b = word_of_nat (unat a * 256 + unat b)"

text \<open>
  \<^verbatim>\<open>decode\<close> reads at most one packet off the front of the buffer: \<open>Inr (None, src)\<close> asks
  for more bytes and leaves the buffer as it is.
\<close>

definition decode :: "u32 \<Rightarrow> bytes \<Rightarrow> NetworkError + (RawPacket option \<times> bytes)" where
  "decode max_message_size src =
     (if length src < 7 then Inr (None, src)
      else
        let len = u32_from_be (src ! 0) (src ! 1) (src ! 2) (src ! 3) in
        if len > max_message_size then Inl (MessageTooLarge len)
        else
          let total = 7 + unat len in
          if length src < total then Inr (None, src)
          else
            let header = take 7 src; src1 = drop 7 src;
                payload = take (unat len) src1; src2 = drop (unat len) src1 in
            Inr (Some \<lparr>pkt_type = u16_from_be (header ! 4) (header ! 5), pkt_flags = header ! 6,
                       pkt_payload = payload\<rparr>, src2))"

definition encode :: "u32 \<Rightarrow> RawPacket \<Rightarrow> bytes \<Rightarrow> NetworkError + bytes" where
  "encode max_message_size item dst =
     (if length (pkt_payload item) > unat max_message_size then
        Inl (MessageTooLarge (len_u32 (pkt_payload item)))
      else
        Inr (dst @ u32_to_be (len_u32 (pkt_payload item)) @ u16_to_be (pkt_type item)
               @ [pkt_flags item] @ pkt_payload item))"

text \<open>The bytes one packet occupies on the wire.\<close>

definition frame :: "RawPacket \<Rightarrow> bytes" where
  "frame p = u32_to_be (len_u32 (pkt_payload p)) @ u16_to_be (pkt_type p) @ [pkt_flags p] @ pkt_payload p"

function drain :: "('b list \<Rightarrow> 'e + ('p option \<times> 'b list)) \<Rightarrow> 'b list \<Rightarrow> 'p list \<times> ('e + 'b list)" where
  "drain dec buf =
     (case dec buf of
        Inl e \<Rightarrow> ([], Inl e)
      | Inr (None, rest) \<Rightarrow> ([], Inr rest)
      | Inr (Some p, rest) \<Rightarrow>
          if length rest < length buf then
            (case drain dec rest of (ps, r) \<Rightarrow> (p # ps, r))
          else ([p], Inr rest))"
  by pat_completeness auto
termination
  by (relation "measure (\<lambda>(dec, buf). length buf)") auto

declare drain.simps [simp del]

fun feed :: "('b list \<Rightarrow> 'e + ('p option \<times> 'b list)) \<Rightarrow> 'b list \<Rightarrow> 'b list list \<Rightarrow> 'p list \<times> ('e + 'b list)" where
  "feed dec buf [] = ([], Inr buf)"
| "feed dec buf (c # cs) =
     (case drain dec (buf @ c) of
        (ps, Inl e) \<Rightarrow> (ps, Inl e)
      | (ps, Inr rest) \<Rightarrow> (case feed dec rest cs of (qs, r) \<Rightarrow> (ps @ qs, r)))"

section \<open>Interfaces\<close>

text \<open>
  A frame decoder is stable under appending bytes: a decision it has taken on a prefix it
  takes on every extension, and it leaves an undecided buffer alone.
\<close>

locale frame_decoder =
  fixes dec :: "'b list \<Rightarrow> 'e + ('p option \<times> 'b list)"
  assumes dec_error_stable: "dec a = Inl e \<Longrightarrow> dec (a @ b) = Inl e"
    and dec_frame_stable: "dec a = Inr (Some p, r) \<Longrightarrow> dec (a @ b) = Inr (Some p, r @ b)"
    and dec_progress: "dec a = Inr (Some p, r) \<Longrightarrow> length r < length a"
    and dec_wait: "dec a = Inr (None, r) \<Longrightarrow> r = a"
begin

lemma drain_frame:
  "dec a = Inr (Some p, r) \<Longrightarrow> drain dec a = (case drain dec r of (ps, x) \<Rightarrow> (p # ps, x))"
  by (simp add: drain.simps [of dec a] dec_progress)

lemma drain_error: "dec a = Inl e \<Longrightarrow> drain dec a = ([], Inl e)"
  by (simp add: drain.simps [of dec a])

lemma drain_wait: "dec a = Inr (None, r) \<Longrightarrow> drain dec a = ([], Inr a)"
  using dec_wait [of a r] by (simp add: drain.simps [of dec a])

lemma drain_append:
  "drain dec (a @ b) =
     (case drain dec a of
        (ps, Inl e) \<Rightarrow> (ps, Inl e)
      | (ps, Inr r) \<Rightarrow> (case drain dec (r @ b) of (qs, x) \<Rightarrow> (ps @ qs, x)))"
proof (induction a rule: measure_induct_rule [where f = length])
  case (less a)
  consider (err) e where "dec a = Inl e" | (wait) r where "dec a = Inr (None, r)"
    | (frame) p r where "dec a = Inr (Some p, r)"
    by (metis option.exhaust sumE surj_pair)
  then show ?case
  proof cases
    case err
    then show ?thesis by (simp add: drain_error dec_error_stable)
  next
    case wait
    then show ?thesis by (simp add: drain_wait)
  next
    case frame
    then have "drain dec (a @ b) = (case drain dec (r @ b) of (ps, x) \<Rightarrow> (p # ps, x))"
      by (simp add: drain_frame dec_frame_stable)
    with less.IH [of r] frame show ?thesis
      by (simp add: dec_progress drain_frame split: prod.split sum.split)
  qed
qed

lemma drain_remainder_waits: "drain dec a = (ps, Inr r) \<Longrightarrow> drain dec r = ([], Inr r)"
proof (induction a arbitrary: ps rule: measure_induct_rule [where f = length])
  case (less a)
  consider (err) e where "dec a = Inl e" | (wait) r' where "dec a = Inr (None, r')"
    | (frame) p r' where "dec a = Inr (Some p, r')"
    by (metis option.exhaust sumE surj_pair)
  then show ?case
  proof cases
    case err
    with less.prems show ?thesis by (simp add: drain_error)
  next
    case wait
    with less.prems show ?thesis by (simp add: drain_wait)
  next
    case frame
    with less.prems obtain qs where "drain dec r' = (qs, Inr r)"
      by (auto simp: drain_frame split: prod.splits)
    with less.IH frame show ?thesis by (blast intro: dec_progress)
  qed
qed

lemma feed_drain:
  assumes "drain dec buf = ([], Inr buf)"
  shows "feed dec buf cs = drain dec (buf @ concat cs)"
  using assms
proof (induction cs arbitrary: buf)
  case Nil
  then show ?case by simp
next
  case (Cons c cs)
  show ?case
  proof (cases "drain dec (buf @ c)")
    case (Pair ps x)
    show ?thesis
    proof (cases x)
      case (Inl e)
      with Pair drain_append [of "buf @ c" "concat cs"] show ?thesis by simp
    next
      case (Inr r)
      with Pair have "drain dec r = ([], Inr r)"
        by (blast intro: drain_remainder_waits)
      then have "feed dec r cs = drain dec (r @ concat cs)" by (rule Cons.IH)
      with Pair Inr drain_append [of "buf @ c" "concat cs"] show ?thesis by simp
    qed
  qed
qed

end

text \<open>A codec also has an encoder whose frames the decoder recognises.\<close>

locale frame_codec = frame_decoder dec
  for dec :: "'b list \<Rightarrow> 'e + ('p option \<times> 'b list)" +
  fixes enc :: "'p \<Rightarrow> 'b list"
    and fits :: "'p \<Rightarrow> bool"
  assumes dec_enc: "fits p \<Longrightarrow> dec (enc p @ r) = Inr (Some p, r)"
    and dec_empty: "dec [] = Inr (None, [])"
begin

lemma drain_encoded:
  "(\<And>p. p \<in> set ps \<Longrightarrow> fits p) \<Longrightarrow> dec r = Inr (None, r) \<Longrightarrow>
     drain dec (concat (map enc ps) @ r) = (ps, Inr r)"
proof (induction ps)
  case Nil
  then show ?case by (simp add: drain_wait)
next
  case (Cons p ps)
  then have "dec (enc p @ concat (map enc ps) @ r) = Inr (Some p, concat (map enc ps) @ r)"
    by (simp add: dec_enc)
  with Cons show ?case by (simp add: drain_frame)
qed

lemma drain_after_encoded:
  "(\<And>p. p \<in> set ps \<Longrightarrow> fits p) \<Longrightarrow> fst (drain dec (concat (map enc ps) @ r)) = ps @ fst (drain dec r)"
  by (induction ps) (simp_all add: drain_frame [OF dec_enc] case_prod_beta)

lemma feed_encoded:
  assumes "\<And>p. p \<in> set ps \<Longrightarrow> fits p" and "concat cs = concat (map enc ps)"
  shows "feed dec [] cs = (ps, Inr [])"
  using assms(2) feed_drain [of "[]" cs] drain_encoded [OF assms(1), where r = "[]"]
  by (simp add: drain_wait dec_empty)

text \<open>A stream that breaks off delivers the packets that arrived whole, and nothing else.\<close>

lemma partial_frame_waits: "fits p \<Longrightarrow> enc p = a @ b \<Longrightarrow> b \<noteq> [] \<Longrightarrow> dec a = Inr (None, a)"
proof -
  assume "fits p" "enc p = a @ b" "b \<noteq> []"
  then have whole: "dec (a @ b) = Inr (Some p, [])" using dec_enc [of p "[]"] by simp
  consider (err) e where "dec a = Inl e" | (wait) r where "dec a = Inr (None, r)"
    | (frame) q r where "dec a = Inr (Some q, r)"
    by (metis option.exhaust sumE surj_pair)
  then show ?thesis
  proof cases
    case err
    with whole show ?thesis using dec_error_stable [of a e b] by simp
  next
    case frame
    with whole \<open>b \<noteq> []\<close> show ?thesis using dec_frame_stable [of a q r b] by simp
  qed (use dec_wait in blast)
qed

lemma drain_prefix:
  "(\<And>p. p \<in> set ps \<Longrightarrow> fits p) \<Longrightarrow> concat (map enc ps) = a @ b \<Longrightarrow>
     \<exists>k r. drain dec a = (take k ps, Inr r)"
proof (induction ps arbitrary: a)
  case Nil
  then show ?case by (simp add: drain_wait dec_empty)
next
  case (Cons p ps)
  from Cons.prems(2) have "enc p @ concat (map enc ps) = a @ b" by simp
  then consider c where "enc p = a @ c" "c \<noteq> []" | a' where "a = enc p @ a'" "concat (map enc ps) = a' @ b"
    unfolding append_eq_append_conv2 by (metis append_Nil append_Nil2)
  then show ?case
  proof cases
    case 1
    then have "drain dec a = ([], Inr a)" using Cons.prems(1) by (auto intro: drain_wait partial_frame_waits)
    then show ?thesis by (intro exI [of _ 0]) simp
  next
    case 2
    with Cons obtain k r where "drain dec a' = (take k ps, Inr r)" by fastforce
    with 2(1) Cons.prems(1) show ?thesis
      by (intro exI [of _ "Suc k"]) (simp add: drain_frame [OF dec_enc])
  qed
qed

lemma feed_prefix:
  assumes "\<And>p. p \<in> set ps \<Longrightarrow> fits p" "concat (map enc ps) = concat cs @ b"
  shows "\<exists>k r. feed dec [] cs = (take k ps, Inr r)"
  using drain_prefix [OF assms] feed_drain [of "[]" cs] by (simp add: drain_wait dec_empty)

end

section \<open>Lemmas\<close>

lemma u32_be_lengths [simp]: "length (u32_to_be w) = 4" "length (u16_to_be v) = 2"
  by (simp_all add: u32_to_be_def u16_to_be_def)

lemma unat_u8_bound: "unat (b :: u8) < 256"
  using unsigned_less [of b] by simp

lemma be_powers: "(2 :: nat) ^ 8 = 256" "(2 :: nat) ^ 16 = 65536" "(2 :: nat) ^ 24 = 16777216"
  by simp_all

lemma u32_be_roundtrip:
  "u32_from_be (u32_to_be w ! 0) (u32_to_be w ! 1) (u32_to_be w ! 2) (u32_to_be w ! 3) = w"
proof -
  have w: "unat w < 2 ^ 32" using unsigned_less [of w] by simp
  then have "unat w div 2 ^ 24 < 256" by (simp add: less_mult_imp_div_less)
  then have "unat (word_of_nat (unat w div 2 ^ 24) :: u8) = unat w div 2 ^ 24"
    by (simp add: word_of_nat_unat_small)
  moreover have "unat (word_of_nat (k mod 256) :: u8) = k mod 256" for k
    by (simp add: word_of_nat_unat_small)
  moreover have "unat w div 2 ^ 24 * 2 ^ 24 + unat w div 2 ^ 16 mod 256 * 2 ^ 16
      + unat w div 2 ^ 8 mod 256 * 2 ^ 8 + unat w mod 256 = unat w"
  proof -
    have "n = n div 256 * 256 + n mod 256" "n div 256 = n div 65536 * 256 + n div 256 mod 256"
      "n div 65536 = n div 16777216 * 256 + n div 65536 mod 256" for n :: nat
      using div_mult_mod_eq [of "n div 256" 256] div_mult_mod_eq [of "n div 65536" 256]
      by (simp_all add: div_mult2_eq [symmetric])
    from this [of "unat w"] show ?thesis
      unfolding be_powers by linarith
  qed
  ultimately show ?thesis
    by (simp add: u32_from_be_def u32_to_be_def)
qed

lemma u16_be_roundtrip: "u16_from_be (u16_to_be w ! 0) (u16_to_be w ! 1) = w"
proof -
  have "unat w < 2 ^ 16" using unsigned_less [of w] by simp
  then have "unat w div 256 < 256" by (simp add: less_mult_imp_div_less)
  then show ?thesis
    by (simp add: u16_from_be_def u16_to_be_def word_of_nat_unat_small)
qed

lemma byte_split: "(n :: nat) = 256 * m + d \<Longrightarrow> d < 256 \<Longrightarrow> n mod 256 = d" "n = 256 * m + d \<Longrightarrow> d < 256 \<Longrightarrow> n div 256 = m"
  by simp_all

lemma byte_shift: "(k :: nat) div 2 ^ 8 = k div 256" "k div 2 ^ 16 = k div 256 div 256"
  "k div 2 ^ 24 = k div 256 div 256 div 256"
  by (simp_all add: div_mult2_eq [symmetric])

lemma u32_be_inverse: "u32_to_be (u32_from_be a b c d) = [a, b, c, d]"
proof -
  let ?n = "unat a * 2 ^ 24 + unat b * 2 ^ 16 + unat c * 2 ^ 8 + unat d"
  have bs: "unat a < 256" "unat b < 256" "unat c < 256" "unat d < 256" by (rule unat_u8_bound)+
  then have "?n < 2 ^ 32" by simp
  then have n: "unat (u32_from_be a b c d) = ?n"
    unfolding u32_from_be_def by (subst word_of_nat_unat_small) simp_all
  have "?n = 256 * (256 * (256 * unat a + unat b) + unat c) + unat d" by simp
  from byte_split [OF this bs(4)]
  have "?n mod 256 = unat d" and d1: "?n div 256 = 256 * (256 * unat a + unat b) + unat c" .
  moreover from byte_split [OF d1 bs(3)] have "?n div 256 mod 256 = unat c"
    and d2: "?n div 256 div 256 = 256 * unat a + unat b" .
  moreover from byte_split [OF d2 bs(2)]
  have "?n div 256 div 256 mod 256 = unat b" "?n div 256 div 256 div 256 = unat a" .
  ultimately have "?n div 2 ^ 24 = unat a" "?n div 2 ^ 16 mod 256 = unat b"
    "?n div 2 ^ 8 mod 256 = unat c" "?n mod 256 = unat d"
    by (simp_all only: byte_shift)
  with n show ?thesis by (simp add: u32_to_be_def)
qed

lemma u16_be_inverse: "u16_to_be (u16_from_be a b) = [a, b]"
proof -
  have bs: "unat a < 256" "unat b < 256" by (rule unat_u8_bound)+
  then have "unat (u16_from_be a b) = unat a * 256 + unat b"
    unfolding u16_from_be_def by (subst word_of_nat_unat_small) simp_all
  with bs show ?thesis by (simp add: u16_to_be_def)
qed

lemma encode_frame: "encode mx p dst =
   (if length (pkt_payload p) \<le> unat mx then Inr (dst @ frame p) else Inl (MessageTooLarge (len_u32 (pkt_payload p))))"
  by (simp add: encode_def frame_def)

lemma frame_header:
  "frame p @ r = a # b # c # d # e # f # g # rest \<longleftrightarrow>
     u32_to_be (len_u32 (pkt_payload p)) = [a, b, c, d] \<and> u16_to_be (pkt_type p) = [e, f]
     \<and> pkt_flags p = g \<and> pkt_payload p @ r = rest"
  by (auto simp: frame_def u32_to_be_def u16_to_be_def)

lemma decode_short: "length src < 7 \<Longrightarrow> decode mx src = Inr (None, src)"
  by (simp add: decode_def)

lemma decode_header:
  "decode mx (a # b # c # d # e # f # g # rest) =
     (let len = u32_from_be a b c d in
      if len > mx then Inl (MessageTooLarge len)
      else if length rest < unat len then Inr (None, a # b # c # d # e # f # g # rest)
      else Inr (Some \<lparr>pkt_type = u16_from_be e f, pkt_flags = g, pkt_payload = take (unat len) rest\<rparr>,
                drop (unat len) rest))"
  by (simp add: decode_def Let_def)

lemma long_header_cases:
  obtains (short) "length src < 7"
    | (header) a b c d e f g rest where "src = a # b # c # d # e # f # g # rest"
proof (cases "length src < 7")
  case False
  then have "\<exists>a b c d e f g rest. src = a # b # c # d # e # f # g # rest"
    by (auto simp: not_less numeral_eq_Suc Suc_le_length_iff)
  then show ?thesis using header by blast
qed (rule short)

lemma decode_frame:
  assumes "length (pkt_payload p) \<le> unat mx"
  shows "decode mx (frame p @ r) = Inr (Some p, r)"
proof -
  obtain a b c d e f g rest where h: "frame p @ r = a # b # c # d # e # f # g # rest"
    by (rule long_header_cases [of "frame p @ r"]) (simp_all add: frame_def)
  then have parts: "u32_to_be (len_u32 (pkt_payload p)) = [a, b, c, d]" "u16_to_be (pkt_type p) = [e, f]"
    "pkt_flags p = g" "rest = pkt_payload p @ r"
    by (simp_all add: frame_header)
  have "unat mx < 2 ^ 32" using unsigned_less [of mx] by simp
  with assms have "length (pkt_payload p) < 2 ^ 32" by simp
  then have "unat (len_u32 (pkt_payload p)) = length (pkt_payload p)"
    by (rule len_u32_unat)
  moreover from parts(1) have "u32_from_be a b c d = len_u32 (pkt_payload p)"
    using u32_be_roundtrip [of "len_u32 (pkt_payload p)"] by simp
  moreover from parts(2) have "u16_from_be e f = pkt_type p"
    using u16_be_roundtrip [of "pkt_type p"] by simp
  ultimately show ?thesis
    using assms parts(3,4) unfolding h decode_header
    by (cases p) (simp add: Let_def word_less_nat_alt)
qed

lemma decode_Some_frame:
  assumes "decode mx src = Inr (Some p, r)"
  shows "src = frame p @ r \<and> length (pkt_payload p) \<le> unat mx"
proof (cases src rule: long_header_cases)
  case short
  with assms show ?thesis by (simp add: decode_short)
next
  case (header a b c d e f g rest)
  let ?len = "u32_from_be a b c d"
  from assms header have le: "\<not> mx < ?len" and ln: "\<not> length rest < unat ?len"
    and p: "p = \<lparr>pkt_type = u16_from_be e f, pkt_flags = g, pkt_payload = take (unat ?len) rest\<rparr>"
    and r: "r = drop (unat ?len) rest"
    by (auto simp: decode_header Let_def split: if_splits)
  from p ln have l: "len_u32 (pkt_payload p) = ?len"
    by (simp add: len_u32_def min_def not_less)
  then have "u32_to_be (len_u32 (pkt_payload p)) = [a, b, c, d]" by (simp only: u32_be_inverse)
  moreover from p have "u16_to_be (pkt_type p) = [e, f]" "pkt_flags p = g" "pkt_payload p @ r = rest"
    using r by (simp_all add: u16_be_inverse)
  moreover from p le have "length (pkt_payload p) \<le> unat mx"
    by (simp add: word_le_nat_alt not_less min_def)
  ultimately show ?thesis
    unfolding header frame_def by simp
qed

lemma decode_None_same: "decode mx src = Inr (None, r) \<Longrightarrow> r = src"
  by (cases src rule: long_header_cases) (auto simp: decode_short decode_header Let_def split: if_splits)

lemma decode_error_stable: "decode mx a = Inl e \<Longrightarrow> decode mx (a @ b) = Inl e"
  by (cases a rule: long_header_cases) (auto simp: decode_short decode_header Let_def split: if_splits)

lemma frame_nonempty [simp]: "frame p \<noteq> []" "0 < length (frame p)"
  by (simp_all add: frame_def)

interpretation packet_codec: frame_codec "decode mx" frame "\<lambda>p. length (pkt_payload p) \<le> unat mx"
proof unfold_locales
  fix a b p r
  assume "decode mx a = Inr (Some p, r)"
  then have a: "a = frame p @ r" and le: "length (pkt_payload p) \<le> unat mx"
    using decode_Some_frame by blast+
  from decode_frame [OF le, of "r @ b"] a show "decode mx (a @ b) = Inr (Some p, r @ b)" by simp
  from a show "length r < length a" by simp
qed (auto simp: decode_error_stable decode_None_same decode_frame decode_short)

section \<open>Properties\<close>

definition encode_all :: "u32 \<Rightarrow> RawPacket list \<Rightarrow> NetworkError + bytes" where
  "encode_all mx ps = fold (\<lambda>p r. try_bind r (encode mx p)) ps (Inr [])"

lemma fold_encode_error: "fold (\<lambda>p r. try_bind r (encode mx p)) ps (Inl e) = Inl e"
  by (induction ps) simp_all

lemma fold_encode_frames:
  "fold (\<lambda>p r. try_bind r (encode mx p)) ps (Inr dst) = Inr buf \<Longrightarrow>
     buf = dst @ concat (map frame ps) \<and> (\<forall>p \<in> set ps. length (pkt_payload p) \<le> unat mx)"
proof (induction ps arbitrary: dst)
  case (Cons p ps)
  from Cons.prems have le: "length (pkt_payload p) \<le> unat mx"
    by (cases "length (pkt_payload p) \<le> unat mx") (simp_all add: encode_frame [of mx p] fold_encode_error)
  with Cons.prems have "fold (\<lambda>p r. try_bind r (encode mx p)) ps (Inr (dst @ frame p)) = Inr buf"
    by (simp add: encode_frame [of mx p])
  from Cons.IH [OF this] le show ?case by simp
qed simp

text \<open>
  C5: Stream round trip. Whatever packets a sender encodes one after another into its buffer, and
  however the transport cuts the bytes into chunks, a receiver that feeds the chunks to the
  decoder gets exactly those packets in that order and is left with an empty buffer.
\<close>

theorem stream_roundtrip:
  assumes "encode_all mx ps = Inr buf" "concat cs = buf"
  shows "feed (decode mx) [] cs = (ps, Inr [])"
  using fold_encode_frames [OF assms(1) [unfolded encode_all_def]] assms(2)
  by (intro packet_codec.feed_encoded) auto

definition hello_packet :: RawPacket where
  "hello_packet = \<lparr>pkt_type = 0x0100, pkt_flags = 2, pkt_payload = [104, 105]\<rparr>"

theorem stream_roundtrip_witness:
  "feed (decode 1024) [] [[0, 0, 0], [2, 1, 0, 2, 104], [105, 0, 0, 0, 2, 1, 0, 2, 104, 105]]
     = ([hello_packet, hello_packet], Inr [])"
  by (rule stream_roundtrip [OF _ refl])
     (simp add: encode_all_def encode_def hello_packet_def len_u32_def u32_to_be_def u16_to_be_def)

text \<open>
  The decoder accepts exactly the frames: it returns a packet and a rest if and only if the buffer
  is that packet's frame followed by the rest and the payload respects the size limit. No
  byte is lost, invented or reordered, and nothing but a frame is taken for one.
\<close>

theorem decode_iff_frame:
  "decode mx src = Inr (Some p, r) \<longleftrightarrow> src = frame p @ r \<and> length (pkt_payload p) \<le> unat mx"
  using decode_Some_frame decode_frame by blast

text \<open>
  The decoder fails only on an announced length above the limit, as soon as the header is
  complete, and reports that length; a shorter buffer always waits for more bytes.
\<close>

theorem decode_error_iff:
  "decode mx src = Inl e \<longleftrightarrow>
     7 \<le> length src \<and> (let len = u32_from_be (src ! 0) (src ! 1) (src ! 2) (src ! 3) in
       mx < len \<and> e = MessageTooLarge len)"
  by (cases src rule: long_header_cases) (auto simp: decode_short decode_header Let_def)

text \<open>
  C24: Fragmentation is invisible, for malformed input too: feeding any sequence of chunks delivers the same
  packets, the same error and the same leftover as decoding the whole byte string at once.
\<close>

theorem fragmentation_invisible: "feed (decode mx) [] cs = drain (decode mx) (concat cs)"
  using packet_codec.feed_drain [of mx "[]" cs] by (simp add: packet_codec.drain_wait decode_short)

end
