(* ===== verification/Transport.thy ===== *)
theory Transport
  imports Packet_Codec
begin

text \<open>
  The connection table of \<^verbatim>\<open>src/transport.rs\<close>: registering and removing peers, choosing
  the channel of a packet, broadcasting, and the bookkeeping of the tasks that serve a
  connection. Each definition is one section of code under the lock on the table.

  Channels, cancellation tokens and tasks belong to the runtime. A sender or a token is a handle
  drawn from \<open>tm_next\<close>; \<open>tm_cancelled\<close> is the sequence of tokens on which \<^verbatim>\<open>cancel()\<close> was called,
  \<open>tm_sent\<close> the packets that \<^verbatim>\<open>try_send\<close> accepted with the sender they went to, \<open>tm_incoming\<close> what
  was offered to the incoming queue, \<open>tm_reconnect_events\<close> what was offered to the reconnect
  channel and \<open>tm_spawned\<close> the tasks started. What \<^verbatim>\<open>try_send\<close> and \<^verbatim>\<open>is_cancelled\<close> answer is an argument of the
  operation that asks.
\<close>

section \<open>Definitions\<close>

record PeerConnection =
  control_tx :: nat
  data_tx :: "nat option"
  control_cancel :: nat
  data_cancel :: "nat option"
  conn_info :: PeerInfo

datatype spawned_task =
    ControlWrite nat nat
  | ControlRead PeerId nat
  | DataWrite nat nat
  | DataRead PeerId nat
  | OpenData PeerId SocketAddr
  | Reconnect PeerId string

record TransportManager =
  tm_local_peer_id :: PeerId
  tm_session_id :: string
  tm_config :: NetworkConfig
  tm_connections :: "(PeerId, PeerConnection) hash_map"
  tm_listener_addr :: SocketAddr
  tm_incoming :: "(PeerId \<times> RawPacket) list"
  tm_reconnect_events :: "(PeerId \<times> u8) list"
  auto_reconnect_enabled :: bool
  tm_next :: nat
  tm_cancelled :: "nat list"
  tm_sent :: "(nat \<times> RawPacket) list"
  tm_spawned :: "spawned_task list"

type_synonym send_env = "nat \<Rightarrow> RawPacket \<Rightarrow> try_send_result"

text \<open>
  The listener is bound by the operating system: its address, or the error of \<^verbatim>\<open>bind\<close> and
  \<^verbatim>\<open>local_addr\<close>, is an argument.
\<close>

definition transport_new :: "PeerId \<Rightarrow> string \<Rightarrow> NetworkConfig \<Rightarrow> string + SocketAddr \<Rightarrow> NetworkError + TransportManager" where
  "transport_new local_id session config bound =
     (case bound of
        Inl e \<Rightarrow> Inl (from_io_error e)
      | Inr addr \<Rightarrow> Inr
          \<lparr>tm_local_peer_id = local_id, tm_session_id = session, tm_config = config,
           tm_connections = [], tm_listener_addr = addr, tm_incoming = [], tm_reconnect_events = [],
           auto_reconnect_enabled = cfg_auto_reconnect_enabled config,
           tm_next = 0, tm_cancelled = [], tm_sent = [], tm_spawned = []\<rparr>)"

definition connection_count :: "TransportManager \<Rightarrow> nat" where
  "connection_count tm = length (tm_connections tm)"

text \<open>The calls made on a socket and the first error among their outcomes.\<close>

datatype sock_call =
    SetTcpKeepalive nat nat "nat option"
  | SetLinger nat
  | SetNodelay bool

definition SO_LINGER_SECS :: nat where
  "SO_LINGER_SECS = 2"

definition configure_socket_calls :: "bool \<Rightarrow> NetworkConfig \<Rightarrow> sock_call list" where
  "configure_socket_calls windows config =
     [SetTcpKeepalive (unat (keepalive_time_secs config)) (unat (keepalive_interval_secs config))
        (if windows then None else Some (unat (keepalive_retries config))),
      SetLinger SO_LINGER_SECS,
      SetNodelay (tcp_nodelay config)]"

fun run_calls :: "(sock_call \<Rightarrow> string option) \<Rightarrow> sock_call list \<Rightarrow> NetworkError + unit" where
  "run_calls os [] = Inr ()"
| "run_calls os (c # cs) = (case os c of Some e \<Rightarrow> Inl (from_io_error e) | None \<Rightarrow> run_calls os cs)"

definition configure_socket :: "bool \<Rightarrow> (sock_call \<Rightarrow> string option) \<Rightarrow> NetworkConfig \<Rightarrow> NetworkError + unit" where
  "configure_socket windows os config = run_calls os (configure_socket_calls windows config)"

definition cancel :: "nat \<Rightarrow> TransportManager \<Rightarrow> TransportManager" where
  "cancel tok tm = tm\<lparr>tm_cancelled := tm_cancelled tm @ [tok]\<rparr>"

definition cancel_opt :: "nat option \<Rightarrow> TransportManager \<Rightarrow> TransportManager" where
  "cancel_opt t tm = (case t of None \<Rightarrow> tm | Some tok \<Rightarrow> cancel tok tm)"

definition spawn :: "spawned_task list \<Rightarrow> TransportManager \<Rightarrow> TransportManager" where
  "spawn ts tm = tm\<lparr>tm_spawned := tm_spawned tm @ ts\<rparr>"

definition register_connection ::
  "instant \<Rightarrow> PeerId \<Rightarrow> SocketAddr \<Rightarrow> TransportManager \<Rightarrow> (NetworkError + unit) \<times> TransportManager" where
  "register_connection now pid addr tm =
     (let send_tx = tm_next tm; cancel_token = Suc (tm_next tm);
          tm1 = tm\<lparr>tm_next := Suc (Suc (tm_next tm))\<rparr>;
          info = peer_info_new now pid addr in
      if hm_contains (tm_connections tm1) pid then (Inl (DuplicatePeerId (as_str pid)), tm1)
      else
        let tm2 = tm1\<lparr>tm_connections := hm_insert pid
                    \<lparr>control_tx = send_tx, data_tx = None, control_cancel = cancel_token,
                     data_cancel = None, conn_info = info\<rparr> (tm_connections tm1)\<rparr>;
            tm3 = spawn [ControlWrite send_tx cancel_token, ControlRead pid cancel_token] tm2 in
        (Inr (), if as_str (tm_local_peer_id tm) < as_str pid then spawn [OpenData pid addr] tm3 else tm3))"

text \<open>
  What the control read task does once its loop has ended: \<open>shut\<close> is the answer of the shutdown
  token, \<open>show_addr\<close> the textual form of an address.
\<close>

definition control_read_cleanup ::
  "(SocketAddr \<Rightarrow> string) \<Rightarrow> bool \<Rightarrow> PeerId \<Rightarrow> TransportManager \<Rightarrow> TransportManager" where
  "control_read_cleanup show_addr shut pid tm =
     (case hm_get (tm_connections tm) pid of
        None \<Rightarrow> tm
      | Some conn \<Rightarrow>
          let tm1 = cancel_opt (data_cancel conn) (cancel (control_cancel conn) tm);
              reconnect = (pi_should_reconnect (conn_info conn) \<and> \<not> shut \<and> auto_reconnect_enabled tm1);
              tm2 = tm1\<lparr>tm_connections := hm_remove pid (tm_connections tm1)\<rparr> in
          if reconnect then
            spawn [Reconnect pid (show_addr (pi_addr (conn_info conn)))]
              (tm2\<lparr>tm_reconnect_events := tm_reconnect_events tm2 @ [(pid, 0)]\<rparr>)
          else tm2)"

definition register_data_channel :: "PeerId \<Rightarrow> TransportManager \<Rightarrow> TransportManager" where
  "register_data_channel pid tm =
     (let send_tx = tm_next tm; cancel_token = Suc (tm_next tm);
          tm1 = tm\<lparr>tm_next := Suc (Suc (tm_next tm))\<rparr> in
      case hm_get (tm_connections tm1) pid of
        None \<Rightarrow> tm1
      | Some conn \<Rightarrow>
          let tm2 = cancel_opt (data_cancel conn) tm1;
              tm3 = tm2\<lparr>tm_connections := hm_modify pid
                  (\<lambda>c. c\<lparr>data_tx := Some send_tx, data_cancel := Some cancel_token\<rparr>) (tm_connections tm2)\<rparr> in
          spawn [DataWrite send_tx cancel_token, DataRead pid cancel_token] tm3)"

text \<open>
  What the data read task does once its loop has ended; \<open>cancelled\<close> is what
  \<^verbatim>\<open>cleanup_token.is_cancelled()\<close> answered before the lock was taken.
\<close>

definition data_read_cleanup :: "bool \<Rightarrow> PeerId \<Rightarrow> TransportManager \<Rightarrow> TransportManager" where
  "data_read_cleanup cancelled pid tm =
     (if \<not> cancelled then
        tm\<lparr>tm_connections := hm_modify pid (\<lambda>c. c\<lparr>data_tx := None, data_cancel := None\<rparr>) (tm_connections tm)\<rparr>
      else tm)"

definition channel_for :: "RawPacket \<Rightarrow> PeerConnection \<Rightarrow> nat" where
  "channel_for p conn =
     (if is_internal p then control_tx conn
      else case data_tx conn of Some d \<Rightarrow> d | None \<Rightarrow> control_tx conn)"

definition try_send_error :: "try_send_result \<Rightarrow> NetworkError option" where
  "try_send_error r =
     (case r of Sent \<Rightarrow> None | Full \<Rightarrow> Some SendQueueFull | Closed \<Rightarrow> Some (ConnectionFailed ''send channel closed''))"

definition try_send :: "send_env \<Rightarrow> nat \<Rightarrow> RawPacket \<Rightarrow> TransportManager \<Rightarrow> NetworkError option \<times> TransportManager" where
  "try_send out tx p tm =
     (case try_send_error (out tx p) of
        None \<Rightarrow> (None, tm\<lparr>tm_sent := tm_sent tm @ [(tx, p)]\<rparr>)
      | Some e \<Rightarrow> (Some e, tm))"

definition send_to_peer ::
  "send_env \<Rightarrow> PeerId \<Rightarrow> RawPacket \<Rightarrow> TransportManager \<Rightarrow> (NetworkError + unit) \<times> TransportManager" where
  "send_to_peer out pid p tm =
     (case hm_get (tm_connections tm) pid of
        None \<Rightarrow> (Inl (PeerNotFound (as_str pid)), tm)
      | Some conn \<Rightarrow>
          (case try_send out (channel_for p conn) p tm of
             (None, tm1) \<Rightarrow> (Inr (), tm1)
           | (Some e, tm1) \<Rightarrow> (Inl e, tm1)))"

definition broadcast_targets :: "RawPacket \<Rightarrow> PeerId list option \<Rightarrow> TransportManager \<Rightarrow> (PeerId \<times> nat) list" where
  "broadcast_targets p exclude tm =
     map (\<lambda>(pid, conn). (pid, channel_for p conn))
       (filter (\<lambda>(pid, conn). pi_status (conn_info conn) = Connected
            \<and> \<not> (case exclude of None \<Rightarrow> False | Some excl \<Rightarrow> pid \<in> set excl))
         (tm_connections tm))"

fun send_all ::
  "send_env \<Rightarrow> RawPacket \<Rightarrow> (PeerId \<times> nat) list \<Rightarrow> TransportManager \<Rightarrow> (PeerId \<times> NetworkError) list \<times> TransportManager" where
  "send_all out p [] tm = ([], tm)"
| "send_all out p ((pid, tx) # ts) tm =
     (case try_send out tx p tm of (r, tm1) \<Rightarrow>
      case send_all out p ts tm1 of (errs, tm2) \<Rightarrow>
        (case r of None \<Rightarrow> (errs, tm2) | Some e \<Rightarrow> ((pid, e) # errs, tm2)))"

definition broadcast ::
  "send_env \<Rightarrow> RawPacket \<Rightarrow> PeerId list option \<Rightarrow> TransportManager \<Rightarrow> (PeerId \<times> NetworkError) list \<times> TransportManager" where
  "broadcast out p exclude tm = send_all out p (broadcast_targets p exclude tm) tm"

definition disconnect_peer ::
  "ext \<Rightarrow> send_env \<Rightarrow> PeerId \<Rightarrow> TransportManager \<Rightarrow> (NetworkError + unit) \<times> TransportManager" where
  "disconnect_peer x out pid tm =
     (case encode_internal x (PeerLeave (as_str (tm_local_peer_id tm))) (cfg_max_message_size (tm_config tm)) of
        Inl e \<Rightarrow> (Inl e, tm)
      | Inr leave \<Rightarrow>
          let tm1 = snd (send_to_peer out pid leave tm);
              tm2 = (case hm_get (tm_connections tm1) pid of
                       None \<Rightarrow> tm1
                     | Some conn \<Rightarrow> cancel_opt (data_cancel conn) (cancel (control_cancel conn) tm1)) in
          (Inr (), tm2\<lparr>tm_connections := hm_remove pid (tm_connections tm2)\<rparr>))"

definition broadcast_peer_leave :: "ext \<Rightarrow> send_env \<Rightarrow> TransportManager \<Rightarrow> TransportManager" where
  "broadcast_peer_leave x out tm =
     (case encode_internal x (PeerLeave (as_str (tm_local_peer_id tm))) (cfg_max_message_size (tm_config tm)) of
        Inl e \<Rightarrow> tm
      | Inr p \<Rightarrow> snd (broadcast out p None tm))"

text \<open>
  \<^verbatim>\<open>drain_send_queues\<close> polls every 10 ms until every queue is empty or the deadline, at most a second
  away, has passed. Each element of the list is one poll: whether each sender's queue is empty, the clock,
  and the table at that moment. The result is the number of polls made, or \<open>None\<close> when the list ends first.
\<close>

definition all_queues_empty :: "(nat \<Rightarrow> bool) \<Rightarrow> TransportManager \<Rightarrow> bool" where
  "all_queues_empty drained tm \<longleftrightarrow>
     (\<forall>(_, c) \<in> set (tm_connections tm). drained (control_tx c)
        \<and> (case data_tx c of None \<Rightarrow> True | Some d \<Rightarrow> drained d))"

definition drain_deadline :: "instant \<Rightarrow> nat \<Rightarrow> instant" where
  "drain_deadline start timeout = start + min timeout 1000000000"

fun drain_send_queues :: "instant \<Rightarrow> ((nat \<Rightarrow> bool) \<times> instant \<times> TransportManager) list \<Rightarrow> nat option" where
  "drain_send_queues deadline [] = None"
| "drain_send_queues deadline ((drained, now, tm) # polls) =
     (if all_queues_empty drained tm \<or> now \<ge> deadline then Some 1
      else map_option Suc (drain_send_queues deadline polls))"

fun cancel_all :: "PeerConnection list \<Rightarrow> TransportManager \<Rightarrow> TransportManager" where
  "cancel_all [] tm = tm"
| "cancel_all (c # cs) tm = cancel_all cs (cancel_opt (data_cancel c) (cancel (control_cancel c) tm))"

definition transport_shutdown :: "TransportManager \<Rightarrow> TransportManager" where
  "transport_shutdown tm = (cancel_all (map snd (tm_connections tm)) tm)\<lparr>tm_connections := []\<rparr>"

definition get_peer_list_for_sync :: "(SocketAddr \<Rightarrow> string) \<Rightarrow> TransportManager \<Rightarrow> (string \<times> string) list" where
  "get_peer_list_for_sync show_addr tm =
     map (\<lambda>c. (as_str (pi_peer_id (conn_info c)), show_addr (pi_addr (conn_info c))))
       (filter (\<lambda>c. pi_status (conn_info c) = Connected) (map snd (tm_connections tm)))"

definition get_connected_peer_ids :: "TransportManager \<Rightarrow> PeerId list" where
  "get_connected_peer_ids tm = map fst (filter (\<lambda>(_, c). pi_status (conn_info c) = Connected) (tm_connections tm))"

definition tm_has_peer :: "TransportManager \<Rightarrow> PeerId \<Rightarrow> bool" where
  "tm_has_peer tm pid = hm_contains (tm_connections tm) pid"

definition modify_info :: "PeerId \<Rightarrow> (PeerInfo \<Rightarrow> PeerInfo) \<Rightarrow> TransportManager \<Rightarrow> TransportManager" where
  "modify_info pid f tm =
     tm\<lparr>tm_connections := hm_modify pid (\<lambda>c. c\<lparr>conn_info := f (conn_info c)\<rparr>) (tm_connections tm)\<rparr>"

definition set_should_reconnect :: "PeerId \<Rightarrow> bool \<Rightarrow> TransportManager \<Rightarrow> TransportManager" where
  "set_should_reconnect pid b = modify_info pid (\<lambda>i. i\<lparr>pi_should_reconnect := b\<rparr>)"

definition set_auto_reconnect :: "bool \<Rightarrow> TransportManager \<Rightarrow> TransportManager" where
  "set_auto_reconnect b tm = tm\<lparr>auto_reconnect_enabled := b\<rparr>"

definition is_auto_reconnect_enabled :: "TransportManager \<Rightarrow> bool" where
  "is_auto_reconnect_enabled tm = auto_reconnect_enabled tm"

definition update_peer_status :: "PeerId \<Rightarrow> PeerStatus \<Rightarrow> TransportManager \<Rightarrow> TransportManager" where
  "update_peer_status pid s = modify_info pid (\<lambda>i. i\<lparr>pi_status := s\<rparr>)"

definition tm_update_last_seen :: "instant \<Rightarrow> PeerId \<Rightarrow> TransportManager \<Rightarrow> TransportManager" where
  "tm_update_last_seen now pid = modify_info pid (\<lambda>i. i\<lparr>pi_last_seen := now\<rparr>)"

definition update_rtt :: "instant \<Rightarrow> PeerId \<Rightarrow> u32 \<Rightarrow> TransportManager \<Rightarrow> TransportManager" where
  "update_rtt now pid rtt = modify_info pid (\<lambda>i. i\<lparr>pi_rtt_ms := Some rtt, pi_last_seen := now\<rparr>)"

definition tm_get_peer_rtt :: "TransportManager \<Rightarrow> PeerId \<Rightarrow> u32 option" where
  "tm_get_peer_rtt tm pid = Option.bind (hm_get (tm_connections tm) pid) (\<lambda>c. pi_rtt_ms (conn_info c))"

definition tm_get_peer_status :: "TransportManager \<Rightarrow> PeerId \<Rightarrow> PeerStatus option" where
  "tm_get_peer_status tm pid = map_option (\<lambda>c. pi_status (conn_info c)) (hm_get (tm_connections tm) pid)"

definition get_peer_addr :: "TransportManager \<Rightarrow> PeerId \<Rightarrow> SocketAddr option" where
  "get_peer_addr tm pid = map_option (\<lambda>c. pi_addr (conn_info c)) (hm_get (tm_connections tm) pid)"

section \<open>The loops of the tasks\<close>

text \<open>
  The write task takes packets from its queue until it is cancelled, the queue is closed or a write fails
  or times out. Each event is what the task's next \<^verbatim>\<open>select!\<close> yields.
\<close>

datatype write_outcome = Written | WriteError | WriteTimeout

datatype write_event = WCancelled | WRecv RawPacket write_outcome | WQueueClosed

datatype task_exit = ExitCancelled | ExitClosed | ExitFailed | Running

fun write_task :: "write_event list \<Rightarrow> RawPacket list \<times> task_exit" where
  "write_task [] = ([], Running)"
| "write_task (WCancelled # es) = ([], ExitCancelled)"
| "write_task (WQueueClosed # es) = ([], ExitClosed)"
| "write_task (WRecv p Written # es) = (case write_task es of (ps, x) \<Rightarrow> (p # ps, x))"
| "write_task (WRecv p WriteError # es) = ([], ExitFailed)"
| "write_task (WRecv p WriteTimeout # es) = ([], ExitFailed)"

text \<open>
  The read task of the control channel hands every frame to the incoming queue and waits for room; handing over fails only when
  the receiver is gone. The read task of the data channel gives up when there is no room for longer than the write timeout.
\<close>

datatype read_event = RCancelled | RFrame RawPacket bool | RError | REof

fun read_task :: "PeerId \<Rightarrow> read_event list \<Rightarrow> (PeerId \<times> RawPacket) list \<times> task_exit" where
  "read_task pid [] = ([], Running)"
| "read_task pid (RCancelled # es) = ([], ExitCancelled)"
| "read_task pid (RFrame p ok # es) =
     (if ok then (case read_task pid es of (ps, x) \<Rightarrow> ((pid, p) # ps, x)) else ([], ExitFailed))"
| "read_task pid (RError # es) = ([], ExitFailed)"
| "read_task pid (REof # es) = ([], ExitClosed)"

datatype offer_outcome = Offered | ReceiverGone | OfferTimeout

datatype data_read_event = DCancelled | DFrame RawPacket offer_outcome | DError | DEof

fun data_read_task :: "PeerId \<Rightarrow> data_read_event list \<Rightarrow> (PeerId \<times> RawPacket) list \<times> task_exit" where
  "data_read_task pid [] = ([], Running)"
| "data_read_task pid (DCancelled # es) = ([], ExitCancelled)"
| "data_read_task pid (DFrame p Offered # es) = (case data_read_task pid es of (ps, x) \<Rightarrow> ((pid, p) # ps, x))"
| "data_read_task pid (DFrame p ReceiverGone # es) = ([], ExitFailed)"
| "data_read_task pid (DFrame p OfferTimeout # es) = ([], ExitFailed)"
| "data_read_task pid (DError # es) = ([], ExitFailed)"
| "data_read_task pid (DEof # es) = ([], ExitClosed)"

text \<open>The accept loop starts one handler for each accepted socket until the shutdown token fires.\<close>

datatype accept_event = AcceptCancelled | Accepted SocketAddr | AcceptError

fun accept_loop :: "accept_event list \<Rightarrow> SocketAddr list" where
  "accept_loop [] = []"
| "accept_loop (AcceptCancelled # es) = []"
| "accept_loop (Accepted a # es) = a # accept_loop es"
| "accept_loop (AcceptError # es) = accept_loop es"

section \<open>The invariant\<close>

datatype transport_op =
    TRegister instant PeerId SocketAddr
  | TControlEnd "SocketAddr \<Rightarrow> string" bool PeerId
  | TRegisterData PeerId
  | TDataEnd bool PeerId
  | TSend send_env PeerId RawPacket
  | TBroadcast send_env RawPacket "PeerId list option"
  | TDisconnect ext send_env PeerId
  | TLeave ext send_env
  | TShutdown
  | TShouldReconnect PeerId bool
  | TAutoReconnect bool
  | TStatus PeerId PeerStatus
  | TSeen instant PeerId
  | TRtt instant PeerId u32

fun transport_exec :: "transport_op \<Rightarrow> TransportManager \<Rightarrow> TransportManager" where
  "transport_exec (TRegister now p a) tm = snd (register_connection now p a tm)"
| "transport_exec (TControlEnd sh shut p) tm = control_read_cleanup sh shut p tm"
| "transport_exec (TRegisterData p) tm = register_data_channel p tm"
| "transport_exec (TDataEnd b p) tm = data_read_cleanup b p tm"
| "transport_exec (TSend out p pk) tm = snd (send_to_peer out p pk tm)"
| "transport_exec (TBroadcast out pk ex) tm = snd (broadcast out pk ex tm)"
| "transport_exec (TDisconnect x out p) tm = snd (disconnect_peer x out p tm)"
| "transport_exec (TLeave x out) tm = broadcast_peer_leave x out tm"
| "transport_exec TShutdown tm = transport_shutdown tm"
| "transport_exec (TShouldReconnect p b) tm = set_should_reconnect p b tm"
| "transport_exec (TAutoReconnect b) tm = set_auto_reconnect b tm"
| "transport_exec (TStatus p s) tm = update_peer_status p s tm"
| "transport_exec (TSeen now p) tm = tm_update_last_seen now p tm"
| "transport_exec (TRtt now p r) tm = update_rtt now p r tm"

text \<open>
  Which handles a connection owns, and what the table, the cancelled tokens, the handle
  counter and the started tasks have to do with each other: entries are filed under their own identifier, the two halves
  of a data channel come and go together, no two connections share a sender or a token, the tokens
  of a registered connection have not been cancelled, and a control task whose
  token has not been cancelled serves a registered connection.
\<close>

definition tokens :: "PeerConnection \<Rightarrow> nat set" where
  "tokens c = insert (control_cancel c) (set_option (data_cancel c))"

definition senders :: "PeerConnection \<Rightarrow> nat set" where
  "senders c = insert (control_tx c) (set_option (data_tx c))"

definition conn_ok :: "nat set \<Rightarrow> nat \<Rightarrow> PeerId \<Rightarrow> PeerConnection \<Rightarrow> bool" where
  "conn_ok C n p c \<longleftrightarrow>
     pi_peer_id (conn_info c) = p \<and> (data_tx c = None \<longleftrightarrow> data_cancel c = None)
   \<and> tokens c \<union> senders c \<subseteq> {..<n} \<and> tokens c \<inter> C = {}
   \<and> data_cancel c \<noteq> Some (control_cancel c)"

definition apart :: "PeerConnection \<Rightarrow> PeerConnection \<Rightarrow> bool" where
  "apart c d \<longleftrightarrow> tokens c \<inter> tokens d = {} \<and> senders c \<inter> senders d = {}"

definition served :: "(PeerId \<rightharpoonup> PeerConnection) \<Rightarrow> nat set \<Rightarrow> spawned_task set \<Rightarrow> bool" where
  "served m C S \<longleftrightarrow>
     (\<forall>p t. ControlRead p t \<in> S \<longrightarrow> t \<in> C \<or> (\<exists>c. m p = Some c \<and> control_cancel c = t))"

definition conns_inv :: "(PeerId \<rightharpoonup> PeerConnection) \<Rightarrow> nat set \<Rightarrow> nat \<Rightarrow> spawned_task set \<Rightarrow> bool" where
  "conns_inv m C n S \<longleftrightarrow>
     (\<forall>p c. m p = Some c \<longrightarrow> conn_ok C n p c)
   \<and> (\<forall>p q c d. m p = Some c \<longrightarrow> m q = Some d \<longrightarrow> p \<noteq> q \<longrightarrow> apart c d)
   \<and> C \<subseteq> {..<n} \<and> served m C S"

definition transport_inv :: "TransportManager \<Rightarrow> bool" where
  "transport_inv tm \<longleftrightarrow> hm_wf (tm_connections tm) \<and>
     conns_inv (hm_get (tm_connections tm)) (set (tm_cancelled tm)) (tm_next tm) (set (tm_spawned tm))"

section \<open>Lemmas\<close>

lemma conn_ok_mono:
  "conn_ok C n p c \<Longrightarrow> n \<le> n' \<Longrightarrow> C' \<inter> tokens c \<subseteq> C \<Longrightarrow> conn_ok C' n' p c"
  unfolding conn_ok_def by (auto dest: subsetD)

lemma apart_sym: "apart c d \<Longrightarrow> apart d c"
  by (auto simp: apart_def)

lemma apart_fresh: "tokens c \<union> senders c \<subseteq> {..<n} \<Longrightarrow> tokens d \<union> senders d \<subseteq> {n, Suc n} \<Longrightarrow> apart c d"
  unfolding apart_def by fastforce

lemma conns_invD:
  assumes "conns_inv m C n S"
  shows "m p = Some c \<Longrightarrow> conn_ok C n p c"
    and "m p = Some c \<Longrightarrow> m q = Some d \<Longrightarrow> p \<noteq> q \<Longrightarrow> apart c d"
    and "C \<subseteq> {..<n}" and "served m C S"
  using assms unfolding conns_inv_def by blast+

lemma conns_invI:
  assumes "\<And>p c. m p = Some c \<Longrightarrow> conn_ok C n p c"
    and "\<And>p q c d. m p = Some c \<Longrightarrow> m q = Some d \<Longrightarrow> p \<noteq> q \<Longrightarrow> apart c d"
    and "C \<subseteq> {..<n}" and "served m C S"
  shows "conns_inv m C n S"
  using assms unfolding conns_inv_def by blast

lemma servedD:
  "served m C S \<Longrightarrow> ControlRead p t \<in> S \<Longrightarrow> t \<in> C \<or> (\<exists>c. m p = Some c \<and> control_cancel c = t)"
  unfolding served_def by blast

lemma servedI:
  "(\<And>p t. ControlRead p t \<in> S \<Longrightarrow> t \<in> C \<or> (\<exists>c. m p = Some c \<and> control_cancel c = t)) \<Longrightarrow> served m C S"
  unfolding served_def by blast

lemma conns_inv_fresh:
  assumes "conns_inv m C n S" "n \<le> n'" "\<And>p t. ControlRead p t \<in> S' \<Longrightarrow> ControlRead p t \<in> S"
  shows "conns_inv m C n' S'"
proof (rule conns_invI)
  show "conn_ok C n' p c" if "m p = Some c" for p c
    using conns_invD(1) [OF assms(1) that] assms(2) by (rule conn_ok_mono) blast
  show "C \<subseteq> {..<n'}" using conns_invD(3) [OF assms(1)] assms(2) by (meson lessThan_subset_iff order_trans)
  show "served m C S'" by (rule servedI) (rule servedD [OF conns_invD(4) [OF assms(1)] assms(3)])
qed (rule conns_invD(2) [OF assms(1)])

text \<open>The table after one entry is replaced: what the entry itself and its neighbours owe.\<close>

lemma conns_inv_put:
  assumes inv: "conns_inv m C n S" and new: "conn_ok C' n' p c" and "n \<le> n'"
    and near: "\<And>q d. m q = Some d \<Longrightarrow> q \<noteq> p \<Longrightarrow> apart d c \<and> C' \<inter> tokens d \<subseteq> C"
    and "C \<subseteq> C'" "C' \<subseteq> {..<n'}"
    and own: "\<And>t. ControlRead p t \<in> S' \<Longrightarrow> t \<in> C' \<or> t = control_cancel c"
    and rest: "\<And>q t. ControlRead q t \<in> S' \<Longrightarrow> q \<noteq> p \<Longrightarrow> ControlRead q t \<in> S"
  shows "conns_inv (m(p \<mapsto> c)) C' n' S'"
proof (rule conns_invI)
  show "conn_ok C' n' q d" if "(m(p \<mapsto> c)) q = Some d" for q d
  proof (cases "q = p")
    case False
    with that have "m q = Some d" by simp
    with conns_invD(1) [OF inv] near False assms(3) show ?thesis by (blast intro: conn_ok_mono)
  qed (use new that in simp)
  show "apart d d'" if "(m(p \<mapsto> c)) q = Some d" "(m(p \<mapsto> c)) q' = Some d'" "q \<noteq> q'" for q q' d d'
  proof (cases "q = p \<or> q' = p")
    case True
    with that near show ?thesis by (metis apart_sym fun_upd_apply option.inject)
  qed (use that conns_invD(2) [OF inv] in auto)
  show "served (m(p \<mapsto> c)) C' S'"
  proof (rule servedI)
    fix q t assume t: "ControlRead q t \<in> S'"
    show "t \<in> C' \<or> (\<exists>d. (m(p \<mapsto> c)) q = Some d \<and> control_cancel d = t)"
      using own [of t] t rest [OF t] servedD [OF conns_invD(4) [OF inv], of q t] assms(5) by (cases "q = p") auto
  qed
qed (rule assms(6))

lemma conns_inv_insert:
  assumes inv: "conns_inv m C n S" and "m p = None" "pi_peer_id i = p"
    and tasks: "\<And>q t. ControlRead q t \<in> S' \<Longrightarrow> ControlRead q t \<in> S \<or> q = p \<and> t = Suc n"
  shows "conns_inv (m(p \<mapsto> \<lparr>control_tx = n, data_tx = None, control_cancel = Suc n, data_cancel = None, conn_info = i\<rparr>))
           C (Suc (Suc n)) S'"
proof (rule conns_inv_put [OF inv])
  let ?c = "\<lparr>control_tx = n, data_tx = None, control_cancel = Suc n, data_cancel = None, conn_info = i\<rparr>"
  note C = conns_invD(3) [OF inv]
  then show "C \<subseteq> {..<Suc (Suc n)}" by fastforce
  have "Suc n \<notin> C" using C by auto
  then show "conn_ok C (Suc (Suc n)) p ?c"
    using assms(3) by (auto simp: conn_ok_def tokens_def senders_def)
  show "apart d ?c \<and> C \<inter> tokens d \<subseteq> C" if "m q = Some d" for q d
    using conns_invD(1) [OF inv that] apart_fresh [of d n ?c] by (simp add: conn_ok_def tokens_def senders_def)
  show "t \<in> C \<or> t = control_cancel ?c" if "ControlRead p t \<in> S'" for t
    using assms(2) tasks [OF that] servedD [OF conns_invD(4) [OF inv], of p t] by auto
qed (use tasks in auto)

lemma conns_inv_remove:
  assumes inv: "conns_inv m C n S" and c: "m p = Some c"
  shows "conns_inv (m(p := None)) (C \<union> tokens c) n S"
proof (rule conns_invI)
  show "conn_ok (C \<union> tokens c) n q d" if "(m(p := None)) q = Some d" for q d
  proof -
    from that have "m q = Some d" "p \<noteq> q" by (auto split: if_splits)
    then have "conn_ok C n q d" "apart c d" using conns_invD(1,2) [OF inv] c by blast+
    then show ?thesis unfolding apart_def by (intro conn_ok_mono [of C n q d n "C \<union> tokens c"]) auto
  qed
  show "C \<union> tokens c \<subseteq> {..<n}"
    using conns_invD(3) [OF inv] conns_invD(1) [OF inv c] by (simp add: conn_ok_def)
  show "served (m(p := None)) (C \<union> tokens c) S"
  proof (rule servedI)
    fix q t assume "ControlRead q t \<in> S"
    from servedD [OF conns_invD(4) [OF inv] this] c
    show "t \<in> C \<union> tokens c \<or> (\<exists>d. (m(p := None)) q = Some d \<and> control_cancel d = t)"
      by (cases "q = p") (auto simp: tokens_def)
  qed
qed (use conns_invD(2) [OF inv] in \<open>auto split: if_splits\<close>)

lemma conns_inv_shrink:
  assumes inv: "conns_inv m C n S" and c: "m p = Some c" and "pi_peer_id (conn_info c') = p"
    and "control_cancel c' = control_cancel c" "control_tx c' = control_tx c"
    and "data_tx c' = data_tx c \<and> data_cancel c' = data_cancel c \<or> data_tx c' = None \<and> data_cancel c' = None"
  shows "conns_inv (m(p \<mapsto> c')) C n S"
proof (rule conns_inv_put [OF inv])
  have sub: "tokens c' \<subseteq> tokens c" "senders c' \<subseteq> senders c"
    using assms(4-6) by (auto simp: tokens_def senders_def)
  have "conn_ok C n p c" by (rule conns_invD(1) [OF inv c])
  then show "conn_ok C n p c'" using assms(3,4,6) sub unfolding conn_ok_def by auto
  show "apart d c' \<and> C \<inter> tokens d \<subseteq> C" if "m q = Some d" "q \<noteq> p" for q d
    using conns_invD(2) [OF inv that(1) c that(2)] sub unfolding apart_def by blast
  show "t \<in> C \<or> t = control_cancel c'" if "ControlRead p t \<in> S" for t
    using servedD [OF conns_invD(4) [OF inv] that] c assms(4) by auto
qed (use conns_invD(3) [OF inv] in auto)

text \<open>A new data channel: the old one's token is cancelled, the new handles are fresh.\<close>

lemma conns_inv_data:
  assumes inv: "conns_inv m C n S" and c: "m p = Some c"
    and tasks: "\<And>q t. ControlRead q t \<in> S' \<Longrightarrow> ControlRead q t \<in> S"
  shows "conns_inv (m(p \<mapsto> c\<lparr>data_tx := Some n, data_cancel := Some (Suc n)\<rparr>)) (C \<union> set_option (data_cancel c))
           (Suc (Suc n)) S'"
proof (rule conns_inv_put [OF inv])
  let ?c = "c\<lparr>data_tx := Some n, data_cancel := Some (Suc n)\<rparr>" and ?C = "C \<union> set_option (data_cancel c)"
  have ok: "conn_ok C n p c" by (rule conns_invD(1) [OF inv c])
  have hs: "tokens ?c = {control_cancel c, Suc n}" "senders ?c = {control_tx c, n}"
    by (auto simp: tokens_def senders_def)
  have bound: "control_cancel c < n" "control_tx c < n" "set_option (data_cancel c) \<subseteq> {..<n}"
    using ok by (auto simp: conn_ok_def tokens_def senders_def)
  show C: "?C \<subseteq> {..<Suc (Suc n)}" using conns_invD(3) [OF inv] bound(3) by fastforce
  have "Suc n \<notin> ?C" using conns_invD(3) [OF inv] bound(3) by fastforce
  moreover have "control_cancel c \<notin> ?C" using ok by (auto simp: conn_ok_def tokens_def)
  ultimately show "conn_ok ?C (Suc (Suc n)) p ?c"
    using ok bound unfolding conn_ok_def hs by auto
  show "apart d ?c \<and> ?C \<inter> tokens d \<subseteq> C" if "m q = Some d" "q \<noteq> p" for q d
  proof -
    have "apart d c" "conn_ok C n q d" using conns_invD(1,2) [OF inv] c that by blast+
    then show ?thesis unfolding apart_def conn_ok_def hs by (auto simp: tokens_def senders_def)
  qed
  show "t \<in> ?C \<or> t = control_cancel ?c" if "ControlRead p t \<in> S'" for t
    using servedD [OF conns_invD(4) [OF inv] tasks [OF that]] c by auto
qed (use tasks in auto)

lemma cancel_frame [simp]:
  "tm_connections (cancel t tm) = tm_connections tm" "tm_next (cancel t tm) = tm_next tm"
  "tm_spawned (cancel t tm) = tm_spawned tm" "tm_sent (cancel t tm) = tm_sent tm"
  "auto_reconnect_enabled (cancel t tm) = auto_reconnect_enabled tm"
  "tm_reconnect_events (cancel t tm) = tm_reconnect_events tm"
  "tm_config (cancel t tm) = tm_config tm" "tm_local_peer_id (cancel t tm) = tm_local_peer_id tm"
  "set (tm_cancelled (cancel t tm)) = insert t (set (tm_cancelled tm))"
  by (simp_all add: cancel_def)

lemma cancel_opt_frame [simp]:
  "tm_connections (cancel_opt d tm) = tm_connections tm" "tm_next (cancel_opt d tm) = tm_next tm"
  "tm_spawned (cancel_opt d tm) = tm_spawned tm" "tm_sent (cancel_opt d tm) = tm_sent tm"
  "auto_reconnect_enabled (cancel_opt d tm) = auto_reconnect_enabled tm"
  "tm_reconnect_events (cancel_opt d tm) = tm_reconnect_events tm"
  "tm_config (cancel_opt d tm) = tm_config tm" "tm_local_peer_id (cancel_opt d tm) = tm_local_peer_id tm"
  "set (tm_cancelled (cancel_opt d tm)) = set_option d \<union> set (tm_cancelled tm)"
  by (simp_all add: cancel_opt_def split: option.split)

lemma spawn_frame [simp]:
  "tm_connections (spawn ts tm) = tm_connections tm" "tm_next (spawn ts tm) = tm_next tm"
  "tm_cancelled (spawn ts tm) = tm_cancelled tm" "tm_spawned (spawn ts tm) = tm_spawned tm @ ts"
  "auto_reconnect_enabled (spawn ts tm) = auto_reconnect_enabled tm"
  "tm_reconnect_events (spawn ts tm) = tm_reconnect_events tm" "tm_sent (spawn ts tm) = tm_sent tm"
  by (simp_all add: spawn_def)

text \<open>Sending only appends to the log of accepted packets.\<close>

lemma try_send_eq:
  "try_send out tx p tm = (try_send_error (out tx p),
     tm\<lparr>tm_sent := tm_sent tm @ (if out tx p = Sent then [(tx, p)] else [])\<rparr>)"
  by (cases "out tx p") (simp_all add: try_send_def try_send_error_def)

lemma send_to_peer_eq:
  "send_to_peer out pid p tm =
     (case hm_get (tm_connections tm) pid of
        None \<Rightarrow> (Inl (PeerNotFound (as_str pid)), tm)
      | Some conn \<Rightarrow>
          (case try_send_error (out (channel_for p conn) p) of None \<Rightarrow> Inr () | Some e \<Rightarrow> Inl e,
           tm\<lparr>tm_sent := tm_sent tm @ (if out (channel_for p conn) p = Sent then [(channel_for p conn, p)] else [])\<rparr>))"
  by (simp add: send_to_peer_def try_send_eq split: option.split)

lemma send_all_eq:
  "send_all out p ts tm =
     (map (\<lambda>(pid, tx). (pid, the (try_send_error (out tx p)))) (filter (\<lambda>(_, tx). out tx p \<noteq> Sent) ts),
      tm\<lparr>tm_sent := tm_sent tm @ map (\<lambda>(_, tx). (tx, p)) (filter (\<lambda>(_, tx). out tx p = Sent) ts)\<rparr>)"
proof (induction ts arbitrary: tm)
  case (Cons t ts)
  obtain pid tx where t: "t = (pid, tx)" by fastforce
  show ?case
    by (cases "out tx p") (simp_all add: t try_send_eq Cons.IH try_send_error_def)
qed simp

lemmas broadcast_eq = broadcast_def send_all_eq

lemma transport_inv_conn:
  "transport_inv tm \<Longrightarrow> hm_get (tm_connections tm) p = Some c \<Longrightarrow>
     conn_ok (set (tm_cancelled tm)) (tm_next tm) p c"
  unfolding transport_inv_def by (blast dest: conns_invD(1))

lemma transport_inv_send: "transport_inv (tm\<lparr>tm_sent := l\<rparr>) \<longleftrightarrow> transport_inv tm"
  by (simp add: transport_inv_def)

lemma transport_inv_register: "transport_inv tm \<Longrightarrow> transport_inv (snd (register_connection now p a tm))"
proof -
  assume inv: "transport_inv tm"
  then have ci: "conns_inv (hm_get (tm_connections tm)) (set (tm_cancelled tm)) (tm_next tm) (set (tm_spawned tm))"
    and wf: "hm_wf (tm_connections tm)" by (simp_all add: transport_inv_def)
  show ?thesis
  proof (cases "hm_get (tm_connections tm) p")
    case None
    let ?tm = "snd (register_connection now p a tm)"
    have "conns_inv (hm_get (tm_connections ?tm)) (set (tm_cancelled tm)) (Suc (Suc (tm_next tm))) (set (tm_spawned ?tm))"
      unfolding register_connection_def Let_def using None
      by (simp add: hm_lookup, intro conns_inv_insert [OF ci None] conjI impI) auto
    moreover have "tm_next ?tm = Suc (Suc (tm_next tm))" "tm_cancelled ?tm = tm_cancelled tm" "hm_wf (tm_connections ?tm)"
      using None wf by (simp_all add: register_connection_def Let_def hm_lookup hm.wf_put)
    ultimately show ?thesis by (simp add: transport_inv_def)
  next
    case (Some c)
    with conns_inv_fresh [OF ci, of "Suc (Suc (tm_next tm))"] wf show ?thesis
      by (simp add: register_connection_def Let_def transport_inv_def hm_lookup)
  qed
qed

lemma transport_inv_drop:
  assumes "transport_inv tm" "hm_get (tm_connections tm) p = Some c"
    and "tm_connections tm' = hm_remove p (tm_connections tm)" "tm_next tm' = tm_next tm"
    and "set (tm_cancelled tm') = set (tm_cancelled tm) \<union> tokens c"
    and "\<And>q t. ControlRead q t \<in> set (tm_spawned tm') \<Longrightarrow> ControlRead q t \<in> set (tm_spawned tm)"
  shows "transport_inv tm'"
proof -
  have "conns_inv ((hm_get (tm_connections tm))(p := None)) (set (tm_cancelled tm) \<union> tokens c) (tm_next tm)
      (set (tm_spawned tm))"
    using assms(1,2) by (simp add: transport_inv_def conns_inv_remove)
  from conns_inv_fresh [OF this order_refl assms(6)] assms show ?thesis
    by (simp add: transport_inv_def hm_lookup hm.wf_del)
qed

lemma transport_inv_control_end: "transport_inv tm \<Longrightarrow> transport_inv (control_read_cleanup sh shut p tm)"
proof (cases "hm_get (tm_connections tm) p")
  case (Some c)
  assume "transport_inv tm"
  then show ?thesis
    by (rule transport_inv_drop [OF _ Some])
       (simp_all add: control_read_cleanup_def Let_def tokens_def Some Un_ac split: if_splits)
qed (simp add: control_read_cleanup_def)

lemma transport_inv_disconnect: "transport_inv tm \<Longrightarrow> transport_inv (snd (disconnect_peer x out p tm))"
proof -
  assume inv: "transport_inv tm"
  show ?thesis
  proof (cases "hm_get (tm_connections tm) p")
    case None
    then show ?thesis
      using inv by (simp add: disconnect_peer_def send_to_peer_eq transport_inv_def hm_lookup fun_upd_idem split: sum.split)
  next
    case (Some c)
    show ?thesis
    proof (cases "encode_internal x (PeerLeave (as_str (tm_local_peer_id tm))) (cfg_max_message_size (tm_config tm))")
      case (Inr leave)
      from inv show ?thesis
        by (rule transport_inv_drop [OF _ Some])
           (simp_all add: disconnect_peer_def send_to_peer_eq Let_def tokens_def Some Inr Un_ac)
    qed (use inv in \<open>simp add: disconnect_peer_def\<close>)
  qed
qed

lemma transport_inv_shrink:
  assumes inv: "transport_inv tm"
    and f: "\<And>c. hm_get (tm_connections tm) p = Some c \<Longrightarrow> pi_peer_id (conn_info (f c)) = pi_peer_id (conn_info c)
      \<and> control_cancel (f c) = control_cancel c \<and> control_tx (f c) = control_tx c
      \<and> (data_tx (f c) = data_tx c \<and> data_cancel (f c) = data_cancel c \<or> data_tx (f c) = None \<and> data_cancel (f c) = None)"
  shows "transport_inv (tm\<lparr>tm_connections := hm_modify p f (tm_connections tm)\<rparr>)"
proof (cases "hm_get (tm_connections tm) p")
  case None
  then show ?thesis using inv by (simp add: transport_inv_def hm_lookup hm.wf_adj fun_upd_idem)
next
  case (Some c)
  have "pi_peer_id (conn_info c) = p"
    using transport_inv_conn [OF inv Some] by (simp add: conn_ok_def)
  with inv Some f [OF Some] show ?thesis
    by (simp add: transport_inv_def hm_lookup hm.wf_adj conns_inv_shrink)
qed

lemma transport_inv_info:
  "transport_inv tm \<Longrightarrow> (\<And>i. pi_peer_id (f i) = pi_peer_id i) \<Longrightarrow> transport_inv (modify_info p f tm)"
  unfolding modify_info_def by (rule transport_inv_shrink) auto

lemma transport_inv_data: "transport_inv tm \<Longrightarrow> transport_inv (register_data_channel p tm)"
proof -
  assume inv: "transport_inv tm"
  then have ci: "conns_inv (hm_get (tm_connections tm)) (set (tm_cancelled tm)) (tm_next tm) (set (tm_spawned tm))"
    and wf: "hm_wf (tm_connections tm)" by (simp_all add: transport_inv_def)
  show ?thesis
  proof (cases "hm_get (tm_connections tm) p")
    case None
    with conns_inv_fresh [OF ci, of "Suc (Suc (tm_next tm))"] wf show ?thesis
      by (simp add: register_data_channel_def Let_def transport_inv_def)
  next
    case (Some c)
    let ?tm = "register_data_channel p tm"
    have "conns_inv (hm_get (tm_connections ?tm)) (set (tm_cancelled ?tm)) (tm_next ?tm) (set (tm_spawned ?tm))"
      unfolding register_data_channel_def Let_def using Some
      by (simp add: hm_lookup Un_commute [of "set_option _"]) (rule conns_inv_data [OF ci Some], auto)
    moreover have "hm_wf (tm_connections ?tm)"
      using Some wf by (simp add: register_data_channel_def Let_def hm.wf_adj)
    ultimately show ?thesis by (simp add: transport_inv_def)
  qed
qed

lemma cancel_all_frame [simp]:
  "tm_next (cancel_all cs tm) = tm_next tm" "tm_spawned (cancel_all cs tm) = tm_spawned tm"
  "set (tm_cancelled (cancel_all cs tm)) = set (tm_cancelled tm) \<union> (\<Union>c \<in> set cs. tokens c)"
  by (induction cs arbitrary: tm) (auto simp: tokens_def)

lemma transport_inv_shutdown: "transport_inv tm \<Longrightarrow> transport_inv (transport_shutdown tm)"
proof -
  assume inv: "transport_inv tm"
  then have ci: "conns_inv (hm_get (tm_connections tm)) (set (tm_cancelled tm)) (tm_next tm) (set (tm_spawned tm))"
    and wf: "hm_wf (tm_connections tm)" by (simp_all add: transport_inv_def)
  let ?C = "set (tm_cancelled tm) \<union> (\<Union>c \<in> snd ` set (tm_connections tm). tokens c)"
  have entry: "\<exists>p. hm_get (tm_connections tm) p = Some c" if "c \<in> snd ` set (tm_connections tm)" for c
    using that hm.entries_get [OF wf] by force
  have "?C \<subseteq> {..<tm_next tm}"
    using conns_invD(3) [OF ci] entry transport_inv_conn [OF inv] by (force simp: conn_ok_def)
  moreover have "served (hm_get []) ?C (set (tm_spawned tm))"
  proof (rule servedI)
    fix p t assume "ControlRead p t \<in> set (tm_spawned tm)"
    from servedD [OF conns_invD(4) [OF ci] this]
    show "t \<in> ?C \<or> (\<exists>c. hm_get [] p = Some c \<and> control_cancel c = t)"
      using hm.entries_get [OF wf, of p] by (force simp: tokens_def)
  qed
  ultimately show ?thesis
    by (simp add: transport_shutdown_def transport_inv_def conns_inv_def)
qed

lemma transport_inv_exec: "transport_inv tm \<Longrightarrow> transport_inv (transport_exec op tm)"
  by (cases op)
     (simp_all add: transport_inv_register transport_inv_control_end transport_inv_data transport_inv_disconnect
       transport_inv_shutdown set_should_reconnect_def update_peer_status_def tm_update_last_seen_def update_rtt_def
       transport_inv_info send_to_peer_eq broadcast_eq broadcast_peer_leave_def transport_inv_send
       data_read_cleanup_def transport_inv_shrink set_auto_reconnect_def split: option.split sum.split,
      simp add: transport_inv_def)

interpretation transport_steps: invariant_system transport_exec transport_inv "\<lambda>_ _. True"
  by unfold_locales (simp_all add: transport_inv_exec)

section \<open>Properties\<close>

definition demo_addr :: "u16 \<Rightarrow> SocketAddr" where
  "demo_addr prt = SocketAddr (V4 0x7F000001) prt"

definition demo_transport :: "string \<Rightarrow> TransportManager" where
  "demo_transport name =
     (case transport_new (PeerId name) ''s'' config_default (Inr (demo_addr 4000)) of Inr tm \<Rightarrow> tm)"

lemma transport_inv_new: "transport_new l s cfg bound = Inr tm \<Longrightarrow> transport_inv tm"
  by (auto simp: transport_new_def transport_inv_def conns_inv_def served_def split: sum.splits)

lemma demo_transport_inv: "transport_inv (demo_transport name)"
  by (rule transport_inv_new [of "PeerId name" "''s''" config_default "Inr (demo_addr 4000)"])
     (simp add: demo_transport_def transport_new_def)

lemma transport_inv_fold: "transport_inv tm \<Longrightarrow> transport_inv (fold transport_exec ops tm)"
  by (rule transport_steps.run_keeps) (simp_all add: list.pred_True)

text \<open>
  C13: The connection-table invariant. Whatever sequence of registrations, disconnections, data-channel
  changes, sends, task endings and shutdown runs on a new transport: every peer has one entry under its own identifier; a
  data channel's sender and token come and go together; no two connections share a channel or a token; a registered
  connection's tokens are not cancelled; and every control task whose token is not cancelled still serves
  a registered connection, so no task is left behind by a removal.
\<close>

theorem transport_invariant:
  "case transport_new local_id session config bound of
     Inl e \<Rightarrow> True | Inr tm \<Rightarrow> transport_inv (fold transport_exec ops tm)"
  by (auto split: sum.split intro: transport_inv_fold transport_inv_new)

text \<open>
  Channel selection. A packet for an unknown peer is refused with that peer's name. A control message always takes the control
  channel; a user message takes the data channel when there is one and the control channel otherwise. The packet
  is logged on that channel exactly when the channel accepts it, and a full or closed channel is reported as
  such; nothing else changes.
\<close>

theorem send_to_peer_routes:
  "send_to_peer out pid p tm =
     (case hm_get (tm_connections tm) pid of
        None \<Rightarrow> (Inl (PeerNotFound (as_str pid)), tm)
      | Some conn \<Rightarrow>
          let tx = (if is_internal p \<or> data_tx conn = None then control_tx conn else the (data_tx conn)) in
          (case out tx p of
             Sent \<Rightarrow> (Inr (), tm\<lparr>tm_sent := tm_sent tm @ [(tx, p)]\<rparr>)
           | Full \<Rightarrow> (Inl SendQueueFull, tm)
           | Closed \<Rightarrow> (Inl (ConnectionFailed ''send channel closed''), tm)))"
  by (auto simp: send_to_peer_eq channel_for_def try_send_error_def Let_def split: option.split try_send_result.split)

lemma broadcast_targets_set:
  assumes "hm_wf (tm_connections tm)"
  shows "set (broadcast_targets p ex tm) =
    {(q, channel_for p c) | q c. hm_get (tm_connections tm) q = Some c \<and> pi_status (conn_info c) = Connected
       \<and> q \<notin> set (case ex of None \<Rightarrow> [] | Some l \<Rightarrow> l)}"
  unfolding broadcast_targets_def hm.entries_get [OF assms, symmetric]
  by (force split: option.splits)

lemma channel_for_sender: "channel_for p c \<in> senders c"
  by (simp add: channel_for_def senders_def split: option.split)

lemma broadcast_targets_distinct:
  assumes inv: "transport_inv tm"
  shows "distinct (map fst (broadcast_targets p ex tm)) \<and> distinct (map snd (broadcast_targets p ex tm))"
proof -
  let ?ts = "broadcast_targets p ex tm"
  have wf: "hm_wf (tm_connections tm)" using inv by (simp add: transport_inv_def)
  have fst: "distinct (map fst ?ts)"
    unfolding broadcast_targets_def using distinct_map_filter [OF hm.entries_distinct [OF wf]]
    by (simp add: case_prod_unfold comp_def)
  have "q = r" if "(q, tx) \<in> set ?ts" "(r, tx) \<in> set ?ts" for q r tx
  proof (rule ccontr)
    assume "q \<noteq> r"
    from that obtain c d where "hm_get (tm_connections tm) q = Some c" "tx = channel_for p c"
      "hm_get (tm_connections tm) r = Some d" "tx = channel_for p d"
      by (auto simp: broadcast_targets_set [OF wf])
    moreover from this \<open>q \<noteq> r\<close> inv have "apart c d"
      unfolding transport_inv_def by (blast dest: conns_invD(2))
    ultimately show False using channel_for_sender [of p c] channel_for_sender [of p d] by (auto simp: apart_def)
  qed
  then have "inj_on snd (set ?ts)" by (auto intro!: inj_onI)
  moreover have "distinct ?ts" using fst by (simp add: distinct_map)
  ultimately show ?thesis using fst by (simp add: distinct_map)
qed

text \<open>
  C25: Broadcast reach. A broadcast offers the packet once to the channel of every peer marked connected and not
  excluded, and to nobody else; the channels that accept it each log it once; the
  returned list names each peer whose channel refused it, with the reason, and only those.
\<close>

theorem broadcast_reach:
  assumes "transport_inv tm" "broadcast out p ex tm = (errs, tm')"
  shows "\<exists>log. tm' = tm\<lparr>tm_sent := tm_sent tm @ log\<rparr> \<and> distinct log \<and> distinct (map fst errs)
    \<and> set log = {(channel_for p c, p) | q c. hm_get (tm_connections tm) q = Some c \<and> pi_status (conn_info c) = Connected
         \<and> q \<notin> set (case ex of None \<Rightarrow> [] | Some l \<Rightarrow> l) \<and> out (channel_for p c) p = Sent}
    \<and> set errs = {(q, e) | q c e. hm_get (tm_connections tm) q = Some c \<and> pi_status (conn_info c) = Connected
         \<and> q \<notin> set (case ex of None \<Rightarrow> [] | Some l \<Rightarrow> l) \<and> try_send_error (out (channel_for p c) p) = Some e}"
proof -
  have wf: "hm_wf (tm_connections tm)" using assms(1) by (simp add: transport_inv_def)
  let ?ts = "broadcast_targets p ex tm"
  let ?log = "map (\<lambda>(_, tx). (tx, p)) (filter (\<lambda>(_, tx). out tx p = Sent) ?ts)"
  note d = broadcast_targets_distinct [OF assms(1), of p ex]
  have err: "try_send_error r = Some e \<longleftrightarrow> r \<noteq> Sent \<and> e = the (try_send_error r)" for r e
    by (cases r) (auto simp: try_send_error_def)
  have "distinct (map snd (filter (\<lambda>(_, tx). out tx p = Sent) ?ts))"
    using d by (simp add: distinct_map_filter)
  then have "distinct ?log"
    by (simp add: distinct_map inj_on_def case_prod_unfold)
  moreover have "distinct (map fst errs)"
    using assms(2) d distinct_map_filter [of fst ?ts]
    by (auto simp: broadcast_eq case_prod_unfold comp_def)
  moreover have "set ?log = (\<lambda>(_, tx). (tx, p)) ` {(q, tx) \<in> set ?ts. out tx p = Sent}"
    by (auto simp: image_iff)
  moreover have "set errs = (\<lambda>(q, tx). (q, the (try_send_error (out tx p)))) ` {(q, tx) \<in> set ?ts. out tx p \<noteq> Sent}"
    using assms(2) by (auto simp: broadcast_eq)
  ultimately show ?thesis
    using assms(2) unfolding broadcast_targets_set [OF wf] err
    by (intro exI [of _ ?log]) (auto simp: broadcast_eq image_iff)
qed

definition ping_packet :: RawPacket where
  "ping_packet = \<lparr>pkt_type = 0x0100, pkt_flags = 0, pkt_payload = [7]\<rparr>"

definition demo_pair :: TransportManager where
  "demo_pair = fold transport_exec [TRegister 0 (PeerId ''b'') (demo_addr 1), TRegister 0 (PeerId ''c'') (demo_addr 2)]
     (demo_transport ''a'')"

lemma demo_pair_inv: "transport_inv demo_pair"
  unfolding demo_pair_def by (rule transport_inv_fold [OF demo_transport_inv])

lemmas demo_pair_run = demo_pair_def demo_transport_def transport_new_def register_connection_def spawn_def Let_def
  hm_insert_def hm_get_def hm_contains_def

theorem broadcast_reach_witness:
  "\<exists>errs tm' log. broadcast (\<lambda>tx _. if tx = 0 then Sent else Full) ping_packet None demo_pair = (errs, tm')
     \<and> tm' = demo_pair\<lparr>tm_sent := tm_sent demo_pair @ log\<rparr> \<and> set errs = {(PeerId ''c'', SendQueueFull)}"
proof -
  let ?out = "\<lambda>tx _. if tx = 0 then Sent else Full"
  obtain errs tm' where b: "broadcast ?out ping_packet None demo_pair = (errs, tm')" by fastforce
  have user: "\<not> is_internal ping_packet" by (simp add: ping_packet_def is_internal_def USER_MESSAGE_START_def)
  have get: "hm_get (tm_connections demo_pair) q = Some c \<longleftrightarrow>
      q = PeerId ''b'' \<and> c = \<lparr>control_tx = 0, data_tx = None, control_cancel = 1, data_cancel = None,
         conn_info = peer_info_new 0 (PeerId ''b'') (demo_addr 1)\<rparr>
    \<or> q = PeerId ''c'' \<and> c = \<lparr>control_tx = 2, data_tx = None, control_cancel = 3, data_cancel = None,
         conn_info = peer_info_new 0 (PeerId ''c'') (demo_addr 2)\<rparr>" for q c
    by (auto simp: demo_pair_run)
  have "{(q, e) | q c e. hm_get (tm_connections demo_pair) q = Some c \<and> pi_status (conn_info c) = Connected
         \<and> q \<notin> set (case None of None \<Rightarrow> [] | Some l \<Rightarrow> l)
         \<and> try_send_error (?out (channel_for ping_packet c) ping_packet) = Some e} = {(PeerId ''c'', SendQueueFull)}"
    unfolding get
    by (auto simp: channel_for_def user try_send_error_def)
       (intro exI [of _ "PeerId ''c''"] exI [of _ "\<lparr>control_tx = 2, data_tx = None, control_cancel = 3, data_cancel = None,
         conn_info = peer_info_new 0 (PeerId ''c'') (demo_addr 2)\<rparr>"], simp)
  with broadcast_reach [OF demo_pair_inv b] b show ?thesis by metis
qed

text \<open>
  Disconnecting a peer removes it and only it. The entry is gone, all its tasks' tokens are cancelled, no
  reconnection is scheduled, the other connections are untouched, and the leave message is the only packet that may
  have been sent; disconnecting an unknown peer is accepted and changes nothing.
\<close>

theorem disconnect_peer_effect:
  assumes "encode_internal x (PeerLeave (as_str (tm_local_peer_id tm))) (cfg_max_message_size (tm_config tm)) = Inr leave"
  shows "case disconnect_peer x out pid tm of (r, tm') \<Rightarrow>
     r = Inr () \<and> hm_get (tm_connections tm') = (hm_get (tm_connections tm))(pid := None)
   \<and> set (tm_cancelled tm') = set (tm_cancelled tm) \<union> (case hm_get (tm_connections tm) pid of None \<Rightarrow> {} | Some c \<Rightarrow> tokens c)
   \<and> tm_spawned tm' = tm_spawned tm \<and> tm_reconnect_events tm' = tm_reconnect_events tm
   \<and> (\<exists>l. tm_sent tm' = tm_sent tm @ l \<and> set l \<subseteq> {(tx, leave) | tx c. hm_get (tm_connections tm) pid = Some c \<and> tx = control_tx c})"
  using encode_internal_type [OF assms] assms
  by (auto simp: disconnect_peer_def send_to_peer_eq channel_for_def Let_def hm_lookup tokens_def split: option.split)

theorem disconnect_peer_effect_witness:
  "fst (disconnect_peer (table_ext [PeerLeave ''a'']) (\<lambda>_ _. Sent) (PeerId ''b'') demo_pair) = Inr ()
   \<and> hm_get (tm_connections (snd (disconnect_peer (table_ext [PeerLeave ''a'']) (\<lambda>_ _. Sent) (PeerId ''b'') demo_pair))) (PeerId ''b'') = None"
proof -
  have "encode_internal (table_ext [PeerLeave ''a'']) (PeerLeave (as_str (tm_local_peer_id demo_pair)))
      (cfg_max_message_size (tm_config demo_pair)) = Inr \<lparr>pkt_type = PEER_LEAVE, pkt_flags = 0, pkt_payload = [0]\<rparr>"
    by (simp add: demo_pair_run encode_internal_def table_ext_def len_u32_def config_default_def)
  from disconnect_peer_effect [OF this, where out = "\<lambda>_ _. Sent" and pid = "PeerId ''b''"] show ?thesis
    by (simp add: case_prod_unfold)
qed

text \<open>
  The end of a control connection. When the control read task of a registered peer ends, the entry
  is removed, its tokens are cancelled, and a reconnection to the peer's address is scheduled (with event 0 first) exactly when
  the peer may be reconnected to, the node is not shutting down and automatic reconnection is on.
\<close>

theorem control_end_effect:
  assumes "hm_get (tm_connections tm) pid = Some c" "tm' = control_read_cleanup show_addr shut pid tm"
  shows "hm_get (tm_connections tm') = (hm_get (tm_connections tm))(pid := None)
   \<and> set (tm_cancelled tm') = set (tm_cancelled tm) \<union> tokens c
   \<and> (let rec = pi_should_reconnect (conn_info c) \<and> \<not> shut \<and> auto_reconnect_enabled tm in
        tm_spawned tm' = tm_spawned tm @ (if rec then [Reconnect pid (show_addr (pi_addr (conn_info c)))] else [])
      \<and> tm_reconnect_events tm' = tm_reconnect_events tm @ (if rec then [(pid, 0)] else []))"
  using assms by (auto simp: control_read_cleanup_def Let_def hm_lookup tokens_def)

theorem control_end_effect_witness:
  "tm_reconnect_events (control_read_cleanup (\<lambda>_. ''addr'') False (PeerId ''b'') demo_pair) = [(PeerId ''b'', 0)]"
proof -
  have "hm_get (tm_connections demo_pair) (PeerId ''b'') = Some \<lparr>control_tx = 0, data_tx = None, control_cancel = 1,
      data_cancel = None, conn_info = peer_info_new 0 (PeerId ''b'') (demo_addr 1)\<rparr>"
    "auto_reconnect_enabled demo_pair" "tm_reconnect_events demo_pair = []"
    by (simp_all add: demo_pair_run config_default_def)
  with control_end_effect [OF this(1) refl, of "\<lambda>_. ''addr''" False] show ?thesis by (simp add: Let_def)
qed

text \<open>
  C40: A control task that ends late tears down its successor. The cleanup looks the peer up by name only: if the
  peer has been disconnected and has connected again before the first connection's task gets to its cleanup, that cleanup removes
  the new connection, cancels its token and schedules a reconnection.
\<close>

theorem late_cleanup_removes_successor:
  assumes "\<not> tm_has_peer tm p" "auto_reconnect_enabled tm"
    and "encode_internal x (PeerLeave (as_str (tm_local_peer_id tm))) (cfg_max_message_size (tm_config tm)) = Inr leave"
    and "tm1 = snd (register_connection t1 p a1 tm)" "tm2 = snd (disconnect_peer x out p tm1)"
    and "tm3 = snd (register_connection t2 p a2 tm2)" "tm4 = control_read_cleanup show_addr False p tm3"
  shows "tm_has_peer tm3 p \<and> \<not> tm_has_peer tm4 p \<and> Suc (tm_next tm2) \<in> set (tm_cancelled tm4)
    \<and> Reconnect p (show_addr a2) \<in> set (tm_spawned tm4)"
proof -
  have r: "auto_reconnect_enabled (snd (register_connection t q a m)) = auto_reconnect_enabled m"
    "tm_local_peer_id (snd (register_connection t q a m)) = tm_local_peer_id m"
    "tm_config (snd (register_connection t q a m)) = tm_config m" for t q a m
    by (simp_all add: register_connection_def Let_def spawn_def)
  have enc: "encode_internal x (PeerLeave (as_str (tm_local_peer_id tm1))) (cfg_max_message_size (tm_config tm1)) = Inr leave"
    using assms(3) by (simp add: assms(4) r)
  have "auto_reconnect_enabled tm1" using assms(2) by (simp add: assms(4) r)
  then have "auto_reconnect_enabled tm2" "hm_get (tm_connections tm2) p = None"
    by (simp_all add: assms(5) disconnect_peer_def enc Let_def hm_lookup send_to_peer_eq split: option.split)
  then have "auto_reconnect_enabled tm3" and c: "hm_get (tm_connections tm3) p = Some \<lparr>control_tx = tm_next tm2, data_tx = None,
      control_cancel = Suc (tm_next tm2), data_cancel = None, conn_info = peer_info_new t2 p a2\<rparr>"
    by (simp_all add: assms(6) r) (simp add: register_connection_def Let_def hm_lookup)
  then show ?thesis
    by (simp add: assms(7) control_read_cleanup_def Let_def tm_has_peer_def hm_lookup)
qed

theorem late_cleanup_removes_successor_witness:
  "let x = table_ext [PeerLeave ''a'']; tm = demo_transport ''a''; p = PeerId ''b'';
       tm2 = snd (disconnect_peer x (\<lambda>_ _. Sent) p (snd (register_connection 0 p (demo_addr 1) tm)));
       tm3 = snd (register_connection 9 p (demo_addr 1) tm2) in
   tm_has_peer tm3 p \<and> \<not> tm_has_peer (control_read_cleanup (\<lambda>_. ''addr'') False p tm3) p"
proof -
  have "\<not> tm_has_peer (demo_transport ''a'') (PeerId ''b'')" "auto_reconnect_enabled (demo_transport ''a'')"
    "encode_internal (table_ext [PeerLeave ''a'']) (PeerLeave (as_str (tm_local_peer_id (demo_transport ''a''))))
      (cfg_max_message_size (tm_config (demo_transport ''a''))) = Inr \<lparr>pkt_type = PEER_LEAVE, pkt_flags = 0, pkt_payload = [0]\<rparr>"
    by (simp_all add: demo_transport_def transport_new_def tm_has_peer_def hm_contains_def config_default_def
        encode_internal_def table_ext_def len_u32_def)
  from late_cleanup_removes_successor [OF this refl refl refl refl] show ?thesis by (simp add: Let_def)
qed

text \<open>
  A replaced data channel does not disturb its successor. When a peer's data channel is replaced, the old
  channel's token is cancelled, so the old read task's cleanup leaves the table as it is; had the task read its token
  just before the replacement, the same cleanup would drop the new channel.
\<close>

theorem replaced_data_channel:
  assumes "hm_get (tm_connections tm) p = Some c" "data_cancel c = Some tok" "tm' = register_data_channel p tm"
  shows "tok \<in> set (tm_cancelled tm') \<and> data_read_cleanup (tok \<in> set (tm_cancelled tm')) p tm' = tm'
    \<and> map_option data_tx (hm_get (tm_connections tm') p) = Some (Some (tm_next tm))
    \<and> map_option data_tx (hm_get (tm_connections (data_read_cleanup False p tm')) p) = Some None"
  using assms by (simp add: register_data_channel_def data_read_cleanup_def Let_def hm_lookup spawn_def)

theorem replaced_data_channel_witness:
  "let tm = register_data_channel (PeerId ''b'') demo_pair; tm' = register_data_channel (PeerId ''b'') tm in
   data_read_cleanup (5 \<in> set (tm_cancelled tm')) (PeerId ''b'') tm' = tm'"
proof -
  have "\<exists>c. hm_get (tm_connections (register_data_channel (PeerId ''b'') demo_pair)) (PeerId ''b'') = Some c \<and> data_cancel c = Some 5"
    by (simp add: register_data_channel_def Let_def hm_lookup spawn_def cancel_opt_def demo_pair_run hm_modify_def)
  then obtain c where "hm_get (tm_connections (register_data_channel (PeerId ''b'') demo_pair)) (PeerId ''b'') = Some c"
    "data_cancel c = Some 5" by blast
  from replaced_data_channel [OF this refl] show ?thesis unfolding Let_def by blast
qed

text \<open>
  One side opens the data channel. When two distinct nodes register each other, exactly one of them starts a
  task to open the data channel: the one with the smaller identifier.
\<close>

theorem one_data_initiator:
  assumes "tm_local_peer_id A \<noteq> tm_local_peer_id B"
    and "register_connection t (tm_local_peer_id B) b A = (Inr (), A')" "register_connection u (tm_local_peer_id A) a B = (Inr (), B')"
  shows "\<exists>sa sb. tm_spawned A' = tm_spawned A @ sa \<and> tm_spawned B' = tm_spawned B @ sb
    \<and> (OpenData (tm_local_peer_id B) b \<in> set sa \<longleftrightarrow> tm_local_peer_id A < tm_local_peer_id B)
    \<and> (OpenData (tm_local_peer_id A) a \<in> set sb \<longleftrightarrow> tm_local_peer_id B < tm_local_peer_id A)
    \<and> (OpenData (tm_local_peer_id B) b \<in> set sa \<longleftrightarrow> OpenData (tm_local_peer_id A) a \<notin> set sb)"
proof -
  have "tm_local_peer_id A < tm_local_peer_id B \<or> tm_local_peer_id B < tm_local_peer_id A"
    using assms(1) by (rule neq_iff [THEN iffD1])
  with assms(2,3) show ?thesis
    by (auto simp: register_connection_def Let_def spawn_def less_PeerId_def split: if_splits)
qed

theorem one_data_initiator_witness:
  "OpenData (PeerId ''b'') (demo_addr 2) \<in> set (tm_spawned (snd (register_connection 0 (PeerId ''b'') (demo_addr 2) (demo_transport ''a''))))
   \<and> OpenData (PeerId ''a'') (demo_addr 1) \<notin> set (tm_spawned (snd (register_connection 0 (PeerId ''a'') (demo_addr 1) (demo_transport ''b''))))"
proof -
  have l: "tm_local_peer_id (demo_transport n) = PeerId n" "tm_spawned (demo_transport n) = []"
    "hm_contains (tm_connections (demo_transport n)) p = False" for n p
    by (simp_all add: demo_transport_def transport_new_def hm_contains_def)
  have r: "register_connection t p ad (demo_transport n) = (Inr (), snd (register_connection t p ad (demo_transport n)))" for t p ad n
    by (simp add: register_connection_def Let_def l)
  have "PeerId ''a'' < PeerId ''b''" by (simp add: less_char_def)
  with one_data_initiator [of "demo_transport ''a''" "demo_transport ''b''", unfolded l, OF _ r r, of 0 "demo_addr 2" 0 "demo_addr 1"]
  show ?thesis by auto
qed

text \<open>
  A broken data channel is not bypassed. While the table still holds the sender of a data channel whose write
  task has ended (the sender answers closed), a user message to that peer fails, although the control channel would accept it.
\<close>

theorem closed_data_channel_fails:
  assumes "hm_get (tm_connections tm) pid = Some c" "data_tx c = Some d" "\<not> is_internal p"
    and "out d p = Closed" "out (control_tx c) p = Sent"
  shows "send_to_peer out pid p tm = (Inl (ConnectionFailed ''send channel closed''), tm)"
  using assms by (simp add: send_to_peer_eq channel_for_def try_send_error_def)

theorem closed_data_channel_fails_witness:
  "fst (send_to_peer (\<lambda>tx _. if tx = 4 then Closed else Sent) (PeerId ''b'') ping_packet (register_data_channel (PeerId ''b'') demo_pair))
     = Inl (ConnectionFailed ''send channel closed'')"
proof -
  have "\<exists>c. hm_get (tm_connections (register_data_channel (PeerId ''b'') demo_pair)) (PeerId ''b'') = Some c
      \<and> data_tx c = Some 4 \<and> control_tx c = 0"
    by (simp add: register_data_channel_def Let_def hm_lookup spawn_def cancel_opt_def demo_pair_run hm_modify_def)
  then obtain c where "hm_get (tm_connections (register_data_channel (PeerId ''b'') demo_pair)) (PeerId ''b'') = Some c"
    "data_tx c = Some 4" "control_tx c = 0" by blast
  with closed_data_channel_fails [OF this(1,2), of ping_packet "\<lambda>tx _. if tx = 4 then Closed else Sent"] show ?thesis
    by (simp add: ping_packet_def is_internal_def USER_MESSAGE_START_def)
qed

text \<open>
  C29: Draining the send queues ends. The polls come at least ten milliseconds apart, so whatever the queues hold the loop ends after at
  most 101 polls, and it ends early only when every queue is empty.
\<close>

theorem drain_terminates:
  assumes "101 \<le> length polls" "\<And>i. i < length polls \<Longrightarrow> start + i * 10000000 \<le> fst (snd (polls ! i))"
  shows "\<exists>n. drain_send_queues (drain_deadline start timeout) polls = Some n \<and> 1 \<le> n \<and> n \<le> 101
    \<and> (case polls ! (n - 1) of (drained, now, tm) \<Rightarrow> all_queues_empty drained tm \<or> drain_deadline start timeout \<le> now)"
proof -
  let ?d = "drain_deadline start timeout"
  have first: "\<exists>n. drain_send_queues ?d ps = Some n \<and> 1 \<le> n \<and> n \<le> Suc k
      \<and> (case ps ! (n - 1) of (drained, now, tm) \<Rightarrow> all_queues_empty drained tm \<or> ?d \<le> now)"
    if "k < length ps" "?d \<le> fst (snd (ps ! k))" for k ps
    using that
  proof (induction ps arbitrary: k)
    case (Cons p ps)
    obtain dr now tm where p: "p = (dr, now, tm)" by (cases p)
    show ?case
    proof (cases "all_queues_empty dr tm \<or> ?d \<le> now")
      case False
      with Cons.prems p obtain k' where k: "k = Suc k'" by (cases k) auto
      with Cons.IH [of k'] Cons.prems obtain n where n: "drain_send_queues ?d ps = Some n" "1 \<le> n" "n \<le> Suc k'"
        "case ps ! (n - 1) of (drained, now, tm) \<Rightarrow> all_queues_empty drained tm \<or> ?d \<le> now" by auto
      then show ?thesis using False p k by (intro exI [of _ "Suc n"]) (auto simp: nth_Cons')
    qed (use p in \<open>auto intro!: exI [of _ "1 :: nat"]\<close>)
  qed simp
  have "?d \<le> start + 100 * 10000000" by (simp add: drain_deadline_def)
  also have "\<dots> \<le> fst (snd (polls ! 100))" using assms(1) by (intro assms(2)) simp
  finally show ?thesis using first [of 100 polls] assms(1) by simp
qed

theorem drain_terminates_witness:
  "\<exists>n. drain_send_queues (drain_deadline 5 2000000000) (map (\<lambda>i. ((\<lambda>_. False), 5 + i * 10000000, demo_pair)) [0..<101]) = Some n \<and> n \<le> 101"
proof -
  let ?p = "map (\<lambda>i. ((\<lambda>_ :: nat. False), 5 + i * 10000000, demo_pair)) [0..<101]"
  have "?p ! i = ((\<lambda>_. False), 5 + i * 10000000, demo_pair)" if "i < 101" for i
    using that by (simp add: nth_map del: upt_Suc)
  moreover have "length ?p = 101" by (simp del: upt_Suc)
  ultimately show ?thesis
    using drain_terminates [of ?p 5 2000000000] by (auto simp del: upt_Suc length_map)
qed

text \<open>The packets a task takes from its queue and the frames a task reads from its stream.\<close>

definition queued_packets :: "write_event list \<Rightarrow> RawPacket list" where
  "queued_packets es = List.map_filter (\<lambda>e. case e of WRecv p _ \<Rightarrow> Some p | _ \<Rightarrow> None) es"

definition read_frames :: "read_event list \<Rightarrow> RawPacket list" where
  "read_frames es = List.map_filter (\<lambda>e. case e of RFrame p _ \<Rightarrow> Some p | _ \<Rightarrow> None) es"

definition data_frames :: "data_read_event list \<Rightarrow> RawPacket list" where
  "data_frames es = List.map_filter (\<lambda>e. case e of DFrame p _ \<Rightarrow> Some p | _ \<Rightarrow> None) es"

text \<open>
  A write that fails or times out may have left the first \<open>n\<close> bytes of its frame on the wire; a packet that
  cannot be encoded leaves nothing.
\<close>

fun torn_write :: "u32 \<Rightarrow> nat \<Rightarrow> write_event list \<Rightarrow> bytes" where
  "torn_write mx n (WRecv p Written # es) = torn_write mx n es"
| "torn_write mx n (WRecv p WriteError # es) = (case encode mx p [] of Inl e \<Rightarrow> [] | Inr buf \<Rightarrow> take n buf)"
| "torn_write mx n (WRecv p WriteTimeout # es) = (case encode mx p [] of Inl e \<Rightarrow> [] | Inr buf \<Rightarrow> take n buf)"
| "torn_write mx n es = []"

lemma torn_encode: "\<exists>b. frame p = (case encode mx p [] of Inl e \<Rightarrow> [] | Inr buf \<Rightarrow> take n buf) @ b"
  by (cases "length (pkt_payload p) \<le> unat mx") (auto simp: encode_frame intro: exI [of _ "drop n (frame p)"])

lemma torn_unfit: "\<not> length (pkt_payload p) \<le> unat mx \<Longrightarrow> (case encode mx p [] of Inl e \<Rightarrow> [] | Inr buf \<Rightarrow> take n buf) = []"
  by (simp add: encode_frame)

lemma queued_failed:
  "w \<noteq> Written \<Longrightarrow> \<exists>ps b. concat (map frame ps) = (case encode mx p [] of Inl e \<Rightarrow> [] | Inr buf \<Rightarrow> take n buf) @ b
     \<and> (\<exists>k. ps = take k (queued_packets (WRecv p w # es))) \<and> (\<forall>p \<in> set ps. length (pkt_payload p) \<le> unat mx)"
proof (cases "length (pkt_payload p) \<le> unat mx")
  case True
  obtain b where "frame p = (case encode mx p [] of Inl e \<Rightarrow> [] | Inr buf \<Rightarrow> take n buf) @ b" using torn_encode by blast
  with True show ?thesis
    by (intro exI [of _ "[p]"] exI [of _ b]) (auto simp: queued_packets_def map_filter_simps intro: exI [of _ 1])
qed (intro exI [of _ "[]"], auto simp: torn_unfit intro: exI [of _ 0])

lemma write_task_wire:
  assumes "\<And>p. WRecv p Written \<in> set es \<Longrightarrow> length (pkt_payload p) \<le> unat mx"
  shows "\<exists>ps b. concat (map frame ps) = concat (map frame (fst (write_task es))) @ torn_write mx n es @ b
     \<and> (\<exists>k. ps = take k (queued_packets es)) \<and> (\<forall>p \<in> set ps. length (pkt_payload p) \<le> unat mx)"
  using assms
proof (induction es rule: write_task.induct)
  case (4 p es)
  then obtain ps b k where "concat (map frame ps) = concat (map frame (fst (write_task es))) @ torn_write mx n es @ b"
    "ps = take k (queued_packets es)" "\<forall>p \<in> set ps. length (pkt_payload p) \<le> unat mx" by fastforce
  with "4.prems" show ?case
    by (intro exI [of _ "p # ps"] exI [of _ b]) (auto simp: queued_packets_def map_filter_simps case_prod_beta intro: exI [of _ "Suc k"])
qed (use queued_failed in \<open>auto intro: exI [of _ "[]"] exI [of _ 0]\<close>)

lemma write_task_written: "p \<in> set (fst (write_task es)) \<Longrightarrow> WRecv p Written \<in> set es"
  by (induction es rule: write_task.induct) (auto split: prod.splits)

lemma read_task_prefix:
  "\<exists>k. fst (read_task pid es) = map (Pair pid) (take k (read_frames es))
     \<and> (list_all (\<lambda>e. \<exists>p. e = RFrame p True) es \<longrightarrow> length (read_frames es) \<le> k)"
proof (induction pid es rule: read_task.induct)
  case (3 pid p ok es)
  show ?case
  proof (cases ok)
    case True
    with 3 obtain k where "fst (read_task pid es) = map (Pair pid) (take k (read_frames es))"
      "list_all (\<lambda>e. \<exists>p. e = RFrame p True) es \<longrightarrow> length (read_frames es) \<le> k" by blast
    with True show ?thesis by (intro exI [of _ "Suc k"]) (simp add: read_frames_def map_filter_simps case_prod_beta)
  qed (auto intro: exI [of _ 0])
qed (auto simp: read_frames_def map_filter_simps intro: exI [of _ 0])

lemma data_read_task_prefix:
  "\<exists>k. fst (data_read_task pid es) = map (Pair pid) (take k (data_frames es))
     \<and> (list_all (\<lambda>e. \<exists>p. e = DFrame p Offered) es \<longrightarrow> length (data_frames es) \<le> k)"
proof (induction pid es rule: data_read_task.induct)
  case (3 pid p es)
  then obtain k where "fst (data_read_task pid es) = map (Pair pid) (take k (data_frames es))"
    "list_all (\<lambda>e. \<exists>p. e = DFrame p Offered) es \<longrightarrow> length (data_frames es) \<le> k" by blast
  then show ?case by (intro exI [of _ "Suc k"]) (simp add: data_frames_def map_filter_simps case_prod_beta)
qed (auto simp: data_frames_def map_filter_simps intro: exI [of _ 0])

text \<open>What the decoder finds in the part of the wire's bytes that arrived.\<close>

lemma wire_frames:
  assumes "\<And>p. WRecv p Written \<in> set wes \<Longrightarrow> length (pkt_payload p) \<le> unat mx"
    and "concat (map frame (fst (write_task wes))) @ torn_write mx n wes = concat chunks @ lost"
  shows "\<exists>k. fst (feed (decode mx) [] chunks) = take k (queued_packets wes) \<and> (lost = [] \<longrightarrow> length (fst (write_task wes)) \<le> k)"
proof -
  let ?w = "fst (write_task wes)"
  obtain ps b k where "concat (map frame ps) = concat (map frame ?w) @ torn_write mx n wes @ b" "ps = take k (queued_packets wes)"
    and fits: "\<forall>p \<in> set ps. length (pkt_payload p) \<le> unat mx" using write_task_wire [OF assms(1)] by blast
  then have "concat (map frame ps) = concat chunks @ (lost @ b)" using assms(2) by (metis append.assoc)
  from packet_codec.feed_prefix [OF _ this] fits obtain j where
    j: "fst (feed (decode mx) [] chunks) = take (min j k) (queued_packets wes)" using \<open>ps = _\<close> by fastforce
  have "length ?w \<le> min j k" if "lost = []"
  proof -
    have ok: "\<And>p. p \<in> set ?w \<Longrightarrow> length (pkt_payload p) \<le> unat mx" using assms(1) write_task_written by blast
    have "feed (decode mx) [] chunks = drain (decode mx) (concat (map frame ?w) @ torn_write mx n wes)"
      using packet_codec.feed_drain [of mx "[]" chunks] that assms(2) by (simp add: packet_codec.drain_wait decode_short)
    then have "length ?w \<le> length (fst (feed (decode mx) [] chunks))"
      using packet_codec.drain_after_encoded [of ?w mx, OF ok] by simp
    then show ?thesis unfolding j by simp
  qed
  with j show ?thesis by blast
qed

text \<open>
  C10: A connection is a queue. Let a write task put the packets it wrote on the wire, followed by a part of the frame whose write failed, if one did; let the wire
  deliver any initial part of these bytes in any pieces, and let the
  receiving read task read the frames the decoder finds there. However the tasks end, what reaches the incoming queue is an initial part of what was put on the send
  queue, in order, under the peer's name: a packet is lost only together with all that follow it, and none is duplicated, reordered or altered. When the wire loses nothing
  and the read task can hand over every frame, every written packet arrives. This holds for the control and the data channel.
\<close>

theorem channel_is_fifo:
  assumes "\<And>p. WRecv p Written \<in> set wes \<Longrightarrow> length (pkt_payload p) \<le> unat mx"
    and "concat (map frame (fst (write_task wes))) @ torn_write mx n wes = concat chunks @ lost"
    and "read_frames res = fst (feed (decode mx) [] chunks)" "data_frames des = fst (feed (decode mx) [] chunks)"
  shows "(\<exists>k. fst (read_task pid res) = map (Pair pid) (take k (queued_packets wes))
      \<and> (lost = [] \<and> list_all (\<lambda>e. \<exists>p. e = RFrame p True) res \<longrightarrow> length (fst (write_task wes)) \<le> k))
    \<and> (\<exists>k. fst (data_read_task pid des) = map (Pair pid) (take k (queued_packets wes))
      \<and> (lost = [] \<and> list_all (\<lambda>e. \<exists>p. e = DFrame p Offered) des \<longrightarrow> length (fst (write_task wes)) \<le> k))"
proof -
  obtain k where k: "fst (feed (decode mx) [] chunks) = take k (queued_packets wes)" "lost = [] \<longrightarrow> length (fst (write_task wes)) \<le> k"
    using wire_frames [OF assms(1,2)] by blast
  have part: "\<exists>j. map (Pair pid) (take i (take k (queued_packets wes))) = map (Pair pid) (take j (queued_packets wes))
      \<and> (lost = [] \<and> all \<longrightarrow> length (fst (write_task wes)) \<le> j)"
    if "all \<longrightarrow> length (take k (queued_packets wes)) \<le> i" for i all
  proof (intro exI conjI)
    show "map (Pair pid) (take i (take k (queued_packets wes))) = map (Pair pid) (take (if all then k else min i k) (queued_packets wes))"
      using that by (cases all) (simp add: take_all [of "take k (queued_packets wes)"] del: take_take length_take, simp)
  qed (use k(2) in simp)
  show ?thesis
    using read_task_prefix [of pid res] data_read_task_prefix [of pid des] part unfolding assms(3,4) k(1) by metis
qed

theorem channel_is_fifo_witness:
  "let wes = [WRecv hello_packet Written, WRecv hello_packet WriteTimeout] in
   (\<exists>k. fst (read_task (PeerId ''b'') [RFrame hello_packet True]) = map (Pair (PeerId ''b'')) (take k (queued_packets wes)) \<and> 1 \<le> k)"
proof -
  let ?wes = "[WRecv hello_packet Written, WRecv hello_packet WriteTimeout]"
  let ?chunks = "[frame hello_packet, take 3 (frame hello_packet)]"
  have d: "decode 1024 (frame hello_packet) = Inr (Some hello_packet, [])"
    using decode_frame [of hello_packet 1024 "[]"] by (simp add: hello_packet_def)
  moreover have "decode 1024 (take 3 (frame hello_packet)) = Inr (None, take 3 (frame hello_packet))" by (rule decode_short) simp
  moreover have "decode 1024 [] = Inr (None, [])" by (rule decode_short) simp
  ultimately have "feed (decode 1024) [] ?chunks = ([hello_packet], Inr (take 3 (frame hello_packet)))"
    by (simp add: packet_codec.drain_frame packet_codec.drain_wait)
  moreover have "encode 1024 hello_packet [] = Inr (frame hello_packet)" by (simp add: encode_frame hello_packet_def)
  ultimately show ?thesis
    using channel_is_fifo [of ?wes 1024 3 ?chunks "[]" "[RFrame hello_packet True]" "[DFrame hello_packet Offered]" "PeerId ''b''"]
    by (auto simp: read_frames_def data_frames_def map_filter_simps hello_packet_def)
qed

end
