(* ===== verification/Handshake_Protocol.thy ===== *)
theory Handshake_Protocol
  imports Transport
begin

text \<open>
  The handshakes of \<^verbatim>\<open>src/transport.rs\<close> on both sides, the data channel's own handshake and
  the reconnection loop. What the operating system and the network do is the record
  \<open>conn_env\<close>: the outcome of the socket calls, of the connection attempt, of the one read each handshake makes
  and of every send. The handlers run concurrently with all other tasks: \<open>ce_other i\<close> is
  what the other tasks have done to the transport when this handler takes the lock for the \<open>i\<close>-th time. The result of
  a handler comes with the packets it gave to the socket and the resulting state. The textual form of socket addresses is the
  record \<open>addr_text\<close>.
\<close>

section \<open>Definitions\<close>

record addr_text =
  parse_addr :: "string \<Rightarrow> string + SocketAddr"
  show_addr :: "SocketAddr \<Rightarrow> string"

datatype read_result = RdPacket RawPacket | RdErr NetworkError | RdClosed | RdTimeout

datatype connect_result = CnOk | CnErr string | CnTimeout

record conn_env =
  ce_windows :: bool
  ce_setup :: "sock_call \<Rightarrow> string option"
  ce_connect :: connect_result
  ce_read :: read_result
  ce_send :: "nat \<Rightarrow> NetworkError option"
  ce_clock :: instant
  ce_other :: "nat \<Rightarrow> TransportManager \<Rightarrow> TransportManager"

type_synonym 'a hs_outcome = "(NetworkError + 'a) \<times> RawPacket list \<times> TransportManager"

definition encode_for :: "ext \<Rightarrow> TransportManager \<Rightarrow> InternalMessage \<Rightarrow> NetworkError + RawPacket" where
  "encode_for x tm m = encode_internal x m (cfg_max_message_size (tm_config tm))"

definition ack_msg :: "TransportManager \<Rightarrow> bool \<Rightarrow> string option \<Rightarrow> InternalMessage" where
  "ack_msg tm ok reason = HandshakeAck (as_str (tm_local_peer_id tm)) (port (tm_listener_addr tm)) ok reason"

text \<open>Refuse with the given acknowledgement (whose delivery is not checked) and error.\<close>

definition refuse :: "ext \<Rightarrow> TransportManager \<Rightarrow> InternalMessage \<Rightarrow> NetworkError \<Rightarrow> 'a hs_outcome" where
  "refuse x tm m err = (case encode_for x tm m of Inl e \<Rightarrow> (Inl e, [], tm) | Inr p \<Rightarrow> (Inl err, [p], tm))"

definition version_text :: "u16 \<Rightarrow> string" where
  "version_text got = ''version_mismatch: expected '' @ show_nat (unat PROTOCOL_VERSION) @ '', got '' @ show_nat (unat got)"

definition process_handshake_message ::
  "ext \<Rightarrow> addr_text \<Rightarrow> conn_env \<Rightarrow> InternalMessage \<Rightarrow> TransportManager \<Rightarrow> (PeerId \<times> u16 \<times> RawPacket) hs_outcome" where
  "process_handshake_message x s env msg tm =
     (case msg of
        Handshake peer_id listen_port protocol_version session_id \<Rightarrow>
          if protocol_version \<noteq> PROTOCOL_VERSION then
            refuse x tm (ack_msg tm False (Some (version_text protocol_version)))
              (VersionMismatch PROTOCOL_VERSION protocol_version)
          else if session_id \<noteq> tm_session_id tm then
            refuse x tm (ack_msg tm False (Some ''session_mismatch'')) (SessionMismatch (tm_session_id tm) session_id)
          else
            let pid = PeerId peer_id; tm1 = ce_other env 1 tm in
            if hm_contains (tm_connections tm1) pid then
              refuse x tm1 (ack_msg tm1 True (Some ''already_connected'')) (AlreadyConnected peer_id)
            else
              (case encode_for x tm1 (ack_msg tm1 True None) of
                 Inl e \<Rightarrow> (Inl e, [], tm1)
               | Inr ack \<Rightarrow>
                   (case ce_send env 0 of
                      Some e \<Rightarrow> (Inl (ConnectionFailed (''failed to send handshake ack: '' @ error_text e)), [ack], tm1)
                    | None \<Rightarrow>
                        let tm2 = ce_other env 2 tm1; peer_list = get_peer_list_for_sync (show_addr s) tm2;
                            sync = (if peer_list = [] then Inr []
                                    else case encode_for x tm2 (PeerListSync peer_list) of
                                           Inl e \<Rightarrow> Inl e | Inr p \<Rightarrow> Inr [p]) in
                        (case sync of
                           Inl e \<Rightarrow> (Inl e, [ack], tm2)
                         | Inr ps \<Rightarrow>
                             (case encode_for x tm2 (Handshake peer_id listen_port protocol_version session_id) of
                                Inl e \<Rightarrow> (Inl e, ack # ps, tm2)
                              | Inr notify \<Rightarrow> (Inr (pid, listen_port, notify), ack # ps, tm2)))))
      | _ \<Rightarrow> (Inl (HandshakeFailed ''expected Handshake message''), [], tm))"

definition handle_incoming_data_channel_framed ::
  "ext \<Rightarrow> conn_env \<Rightarrow> RawPacket \<Rightarrow> TransportManager \<Rightarrow> unit hs_outcome" where
  "handle_incoming_data_channel_framed x env packet tm =
     (case decode_internal x packet of
        Inl e \<Rightarrow> (Inl e, [], tm)
      | Inr (DataChannelHandshake peer_id) \<Rightarrow>
          let pid = PeerId peer_id; tm0 = ce_other env 0 tm; known = hm_contains (tm_connections tm0) pid in
          (case encode_for x tm0 (DataChannelHandshakeAck (as_str (tm_local_peer_id tm0)) known) of
             Inl e \<Rightarrow> (Inl e, [], tm0)
           | Inr ack \<Rightarrow>
               (case ce_send env 0 of
                  Some e \<Rightarrow> (Inl (ConnectionFailed (''failed to send DataChannelHandshakeAck: '' @ error_text e)), [ack], tm0)
                | None \<Rightarrow>
                    if \<not> known then (Inl (HandshakeFailed (''data channel from unknown peer '' @ as_str pid)), [ack], tm0)
                    else (Inr (), [ack], register_data_channel pid (ce_other env 1 tm0))))
      | Inr _ \<Rightarrow> (Inl (HandshakeFailed ''expected DataChannelHandshake''), [], tm))"

definition offer_incoming :: "PeerId \<Rightarrow> RawPacket \<Rightarrow> TransportManager \<Rightarrow> TransportManager" where
  "offer_incoming pid p tm = tm\<lparr>tm_incoming := tm_incoming tm @ [(pid, p)]\<rparr>"

fun is_already_connected :: "NetworkError \<Rightarrow> bool" where
  "is_already_connected (AlreadyConnected _) = True"
| "is_already_connected _ = False"

fun is_duplicate :: "NetworkError \<Rightarrow> bool" where
  "is_duplicate (DuplicatePeerId _) = True"
| "is_duplicate _ = False"

text \<open>The control-channel half of \<^verbatim>\<open>handle_incoming_connection\<close>, from the limit check on.\<close>

definition admit_handshake ::
  "ext \<Rightarrow> addr_text \<Rightarrow> conn_env \<Rightarrow> SocketAddr \<Rightarrow> RawPacket \<Rightarrow> TransportManager \<Rightarrow> unit hs_outcome" where
  "admit_handshake x s env addr packet tm =
     (let tm0 = ce_other env 0 tm in
      if connection_count tm0 \<ge> max_connections (tm_config tm0) then (Inl MaxConnectionsReached, [], tm0)
      else
        (case decode_internal x packet of
           Inl e \<Rightarrow> (Inl e, [], tm0)
         | Inr msg \<Rightarrow>
            (case process_handshake_message x s env msg tm0 of
               (Inr (pid, listen_port, notify), wire, tm1) \<Rightarrow>
                 (case register_connection (ce_clock env) pid (SocketAddr (ip addr) listen_port) (ce_other env 3 tm1) of
                    (Inr _, tm2) \<Rightarrow> (Inr (), wire, offer_incoming pid notify tm2)
                  | (Inl e, tm2) \<Rightarrow> (if is_duplicate e then Inr () else Inl e, wire, tm2))
             | (Inl e, wire, tm1) \<Rightarrow> (if is_already_connected e then Inr () else Inl e, wire, tm1))))"

definition handle_incoming_connection ::
  "ext \<Rightarrow> addr_text \<Rightarrow> conn_env \<Rightarrow> SocketAddr \<Rightarrow> TransportManager \<Rightarrow> unit hs_outcome" where
  "handle_incoming_connection x s env addr tm =
     (case configure_socket (ce_windows env) (ce_setup env) (tm_config tm) of
        Inl e \<Rightarrow> (Inl e, [], tm)
      | Inr _ \<Rightarrow>
         (case ce_read env of
            RdErr e \<Rightarrow> (Inl e, [], tm)
          | RdClosed \<Rightarrow> (Inl (HandshakeFailed ''connection closed''), [], tm)
          | RdTimeout \<Rightarrow> (Inl HandshakeTimeout, [], tm)
          | RdPacket packet \<Rightarrow>
              if pkt_type packet = DATA_CHANNEL_HANDSHAKE then handle_incoming_data_channel_framed x env packet tm
              else admit_handshake x s env addr packet tm))"

definition receive_handshake_ack :: "ext \<Rightarrow> RawPacket \<Rightarrow> TransportManager \<Rightarrow> NetworkError + (PeerId \<times> u16 \<times> RawPacket)" where
  "receive_handshake_ack x packet tm =
     try_bind (decode_internal x packet) (\<lambda>msg.
       case msg of
         HandshakeAck peer_id listen_port success error_reason \<Rightarrow>
           if \<not> success then
             let reason = (case error_reason of None \<Rightarrow> ''unknown'' | Some r \<Rightarrow> r) in
             if reason = ''duplicate_peer_id'' then Inl (AlreadyConnected peer_id) else Inl (HandshakeFailed reason)
           else if error_reason = Some ''already_connected'' then Inl (AlreadyConnected peer_id)
           else try_bind (encode_for x tm (HandshakeAck peer_id listen_port True None))
                  (\<lambda>notify. Inr (PeerId peer_id, listen_port, notify))
       | _ \<Rightarrow> Inl (HandshakeFailed ''expected HandshakeAck message''))"

definition connect_to ::
  "ext \<Rightarrow> addr_text \<Rightarrow> conn_env \<Rightarrow> string \<Rightarrow> TransportManager \<Rightarrow> PeerId hs_outcome" where
  "connect_to x s env addr tm =
     (let tm0 = ce_other env 0 tm in
      if connection_count tm0 \<ge> max_connections (tm_config tm0) then (Inl MaxConnectionsReached, [], tm0)
      else case parse_addr s addr of
        Inl e \<Rightarrow> (Inl (InvalidArgument (''invalid address: '' @ e)), [], tm0)
      | Inr socket_addr \<Rightarrow>
         (case ce_connect env of
            CnTimeout \<Rightarrow> (Inl HandshakeTimeout, [], tm0)
          | CnErr e \<Rightarrow> (Inl (ConnectionFailed (''TCP connect failed: '' @ e)), [], tm0)
          | CnOk \<Rightarrow>
             (case configure_socket (ce_windows env) (ce_setup env) (tm_config tm0) of
                Inl e \<Rightarrow> (Inl e, [], tm0)
              | Inr _ \<Rightarrow>
                 (case encode_for x tm0 (Handshake (as_str (tm_local_peer_id tm0)) (port (tm_listener_addr tm0))
                         PROTOCOL_VERSION (tm_session_id tm0)) of
                    Inl e \<Rightarrow> (Inl e, [], tm0)
                  | Inr handshake \<Rightarrow>
                     (case ce_send env 0 of
                        Some e \<Rightarrow> (Inl (ConnectionFailed (''failed to send handshake: '' @ error_text e)), [handshake], tm0)
                      | None \<Rightarrow>
                         (case ce_read env of
                            RdTimeout \<Rightarrow> (Inl HandshakeTimeout, [handshake], tm0)
                          | RdClosed \<Rightarrow> (Inl (HandshakeFailed ''connection closed''), [handshake], tm0)
                          | RdErr e \<Rightarrow> (Inl e, [handshake], tm0)
                          | RdPacket packet \<Rightarrow>
                             (case receive_handshake_ack x packet tm0 of
                                Inl e \<Rightarrow> (Inl e, [handshake], tm0)
                              | Inr (pid, listen_port, notify) \<Rightarrow>
                                 (case register_connection (ce_clock env) pid (SocketAddr (ip socket_addr) listen_port)
                                         (ce_other env 1 tm0) of
                                    (Inr _, tm1) \<Rightarrow> (Inr pid, [handshake], offer_incoming pid notify tm1)
                                  | (Inl e, tm1) \<Rightarrow>
                                      (Inl (if is_duplicate e then AlreadyConnected (as_str pid) else e), [handshake], tm1))))))))
     )"

definition open_data_channel :: "ext \<Rightarrow> conn_env \<Rightarrow> PeerId \<Rightarrow> TransportManager \<Rightarrow> unit hs_outcome" where
  "open_data_channel x env pid tm =
     (let tm0 = ce_other env 0 tm in
      case hm_get (tm_connections tm0) pid of
        None \<Rightarrow> (Inl (PeerNotFound (as_str pid)), [], tm0)
      | Some c \<Rightarrow>
          if data_tx c \<noteq> None then (Inr (), [], tm0)
          else case ce_connect env of
            CnTimeout \<Rightarrow> (Inl HandshakeTimeout, [], tm0)
          | CnErr e \<Rightarrow> (Inl (ConnectionFailed (''data channel TCP connect failed: '' @ e)), [], tm0)
          | CnOk \<Rightarrow>
             (case configure_socket (ce_windows env) (ce_setup env) (tm_config tm0) of
                Inl e \<Rightarrow> (Inl e, [], tm0)
              | Inr _ \<Rightarrow>
                 (case encode_for x tm0 (DataChannelHandshake (as_str (tm_local_peer_id tm0))) of
                    Inl e \<Rightarrow> (Inl e, [], tm0)
                  | Inr hs \<Rightarrow>
                     (case ce_send env 0 of
                        Some e \<Rightarrow> (Inl (ConnectionFailed (''failed to send DataChannelHandshake: '' @ error_text e)), [hs], tm0)
                      | None \<Rightarrow>
                         (case ce_read env of
                            RdTimeout \<Rightarrow> (Inl HandshakeTimeout, [hs], tm0)
                          | RdClosed \<Rightarrow> (Inl (HandshakeFailed ''data channel closed''), [hs], tm0)
                          | RdErr e \<Rightarrow> (Inl e, [hs], tm0)
                          | RdPacket ack \<Rightarrow>
                             (case decode_internal x ack of
                                Inl e \<Rightarrow> (Inl e, [hs], tm0)
                              | Inr (DataChannelHandshakeAck _ True) \<Rightarrow>
                                  (Inr (), [hs], register_data_channel pid (ce_other env 1 tm0))
                              | Inr _ \<Rightarrow> (Inl (HandshakeFailed ''data channel handshake rejected''), [hs], tm0)))))))"

text \<open>
  The reconnection loop. A round is what happens from one sleep to the next: what other tasks did
  meanwhile, whether the shutdown token ended the sleep, whether it ended the connection attempt (and what the
  dropped attempt had done by then), and the environment of the attempt. The loop has no bound of its own: it runs
  on a list of rounds, and its result says which delays it slept, whether it has ended, and the state.
\<close>

record reconnect_round =
  rr_meanwhile :: "TransportManager \<Rightarrow> TransportManager"
  rr_sleep_cancelled :: bool
  rr_dropped :: "(TransportManager \<Rightarrow> TransportManager) option"
  rr_env :: conn_env

definition reconnect_event :: "PeerId \<Rightarrow> u8 \<Rightarrow> TransportManager \<Rightarrow> TransportManager" where
  "reconnect_event pid code tm = tm\<lparr>tm_reconnect_events := tm_reconnect_events tm @ [(pid, code)]\<rparr>"

fun reconnect_loop ::
  "ext \<Rightarrow> addr_text \<Rightarrow> NetworkConfig \<Rightarrow> PeerId \<Rightarrow> string \<Rightarrow> reconnect_round list \<Rightarrow> u32 \<Rightarrow> u8 \<Rightarrow> TransportManager
     \<Rightarrow> u32 list \<times> bool \<times> TransportManager" where
  "reconnect_loop x s cfg pid addr [] delay_ms attempts tm = ([], False, tm)"
| "reconnect_loop x s cfg pid addr (r # rs) delay_ms attempts tm =
     (let tm0 = rr_meanwhile r tm in
      if rr_sleep_cancelled r then ([delay_ms], True, tm0)
      else if \<not> auto_reconnect_enabled tm0 then ([delay_ms], True, reconnect_event pid 2 tm0)
      else case rr_dropped r of
        Some f \<Rightarrow> ([delay_ms], True, f tm0)
      | None \<Rightarrow>
         (case connect_to x s (rr_env r) addr tm0 of
            (Inr _, _, tm1) \<Rightarrow> ([delay_ms], True, reconnect_event pid 1 tm1)
          | (Inl e, _, tm1) \<Rightarrow>
              let attempts' = saturating_add attempts 1 in
              if reconnect_max_retries cfg > 0 \<and> attempts' \<ge> reconnect_max_retries cfg
              then ([delay_ms], True, reconnect_event pid 2 tm1)
              else
                (case reconnect_loop x s cfg pid addr rs (min (saturating_mul delay_ms 2) (reconnect_max_ms cfg)) attempts' tm1 of
                   (ds, fin, tm2) \<Rightarrow> (delay_ms # ds, fin, tm2))))"

definition spawn_reconnect ::
  "ext \<Rightarrow> addr_text \<Rightarrow> PeerId \<Rightarrow> string \<Rightarrow> reconnect_round list \<Rightarrow> TransportManager \<Rightarrow> u32 list \<times> bool \<times> TransportManager" where
  "spawn_reconnect x s pid addr rounds tm =
     reconnect_loop x s (tm_config tm) pid addr rounds (ucast (reconnect_initial_ms (tm_config tm))) 0 tm"

section \<open>Lemmas\<close>

text \<open>A handler that no other task disturbs, on a socket that works.\<close>

definition undisturbed :: "conn_env \<Rightarrow> bool" where
  "undisturbed env \<longleftrightarrow> ce_other env = (\<lambda>_ tm. tm)"

definition healthy :: "conn_env \<Rightarrow> bool" where
  "healthy env \<longleftrightarrow> ce_setup env = (\<lambda>_. None) \<and> ce_send env = (\<lambda>_. None) \<and> ce_connect env = CnOk"

lemma configure_socket_healthy [simp]: "configure_socket w (\<lambda>_. None) cfg = Inr ()"
  by (simp add: configure_socket_def configure_socket_calls_def)

lemma refuse_simps [simp]: "snd (snd (refuse x tm m e)) = tm" "fst (refuse x tm m e) = Inl e' \<or> fst (refuse x tm m e) \<noteq> Inr v"
  by (simp_all add: refuse_def split: sum.split)

lemma refuse_not_Inr [simp]: "refuse x tm m e = (Inr v, w, tm') \<longleftrightarrow> False"
  by (simp add: refuse_def split: sum.split)

lemma process_handshake_undisturbed:
  "undisturbed env \<Longrightarrow> snd (snd (process_handshake_message x s env msg tm)) = tm"
  by (simp add: process_handshake_message_def undisturbed_def Let_def split: InternalMessage.split sum.split option.split)

lemma process_handshake_ok:
  "process_handshake_message x s env msg tm = (Inr (pid, prt, notify), w, tm') \<Longrightarrow> undisturbed env \<Longrightarrow>
     pid = PeerId (as_str pid) \<and> msg = Handshake (as_str pid) prt PROTOCOL_VERSION (tm_session_id tm)
     \<and> \<not> tm_has_peer tm pid \<and> tm' = tm"
  by (auto simp: process_handshake_message_def undisturbed_def Let_def tm_has_peer_def
      split: InternalMessage.splits sum.splits option.splits if_splits)

lemma register_connection_result:
  "register_connection now pid a tm = (Inr (), tm') \<Longrightarrow>
     \<not> tm_has_peer tm pid \<and> hm_get (tm_connections tm') = (hm_get (tm_connections tm))(pid \<mapsto>
       \<lparr>control_tx = tm_next tm, data_tx = None, control_cancel = Suc (tm_next tm), data_cancel = None,
        conn_info = peer_info_new now pid a\<rparr>)"
  by (auto simp: register_connection_def Let_def tm_has_peer_def hm_lookup split: if_splits)

lemma register_connection_error:
  "register_connection now pid a tm = (Inl e, tm') \<Longrightarrow> e = DuplicatePeerId (as_str pid) \<and> tm_connections tm' = tm_connections tm"
  by (auto simp: register_connection_def Let_def split: if_splits)

lemma register_connection_count:
  "hm_wf (tm_connections tm) \<Longrightarrow> register_connection now pid a tm = (Inr (), tm') \<Longrightarrow>
     connection_count tm' = Suc (connection_count tm)"
  by (auto simp: register_connection_def Let_def connection_count_def hm.size_put hm_lookup split: if_splits)

lemma offer_incoming_frame [simp]:
  "tm_connections (offer_incoming p pk tm) = tm_connections tm" "tm_spawned (offer_incoming p pk tm) = tm_spawned tm"
  by (simp_all add: offer_incoming_def)

lemma next_delay:
  "unat (min (saturating_mul d 2) mx :: u32) = min (2 * unat d) (unat mx)"
proof -
  have "unat (min a b) = min (unat a) (unat b)" for a b :: u32
    by (simp add: min_def word_le_nat_alt)
  moreover have "unat mx \<le> 2 ^ 32 - 1" using unat_below [of mx] by simp
  ultimately show ?thesis by (simp add: saturating_mul_unat)
qed

lemma min_scale: "1 \<le> (k :: nat) \<Longrightarrow> min (min a m * k) m = min (a * k) m"
proof (cases "a \<le> m")
  case False
  assume "1 \<le> k"
  then have "m \<le> m * k" "a \<le> a * k" by simp_all
  with False have "min a m = m" "min (m * k) m = m" "min (a * k) m = m" by linarith+
  then show ?thesis by simp
qed (simp add: min_def)

lemma reconnect_loop_delays:
  "reconnect_loop x s cfg pid addr rounds d att tm = (ds, fin, tm') \<Longrightarrow> i < length ds \<Longrightarrow>
     unat d \<le> unat (reconnect_max_ms cfg) \<Longrightarrow>
     unat (ds ! i) = min (unat d * 2 ^ i) (unat (reconnect_max_ms cfg))"
proof (induction rounds arbitrary: d att tm ds fin tm' i)
  case (Cons r rs)
  show ?case
  proof (cases i)
    case 0
    from Cons.prems(1,2) have "ds ! 0 = d"
      by (auto simp: Let_def split: if_splits option.splits prod.splits sum.splits)
    with 0 Cons.prems(3) show ?thesis by simp
  next
    case (Suc j)
    let ?d = "min (saturating_mul d 2) (reconnect_max_ms cfg)"
    from Cons.prems(1,2) Suc obtain att' tm1 ds1 fin1 tm2 where
      "reconnect_loop x s cfg pid addr rs ?d att' tm1 = (ds1, fin1, tm2)" "ds = d # ds1"
      by (auto simp: Let_def split: if_splits option.splits prod.splits sum.splits)
    with Cons.IH [of ?d att' tm1 ds1 fin1 tm2 j] Cons.prems(2) Suc
    have "unat (ds ! i) = min (min (2 * unat d) (unat (reconnect_max_ms cfg)) * 2 ^ j) (unat (reconnect_max_ms cfg))"
      by (simp add: next_delay)
    also have "\<dots> = min (unat d * 2 ^ i) (unat (reconnect_max_ms cfg))"
      by (subst min_scale) (simp_all add: Suc ac_simps)
    finally show ?thesis .
  qed
qed simp

lemma reconnect_loop_ends:
  "reconnect_loop x s cfg pid addr rounds d att tm = (ds, fin, tm') \<Longrightarrow>
     att < reconnect_max_retries cfg \<Longrightarrow> unat (reconnect_max_retries cfg) \<le> unat att + length rounds \<Longrightarrow>
     fin \<and> length ds \<le> unat (reconnect_max_retries cfg) - unat att"
proof (induction rounds arbitrary: d att tm ds fin tm')
  case Nil
  then show ?case by (simp add: word_less_nat_alt)
next
  case (Cons r rs)
  have att: "unat (saturating_add att 1) = Suc (unat att)"
    using Cons.prems(2) unat_below [of "reconnect_max_retries cfg"] by (simp add: saturating_add_unat word_less_nat_alt)
  show ?case
  proof (cases "length ds \<le> 1 \<and> fin")
    case True
    with Cons.prems(2) show ?thesis unfolding word_less_nat_alt by linarith
  next
    case False
    with Cons.prems(1) obtain d' tm1 ds1 fin1 tm2 where
      rest: "reconnect_loop x s cfg pid addr rs d' (saturating_add att 1) tm1 = (ds1, fin1, tm2)" "ds = d # ds1" "fin = fin1"
      and "\<not> (reconnect_max_retries cfg > 0 \<and> saturating_add att 1 \<ge> reconnect_max_retries cfg)"
      by (auto simp: Let_def split: if_splits option.splits prod.splits sum.splits)
    then have "saturating_add att 1 < reconnect_max_retries cfg"
      using Cons.prems(2) by (auto simp: not_le word_less_nat_alt)
    from Cons.IH [OF rest(1) this] Cons.prems(2,3) att rest(2,3) show ?thesis
      unfolding word_less_nat_alt by auto
  qed
qed

section \<open>Properties\<close>

definition quiet_env :: "RawPacket \<Rightarrow> conn_env" where
  "quiet_env p = \<lparr>ce_windows = False, ce_setup = (\<lambda>_. None), ce_connect = CnOk, ce_read = RdPacket p,
     ce_send = (\<lambda>_. None), ce_clock = 0, ce_other = (\<lambda>_ tm. tm)\<rparr>"

definition demo_text :: addr_text where
  "demo_text = \<lparr>parse_addr = (\<lambda>_. Inr (demo_addr 4000)), show_addr = (\<lambda>_. ''127.0.0.1:4000'')\<rparr>"

definition demo_ext :: ext where
  "demo_ext = table_ext [Handshake ''a'' 4000 1 ''s'', HandshakeAck ''b'' 4000 True None, Handshake ''a'' 4000 1 ''other'',
     HandshakeAck ''b'' 4000 False (Some ''session_mismatch'')]"

definition demo_packet :: "u16 \<Rightarrow> u8 \<Rightarrow> RawPacket" where
  "demo_packet t i = \<lparr>pkt_type = t, pkt_flags = 0, pkt_payload = [i]\<rparr>"

lemma quiet_env_simps [simp]: "undisturbed (quiet_env p)" "healthy (quiet_env p)" "ce_read (quiet_env p) = RdPacket p"
  by (simp_all add: quiet_env_def undisturbed_def healthy_def)

lemma demo_transport_fields [simp]:
  "tm_local_peer_id (demo_transport n) = PeerId n" "tm_session_id (demo_transport n) = ''s''"
  "tm_config (demo_transport n) = config_default" "tm_connections (demo_transport n) = []"
  "pkt_type (demo_packet t i) = t" "0 < max_connections config_default"
  "tm_listener_addr (demo_transport n) = demo_addr 4000" "port (demo_addr q) = q" "tm_next (demo_transport n) = 0"
  by (simp_all add: demo_transport_def transport_new_def demo_addr_def demo_packet_def config_default_def)

lemma demo_codec:
  "encode_internal demo_ext (Handshake ''a'' 4000 1 ''s'') (cfg_max_message_size config_default) = Inr (demo_packet HANDSHAKE 0)"
  "encode_internal demo_ext (HandshakeAck ''b'' 4000 True None) (cfg_max_message_size config_default) = Inr (demo_packet HANDSHAKE_ACK 1)"
  "decode_internal demo_ext (demo_packet t 2) = Inr (Handshake ''a'' 4000 1 ''other'')"
  "encode_internal demo_ext (HandshakeAck ''b'' 4000 False (Some ''session_mismatch'')) (cfg_max_message_size config_default)
     = Inr (demo_packet HANDSHAKE_ACK 3)"
  by (simp_all add: encode_internal_def decode_internal_def demo_ext_def table_ext_def demo_packet_def len_u32_def config_default_def)

text \<open>
  C18: Only compatible peers are admitted. If an undisturbed incoming control connection changes the connection
  table, then its first message was a handshake of this protocol version and of this session, from a peer that was not
  yet connected; the table gains exactly that peer, at the caller's address with the announced port; and
  the number of connections stays within the configured limit.
\<close>

theorem only_compatible_peers_admitted:
  assumes "transport_inv tm" "undisturbed env" "ce_read env = RdPacket p" "pkt_type p \<noteq> DATA_CHANNEL_HANDSHAKE"
    and "handle_incoming_connection x s env addr tm = (r, w, tm')" "tm_connections tm' \<noteq> tm_connections tm"
  shows "\<exists>n prt c. decode_internal x p = Inr (Handshake n prt PROTOCOL_VERSION (tm_session_id tm))
    \<and> \<not> tm_has_peer tm (PeerId n) \<and> r = Inr ()
    \<and> hm_get (tm_connections tm') = (hm_get (tm_connections tm))(PeerId n \<mapsto> c)
    \<and> pi_addr (conn_info c) = SocketAddr (ip addr) prt
    \<and> connection_count tm' \<le> max_connections (tm_config tm)"
proof -
  have other: "ce_other env i t = t" for i t using assms(2) by (simp add: undisturbed_def)
  have step: "admit_handshake x s env addr p tm = (r, w, tm')"
    using assms(3-6) by (auto simp: handle_incoming_connection_def split: sum.splits)
  note step = step [unfolded admit_handshake_def Let_def other]
  obtain msg where msg: "decode_internal x p = Inr msg" and lim: "connection_count tm < max_connections (tm_config tm)"
    using step assms(6) by (auto split: sum.splits if_splits)
  obtain ph w1 tm1 where ph: "process_handshake_message x s env msg tm = (ph, w1, tm1)" by (metis surj_pair)
  have [simp]: "tm1 = tm" using process_handshake_undisturbed [OF assms(2), of x s msg tm] ph by simp
  obtain pid prt notify where ok: "ph = Inr (pid, prt, notify)"
    using step assms(6) msg lim ph by (cases ph) auto
  obtain rr tm2 where reg: "register_connection (ce_clock env) pid (SocketAddr (ip addr) prt) tm = (rr, tm2)" by fastforce
  have reg': "register_connection (ce_clock env) pid (SocketAddr (ip addr) prt) tm = (Inr (), tm2)"
  proof (cases rr)
    case (Inl e)
    with register_connection_error [OF reg [unfolded Inl]] step assms(6) msg lim ph ok reg show ?thesis by simp
  qed (use reg in simp)
  with step msg lim ph ok have res: "r = Inr ()" "tm' = offer_incoming pid notify tm2" by simp_all
  have "connection_count tm' \<le> max_connections (tm_config tm)"
    using register_connection_count [OF _ reg'] assms(1) lim res(2) by (simp add: transport_inv_def connection_count_def)
  with process_handshake_ok [OF ph [unfolded ok] assms(2)] register_connection_result [OF reg'] msg res
  show ?thesis by (intro exI [of _ "as_str pid"] exI [of _ prt] exI) auto
qed

text \<open>
  A stranger is turned away. A handshake of another session is answered with a refusing acknowledgement that names
  the reason, the handler reports the mismatch, and the connection table is untouched; a wrong protocol version is refused
  in the same way before the session is looked at.
\<close>

theorem foreign_session_refused:
  assumes "undisturbed env" "healthy env" "ce_read env = RdPacket p" "pkt_type p \<noteq> DATA_CHANNEL_HANDSHAKE"
    and "connection_count tm < max_connections (tm_config tm)"
    and "decode_internal x p = Inr (Handshake n prt ver sess)" "ver \<noteq> PROTOCOL_VERSION \<or> sess \<noteq> tm_session_id tm"
    and "reason = (if ver \<noteq> PROTOCOL_VERSION then version_text ver else ''session_mismatch'')"
    and "encode_internal x (HandshakeAck (as_str (tm_local_peer_id tm)) (port (tm_listener_addr tm)) False (Some reason))
           (cfg_max_message_size (tm_config tm)) = Inr nack"
  shows "handle_incoming_connection x s env addr tm =
    (Inl (if ver \<noteq> PROTOCOL_VERSION then VersionMismatch PROTOCOL_VERSION ver else SessionMismatch (tm_session_id tm) sess),
     [nack], tm)"
  using assms
  by (auto simp: handle_incoming_connection_def admit_handshake_def undisturbed_def healthy_def process_handshake_message_def refuse_def
      ack_msg_def encode_for_def)

theorem foreign_session_refused_witness:
  "handle_incoming_connection demo_ext demo_text (quiet_env (demo_packet HANDSHAKE 2)) (demo_addr 9) (demo_transport ''b'')
     = (Inl (SessionMismatch ''s'' ''other''), [demo_packet HANDSHAKE_ACK 3], demo_transport ''b'')"
  using foreign_session_refused [of "quiet_env (demo_packet HANDSHAKE 2)" "demo_packet HANDSHAKE 2" "demo_transport ''b''"
      demo_ext "''a''" 4000 1 "''other''" _ "demo_packet HANDSHAKE_ACK 3" demo_text "demo_addr 9", OF _ _ _ _ _ _ _ refl]
  by (simp add: demo_codec PROTOCOL_VERSION_def connection_count_def HANDSHAKE_def DATA_CHANNEL_HANDSHAKE_def)

lemma register_new:
  "\<not> tm_has_peer tm q \<Longrightarrow> \<exists>tm'. register_connection now q a tm = (Inr (), tm') \<and>
     map_option (pi_addr \<circ> conn_info) (hm_get (tm_connections tm') q) = Some a \<and> tm_incoming tm' = tm_incoming tm"
  by (simp add: register_connection_def Let_def tm_has_peer_def hm_lookup spawn_def)



lemma demo_process:
  "tm_session_id tm = ''s'' \<Longrightarrow> tm_config tm = config_default\<lparr>max_connections := k\<rparr> \<Longrightarrow> tm_connections tm = [] \<Longrightarrow>
   tm_local_peer_id tm = PeerId ''b'' \<Longrightarrow> port (tm_listener_addr tm) = 4000 \<Longrightarrow>
   ce_send env = (\<lambda>_. None) \<Longrightarrow> ce_other env 1 tm = tm \<Longrightarrow> ce_other env 2 tm = tm \<Longrightarrow>
   process_handshake_message demo_ext demo_text env (Handshake ''a'' 4000 1 ''s'') tm
     = (Inr (PeerId ''a'', 4000, demo_packet HANDSHAKE 0), [demo_packet HANDSHAKE_ACK 1], tm)"
  using demo_codec(1,2)
  by (simp add: process_handshake_message_def Let_def PROTOCOL_VERSION_def hm_contains_def ack_msg_def encode_for_def
      get_peer_list_for_sync_def config_default_def)

lemma demo_decode: "decode_internal demo_ext (demo_packet t 0) = Inr (Handshake ''a'' 4000 1 ''s'')"
  by (simp add: decode_internal_def demo_ext_def table_ext_def demo_packet_def)

lemma demo_admitted:
  "\<exists>w tm'. handle_incoming_connection demo_ext demo_text (quiet_env (demo_packet HANDSHAKE 0)) (demo_addr 9) (demo_transport ''b'')
     = (Inr (), w, tm') \<and> tm_connections tm' \<noteq> []"
proof -
  have "process_handshake_message demo_ext demo_text (quiet_env (demo_packet HANDSHAKE 0)) (Handshake ''a'' 4000 1 ''s'') (demo_transport ''b'')
     = (Inr (PeerId ''a'', 4000, demo_packet HANDSHAKE 0), [demo_packet HANDSHAKE_ACK 1], demo_transport ''b'')"
    by (rule demo_process [where k = "max_connections config_default"]) (simp_all add: quiet_env_def)
  moreover have "configure_socket False (\<lambda>_. None) config_default = Inr ()" by simp
  ultimately show ?thesis
    by (simp add: handle_incoming_connection_def admit_handshake_def quiet_env_def connection_count_def demo_decode
        HANDSHAKE_def DATA_CHANNEL_HANDSHAKE_def register_connection_def Let_def hm_contains_def hm_insert_def)
qed

theorem only_compatible_peers_admitted_witness:
  "\<exists>n prt. decode_internal demo_ext (demo_packet HANDSHAKE 0) = Inr (Handshake n prt PROTOCOL_VERSION ''s'')"
proof -
  obtain w tm' where "handle_incoming_connection demo_ext demo_text (quiet_env (demo_packet HANDSHAKE 0)) (demo_addr 9) (demo_transport ''b'')
     = (Inr (), w, tm')" "tm_connections tm' \<noteq> tm_connections (demo_transport ''b'')"
    using demo_admitted by auto
  from only_compatible_peers_admitted [OF demo_transport_inv _ _ _ this] show ?thesis
    by (auto simp: HANDSHAKE_def DATA_CHANNEL_HANDSHAKE_def)
qed

text \<open>
  The connection limit can be overrun. The limit is checked once, before the handshake, and not again when
  the connection is registered: if another handshake registers its peer in between, the handler still registers
  its own and the table holds more connections than configured.
\<close>

theorem connection_limit_overrun:
  "\<exists>x s env addr tm w tm'. connection_count tm < max_connections (tm_config tm)
     \<and> (\<forall>i t. ce_other env i t = (if i = 3 then snd (register_connection 0 (PeerId ''c'') (demo_addr 7) t) else t))
     \<and> handle_incoming_connection x s env addr tm = (Inr (), w, tm')
     \<and> max_connections (tm_config tm') < connection_count tm'"
proof -
  let ?tm = "(demo_transport ''b'')\<lparr>tm_config := config_default\<lparr>max_connections := 1\<rparr>\<rparr>"
  let ?env = "(quiet_env (demo_packet HANDSHAKE 0))\<lparr>ce_other := \<lambda>i t. if i = 3 then snd (register_connection 0 (PeerId ''c'') (demo_addr 7) t) else t\<rparr>"
  have p: "process_handshake_message demo_ext demo_text ?env (Handshake ''a'' 4000 1 ''s'') ?tm
     = (Inr (PeerId ''a'', 4000, demo_packet HANDSHAKE 0), [demo_packet HANDSHAKE_ACK 1], ?tm)"
    by (rule demo_process [where k = 1]) (simp_all add: quiet_env_def)
  then have "\<exists>w tm'. handle_incoming_connection demo_ext demo_text ?env (demo_addr 9) ?tm = (Inr (), w, tm')
      \<and> max_connections (tm_config tm') < connection_count tm'"
    by (simp add: handle_incoming_connection_def admit_handshake_def quiet_env_def connection_count_def demo_decode
        HANDSHAKE_def DATA_CHANNEL_HANDSHAKE_def register_connection_def Let_def hm_contains_def hm_insert_def hm_get_def
        spawn_def offer_incoming_def)
  then obtain w tm' where "handle_incoming_connection demo_ext demo_text ?env (demo_addr 9) ?tm = (Inr (), w, tm')"
    "max_connections (tm_config tm') < connection_count tm'" by blast
  moreover have "connection_count ?tm < max_connections (tm_config ?tm)" by (simp add: connection_count_def)
  ultimately show ?thesis by (intro exI conjI) auto
qed

text \<open>
  C27: The reconnection delays back off exponentially. With a validated configuration the \<open>i\<close>-th delay is
  the initial delay times \<open>2 ^ i\<close>, cut off at the configured maximum: it never overflows and never exceeds the maximum.
\<close>

theorem reconnect_backoff:
  assumes "config_ok (tm_config tm)" "spawn_reconnect x s pid addr rounds tm = (ds, fin, tm')" "i < length ds"
  shows "unat (ds ! i) = min (unat (reconnect_initial_ms (tm_config tm)) * 2 ^ i) (unat (reconnect_max_ms (tm_config tm)))"
  using reconnect_loop_delays [OF assms(2) [unfolded spawn_reconnect_def] assms(3)] assms(1) by (simp add: config_ok_def)

definition failing_round :: reconnect_round where
  "failing_round = \<lparr>rr_meanwhile = (\<lambda>tm. tm), rr_sleep_cancelled = False, rr_dropped = None,
     rr_env = (quiet_env (demo_packet 1 1))\<lparr>ce_connect := CnErr ''refused''\<rparr>\<rparr>"

lemma failing_connect:
  "connection_count tm < max_connections (tm_config tm) \<Longrightarrow>
     connect_to x demo_text (rr_env failing_round) addr tm = (Inl (ConnectionFailed (''TCP connect failed: '' @ ''refused'')), [], tm)"
  by (simp add: connect_to_def failing_round_def quiet_env_def demo_text_def)

theorem reconnect_backoff_witness:
  "unat (fst (spawn_reconnect demo_ext demo_text (PeerId ''b'') ''addr'' (replicate 6 failing_round) (demo_transport ''a'')) ! 5) = 30000"
proof -
  let ?tm = "demo_transport ''a''"
  obtain ds fin tm' where r: "spawn_reconnect demo_ext demo_text (PeerId ''b'') ''addr'' (replicate 6 failing_round) ?tm = (ds, fin, tm')"
    by (metis surj_pair)
  have "config_ok (tm_config ?tm)" by (simp add: config_ok_def config_default_def)
  moreover have round: "rr_meanwhile failing_round = (\<lambda>tm. tm)" "\<not> rr_sleep_cancelled failing_round" "rr_dropped failing_round = None"
    by (simp_all add: failing_round_def)
  have "auto_reconnect_enabled ?tm" by (simp add: demo_transport_def transport_new_def config_default_def)
  then have "5 < length ds"
    using r failing_connect [of ?tm demo_ext "''addr''"]
    by (auto simp: spawn_reconnect_def numeral_eq_Suc round Let_def connection_count_def config_default_def [THEN arg_cong [where f = reconnect_max_retries]]
        split: prod.splits)
  ultimately have "unat (ds ! 5) = 30000"
    using reconnect_backoff [OF _ r, of 5] by (simp add: config_default_def)
  with r show ?thesis by simp
qed

text \<open>
  C28: Reconnection gives up. With a positive retry limit the loop ends, whatever the connection attempts do, after
  at most that many rounds.
\<close>

theorem reconnect_gives_up:
  assumes "0 < reconnect_max_retries (tm_config tm)" "unat (reconnect_max_retries (tm_config tm)) \<le> length rounds"
    and "spawn_reconnect x s pid addr rounds tm = (ds, fin, tm')"
  shows "fin \<and> length ds \<le> unat (reconnect_max_retries (tm_config tm))"
  using reconnect_loop_ends [OF assms(3) [unfolded spawn_reconnect_def] assms(1)] assms(2) by simp

theorem reconnect_gives_up_witness:
  "fst (snd (spawn_reconnect demo_ext demo_text (PeerId ''b'') ''addr'' (replicate 3 failing_round)
     ((demo_transport ''a'')\<lparr>tm_config := config_default\<lparr>reconnect_max_retries := 3\<rparr>\<rparr>)))"
proof -
  let ?tm = "(demo_transport ''a'')\<lparr>tm_config := config_default\<lparr>reconnect_max_retries := 3\<rparr>\<rparr>"
  obtain ds fin tm' where r: "spawn_reconnect demo_ext demo_text (PeerId ''b'') ''addr'' (replicate 3 failing_round) ?tm = (ds, fin, tm')"
    by (metis surj_pair)
  from reconnect_gives_up [OF _ _ r] have fin by simp
  with r show ?thesis by simp
qed

text \<open>
  A peer that has come back by itself is reported as lost. If the peer is already registered again when the last
  permitted attempt completes its handshake, the attempt fails as already connected, the loop counts that as a failure and
  announces that the retries are exhausted, although the peer is connected.
\<close>

theorem reconnect_reports_connected_peer_lost:
  assumes "tm_has_peer tm pid" "auto_reconnect_enabled tm" "connection_count tm < max_connections (tm_config tm)"
    and "reconnect_max_retries (tm_config tm) = 1" "parse_addr s addr = Inr sock"
    and "rr_meanwhile r = (\<lambda>t. t)" "\<not> rr_sleep_cancelled r" "rr_dropped r = None"
    and "undisturbed (rr_env r)" "healthy (rr_env r)" "ce_read (rr_env r) = RdPacket ack"
    and "encode_for x tm (Handshake (as_str (tm_local_peer_id tm)) (port (tm_listener_addr tm)) PROTOCOL_VERSION (tm_session_id tm)) = Inr h"
    and "receive_handshake_ack x ack tm = Inr (pid, prt, notify)"
    and "spawn_reconnect x s pid addr [r] tm = (ds, fin, tm')"
  shows "fin \<and> last (tm_reconnect_events tm') = (pid, 2) \<and> tm_has_peer tm' pid"
proof -
  have "fst (connect_to x s (rr_env r) addr tm) = Inl (AlreadyConnected (as_str pid))"
    and keep: "tm_has_peer (snd (snd (connect_to x s (rr_env r) addr tm))) pid"
    using assms(1,3,5,9-13)
    by (simp_all add: connect_to_def undisturbed_def healthy_def register_connection_def tm_has_peer_def)
  then obtain w tm1 where "connect_to x s (rr_env r) addr tm = (Inl (AlreadyConnected (as_str pid)), w, tm1)" "tm_has_peer tm1 pid"
    by (metis fst_conv snd_conv surj_pair)
  with assms(2,4,6-8,14) show ?thesis
    by (auto simp: spawn_reconnect_def Let_def saturating_add_def reconnect_event_def tm_has_peer_def)
qed

theorem reconnect_reports_connected_peer_lost_witness:
  "let tm = (snd (register_connection 0 (PeerId ''b'') (demo_addr 4000) (demo_transport ''a'')))\<lparr>tm_config := config_default\<lparr>reconnect_max_retries := 1\<rparr>\<rparr>;
       r = \<lparr>rr_meanwhile = (\<lambda>t. t), rr_sleep_cancelled = False, rr_dropped = None, rr_env = quiet_env (demo_packet HANDSHAKE_ACK 1)\<rparr>;
       tm' = snd (snd (spawn_reconnect demo_ext demo_text (PeerId ''b'') ''x'' [r] tm)) in
   tm_has_peer tm' (PeerId ''b'') \<and> last (tm_reconnect_events tm') = (PeerId ''b'', 2)"
proof -
  let ?tm = "(snd (register_connection 0 (PeerId ''b'') (demo_addr 4000) (demo_transport ''a'')))\<lparr>tm_config := config_default\<lparr>reconnect_max_retries := 1\<rparr>\<rparr>"
  let ?r = "\<lparr>rr_meanwhile = (\<lambda>t :: TransportManager. t), rr_sleep_cancelled = False, rr_dropped = None, rr_env = quiet_env (demo_packet HANDSHAKE_ACK 1)\<rparr>"
  obtain ds fin tm' where r: "spawn_reconnect demo_ext demo_text (PeerId ''b'') ''x'' [?r] ?tm = (ds, fin, tm')" by (metis surj_pair)
  have f: "tm_has_peer ?tm (PeerId ''b'')" "auto_reconnect_enabled ?tm" "connection_count ?tm < max_connections (tm_config ?tm)"
    "tm_local_peer_id ?tm = PeerId ''a''" "tm_session_id ?tm = ''s''" "tm_listener_addr ?tm = demo_addr 4000"
    by (simp_all add: register_connection_def Let_def tm_has_peer_def hm_contains_def hm_get_def hm_insert_def spawn_def
        connection_count_def config_default_def) (simp_all add: demo_transport_def transport_new_def config_default_def)
  have mx: "cfg_max_message_size (tm_config ?tm) = cfg_max_message_size config_default" by (simp add: config_default_def)
  have "decode_internal demo_ext (demo_packet HANDSHAKE_ACK 1) = Inr (HandshakeAck ''b'' 4000 True None)"
    by (simp add: decode_internal_def demo_ext_def table_ext_def demo_packet_def)
  then have ack: "receive_handshake_ack demo_ext (demo_packet HANDSHAKE_ACK 1) ?tm = Inr (PeerId ''b'', 4000, demo_packet HANDSHAKE_ACK 1)"
    using demo_codec(2) by (simp add: receive_handshake_ack_def encode_for_def mx)
  have hs: "encode_for demo_ext ?tm (Handshake (as_str (tm_local_peer_id ?tm)) (port (tm_listener_addr ?tm)) PROTOCOL_VERSION (tm_session_id ?tm))
      = Inr (demo_packet HANDSHAKE 0)"
    using demo_codec(1) by (simp add: encode_for_def mx f PROTOCOL_VERSION_def)
  have "fin \<and> last (tm_reconnect_events tm') = (PeerId ''b'', 2) \<and> tm_has_peer tm' (PeerId ''b'')"
    by (rule reconnect_reports_connected_peer_lost [OF f(1-3) _ _ _ _ _ _ _ _ hs ack r]) (simp_all add: demo_text_def)
  with r show ?thesis by (simp add: Let_def)
qed

end
