(* ===== verification/Discovery.thy ===== *)
theory Discovery
  imports Membership Handshake_Protocol
begin

text \<open>
  Discovery on the local network (\<^verbatim>\<open>src/discovery.rs\<close>): the service name a node advertises, the filter that
  decides whom to call, and the browse loop. The mDNS daemon is third-party code: its answers are arguments, and what the node asks of
  it is part of the result. Strings are byte strings; \<open>utf8_ok\<close> is the well-formedness that every Rust string has.
\<close>

section \<open>UTF-8\<close>

definition continuation :: "nat \<Rightarrow> bool" where
  "continuation b \<longleftrightarrow> 0x80 \<le> b \<and> b \<le> 0xBF"

definition second_ok :: "nat \<Rightarrow> nat \<Rightarrow> bool" where
  "second_ok b0 b1 \<longleftrightarrow> continuation b1
     \<and> (b0 = 0xE0 \<longrightarrow> 0xA0 \<le> b1) \<and> (b0 = 0xED \<longrightarrow> b1 \<le> 0x9F) \<and> (b0 = 0xF0 \<longrightarrow> 0x90 \<le> b1) \<and> (b0 = 0xF4 \<longrightarrow> b1 \<le> 0x8F)"

fun utf8_bytes :: "nat list \<Rightarrow> bool" where
  "utf8_bytes [] = True"
| "utf8_bytes (b0 # r) =
     (if b0 < 0x80 then utf8_bytes r
      else if 0xC2 \<le> b0 \<and> b0 \<le> 0xDF then
        (case r of b1 # r1 \<Rightarrow> continuation b1 \<and> utf8_bytes r1 | _ \<Rightarrow> False)
      else if 0xE0 \<le> b0 \<and> b0 \<le> 0xEF then
        (case r of b1 # b2 # r2 \<Rightarrow> second_ok b0 b1 \<and> continuation b2 \<and> utf8_bytes r2 | _ \<Rightarrow> False)
      else if 0xF0 \<le> b0 \<and> b0 \<le> 0xF4 then
        (case r of b1 # b2 # b3 # r3 \<Rightarrow> second_ok b0 b1 \<and> continuation b2 \<and> continuation b3 \<and> utf8_bytes r3 | _ \<Rightarrow> False)
      else False)"

definition utf8_ok :: "string \<Rightarrow> bool" where
  "utf8_ok s = utf8_bytes (map of_char s)"

text \<open>\<^verbatim>\<open>str::is_char_boundary\<close>: the ends of the string, or an index at which no continuation byte stands.\<close>

definition is_char_boundary :: "string \<Rightarrow> nat \<Rightarrow> bool" where
  "is_char_boundary s i \<longleftrightarrow> i = 0 \<or> i = length s \<or> (i < length s \<and> \<not> continuation (of_char (s ! i)))"

section \<open>Definitions\<close>

definition SERVICE_TYPE :: string where
  "SERVICE_TYPE = ''_meta-mystia._tcp.local.''"

definition MAX_DNS_LABEL_BYTES :: nat where
  "MAX_DNS_LABEL_BYTES = 63"

text \<open>\<^verbatim>\<open>while !s.is_char_boundary(end) { end -= 1 }\<close>; the loop stops at index 0 at the latest.\<close>

fun boundary_below :: "string \<Rightarrow> nat \<Rightarrow> nat" where
  "boundary_below s 0 = 0"
| "boundary_below s (Suc i) = (if is_char_boundary s (Suc i) then Suc i else boundary_below s i)"

definition dns_label_truncate :: "string \<Rightarrow> string" where
  "dns_label_truncate s =
     (if length s \<le> MAX_DNS_LABEL_BYTES then s else take (boundary_below s MAX_DNS_LABEL_BYTES) s)"

definition fnv1a_64 :: "string \<Rightarrow> u64" where
  "fnv1a_64 s = fold (\<lambda>b h. (h XOR word_of_nat (of_char b)) * 0x00000100000001b3) s 0xcbf29ce484222325"

definition hex_digit :: "nat \<Rightarrow> char" where
  "hex_digit d = char_of (if d < 10 then 48 + d else 87 + d)"

definition hex16 :: "u64 \<Rightarrow> string" where
  "hex16 w = map (\<lambda>i. hex_digit (unat w div 16 ^ (15 - i) mod 16)) [0..<16]"

definition make_unique_dns_label :: "string \<Rightarrow> string" where
  "make_unique_dns_label s =
     (if length s \<le> MAX_DNS_LABEL_BYTES then s
      else take (boundary_below s (MAX_DNS_LABEL_BYTES - 17)) s @ ''_'' @ hex16 (fnv1a_64 s))"

record DiscoveryManager =
  dm_local_peer_id :: PeerId
  dm_session_id :: string
  dm_instance_name :: string
  dm_listen_port :: u16

definition discovery_new :: "string option \<Rightarrow> PeerId \<Rightarrow> string \<Rightarrow> u16 \<Rightarrow> NetworkError + DiscoveryManager" where
  "discovery_new daemon_error local_id session listen_port =
     (case daemon_error of
        Some e \<Rightarrow> Inl (Internal (''failed to create mDNS daemon: '' @ e))
      | None \<Rightarrow> Inr
          \<lparr>dm_local_peer_id = local_id, dm_session_id = session,
           dm_instance_name = make_unique_dns_label (session @ ''_'' @ as_str local_id),
           dm_listen_port = listen_port\<rparr>)"

record ServiceInfo =
  si_type :: string
  si_instance :: string
  si_host :: string
  si_port :: u16
  si_properties :: "(string \<times> string) list"

text \<open>
  \<open>host\<close> is the answer of \<^verbatim>\<open>hostname::get()\<close>; \<open>create\<close> and \<open>register\<close> are the errors of the two calls to the mDNS crate.
\<close>

definition register_service ::
  "string option \<Rightarrow> (ServiceInfo \<Rightarrow> string option) \<Rightarrow> (ServiceInfo \<Rightarrow> string option) \<Rightarrow> DiscoveryManager \<Rightarrow> NetworkError + ServiceInfo" where
  "register_service host create register dm =
     (let hostname_raw = (case host of Some h \<Rightarrow> h | None \<Rightarrow> ''unknown'');
          hostname = dns_label_truncate hostname_raw;
          info = \<lparr>si_type = SERVICE_TYPE, si_instance = dm_instance_name dm, si_host = hostname @ ''.local.'',
                  si_port = dm_listen_port dm,
                  si_properties = [(''peer_id'', as_str (dm_local_peer_id dm)), (''session_id'', dm_session_id dm),
                                   (''protocol_version'', show_nat (unat PROTOCOL_VERSION))]\<rparr> in
      case create info of
        Some e \<Rightarrow> Inl (Internal (''failed to create service info: '' @ e))
      | None \<Rightarrow>
         (case register info of
            Some e \<Rightarrow> Inl (Internal (''failed to register mDNS service: '' @ e))
          | None \<Rightarrow> Inr info))"

definition should_connect_to_discovered_peer ::
  "PeerId \<Rightarrow> string \<Rightarrow> string \<Rightarrow> string \<Rightarrow> MembershipManager \<Rightarrow> TransportManager \<Rightarrow> bool" where
  "should_connect_to_discovered_peer local_id local_session peer session mm tm =
     (if session \<noteq> local_session then False
      else if peer = as_str local_id then False
      else if has_peer mm (PeerId peer) \<or> tm_has_peer tm (PeerId peer) then False
      else if as_str local_id > peer then False
      else True)"

text \<open>
  One event of the browse loop: the target to call, if any. \<open>ServiceResolved\<close> carries the properties, the
  textual addresses in the order the set yields them, and the port.
\<close>

datatype ServiceEvent =
    ServiceResolved "(string \<times> string) list" "string list" u16
  | ServiceRemoved
  | OtherServiceEvent

definition on_service_event ::
  "PeerId \<Rightarrow> string \<Rightarrow> MembershipManager \<Rightarrow> TransportManager \<Rightarrow> ServiceEvent \<Rightarrow> string option" where
  "on_service_event local_id local_session mm tm ev =
     (case ev of
        ServiceResolved props addrs prt \<Rightarrow>
         (case (map_of props ''session_id'', map_of props ''peer_id'') of
            (Some session, Some peer) \<Rightarrow>
              if should_connect_to_discovered_peer local_id local_session peer session mm tm
              then (case addrs of [] \<Rightarrow> None | a # _ \<Rightarrow> Some (a @ '':'' @ show_nat (unat prt)))
              else None
          | _ \<Rightarrow> None)
      | ServiceRemoved \<Rightarrow> None
      | OtherServiceEvent \<Rightarrow> None)"

text \<open>
  The loop ends when the shutdown token fires or the daemon's channel is closed. Each entry is what the next
  \<^verbatim>\<open>select!\<close> yields, with the tables at that moment.
\<close>

datatype browse_input = BrowseCancelled | BrowseClosed | BrowseEvent ServiceEvent MembershipManager TransportManager

fun browse_loop :: "PeerId \<Rightarrow> string \<Rightarrow> browse_input list \<Rightarrow> string list" where
  "browse_loop l sess [] = []"
| "browse_loop l sess (BrowseCancelled # is) = []"
| "browse_loop l sess (BrowseClosed # is) = []"
| "browse_loop l sess (BrowseEvent ev mm tm # is) =
     (case on_service_event l sess mm tm ev of
        None \<Rightarrow> browse_loop l sess is
      | Some target \<Rightarrow> target # browse_loop l sess is)"

definition unregister_name :: "DiscoveryManager \<Rightarrow> string" where
  "unregister_name dm = dm_instance_name dm @ ''.'' @ SERVICE_TYPE"

definition connect_to_discovery_server :: "string \<Rightarrow> NetworkError + unit" where
  "connect_to_discovery_server server_addr = Inl NotImplemented"

section \<open>Lemmas\<close>

lemma boundary_below_le: "boundary_below s i \<le> i"
  by (induction i) (auto simp: le_SucI)

lemma boundary_below_boundary: "is_char_boundary s (boundary_below s i)"
  by (induction i) (auto simp: is_char_boundary_def)

lemma hex16_length [simp]: "length (hex16 w) = 16"
  by (simp add: hex16_def)

text \<open>A well-formed string starts with one encoded character, whose later bytes are continuation bytes.\<close>

lemma utf8_first_char:
  assumes "utf8_bytes (b0 # r)"
  obtains c r' where "b0 # r = c @ r'" "c \<noteq> []" "utf8_bytes r'" "\<And>i. 0 < i \<Longrightarrow> i < length c \<Longrightarrow> continuation (c ! i)"
    and "\<And>q. utf8_bytes q \<Longrightarrow> utf8_bytes (c @ q)"
proof -
  consider (one) "b0 < 0x80" | (two) "0xC2 \<le> b0" "b0 \<le> 0xDF" | (three) "0xE0 \<le> b0" "b0 \<le> 0xEF" | (four) "0xF0 \<le> b0" "b0 \<le> 0xF4"
    using assms by (auto split: if_splits)
  then show ?thesis
  proof cases
    case one
    with assms show ?thesis by (intro that [of "[b0]" r]) auto
  next
    case two
    with assms obtain b1 r1 where "r = b1 # r1" "continuation b1" "utf8_bytes r1" by (auto split: list.splits)
    with two show ?thesis by (intro that [of "[b0, b1]" r1]) (auto simp: less_Suc_eq nth_Cons')
  next
    case three
    with assms obtain b1 b2 r2 where "r = b1 # b2 # r2" "second_ok b0 b1" "continuation b2" "utf8_bytes r2" by (auto split: list.splits)
    with three show ?thesis by (intro that [of "[b0, b1, b2]" r2]) (auto simp: less_Suc_eq nth_Cons' second_ok_def)
  next
    case four
    with assms obtain b1 b2 b3 r3 where "r = b1 # b2 # b3 # r3" "second_ok b0 b1" "continuation b2" "continuation b3" "utf8_bytes r3"
      by (auto split: list.splits)
    with four show ?thesis by (intro that [of "[b0, b1, b2, b3]" r3]) (auto simp: less_Suc_eq nth_Cons' second_ok_def)
  qed
qed

lemma utf8_take_boundary:
  "utf8_bytes bs \<Longrightarrow> n < length bs \<Longrightarrow> \<not> continuation (bs ! n) \<Longrightarrow> utf8_bytes (take n bs)"
proof (induction bs arbitrary: n rule: measure_induct_rule [where f = length])
  case (less bs)
  show ?case
  proof (cases "bs = [] \<or> n = 0")
    case False
    then obtain b0 r where bs: "bs = b0 # r" by (cases bs) auto
    from utf8_first_char [of b0 r] less.prems(1) obtain c r' where c: "bs = c @ r'" "c \<noteq> []" "utf8_bytes r'"
      and cont: "\<And>i. 0 < i \<Longrightarrow> i < length c \<Longrightarrow> continuation (c ! i)" and ext: "\<And>q. utf8_bytes q \<Longrightarrow> utf8_bytes (c @ q)"
      unfolding bs by metis
    have "length c \<le> n" using cont [of n] less.prems(3) False c(1) by (cases "n < length c") (auto simp: nth_append)
    with less.prems c have "n - length c < length r'" "\<not> continuation (r' ! (n - length c))" by (auto simp: nth_append)
    with less.IH [of r' "n - length c"] c have "utf8_bytes (take (n - length c) r')" by simp
    with ext \<open>length c \<le> n\<close> c(1) show ?thesis by simp
  qed auto
qed

lemma utf8_ok_take: "utf8_ok s \<Longrightarrow> is_char_boundary s n \<Longrightarrow> utf8_ok (take n s)"
  unfolding utf8_ok_def is_char_boundary_def take_map [symmetric]
  by (auto intro: utf8_take_boundary)

lemma utf8_ascii: "\<forall>b \<in> set t. b < 0x80 \<Longrightarrow> utf8_bytes t"
  by (induction t) auto

lemma utf8_append_ascii: "utf8_bytes bs \<Longrightarrow> \<forall>b \<in> set t. b < 0x80 \<Longrightarrow> utf8_bytes (bs @ t)"
proof (induction bs rule: measure_induct_rule [where f = length])
  case (less bs)
  show ?case
  proof (cases bs)
    case (Cons b0 r)
    from utf8_first_char [of b0 r] less.prems(1) obtain c r' where c: "bs = c @ r'" "c \<noteq> []" "utf8_bytes r'"
      and ext: "\<And>q. utf8_bytes q \<Longrightarrow> utf8_bytes (c @ q)"
      unfolding Cons by metis
    with less.IH [of r'] less.prems(2) show ?thesis by simp
  qed (use less.prems utf8_ascii in simp)
qed

lemma hex16_ascii: "\<forall>b \<in> set (map of_char (hex16 w)). b < (0x80 :: nat)"
proof -
  have "of_char (hex_digit d) < (0x80 :: nat)" if "d < 16" for d
    using that by (simp add: hex_digit_def)
  then show ?thesis by (auto simp: hex16_def)
qed

lemma label_length: "MAX_DNS_LABEL_BYTES < length s \<Longrightarrow>
   length (make_unique_dns_label s) = boundary_below s (MAX_DNS_LABEL_BYTES - 17) + 17"
  using boundary_below_le [of s "MAX_DNS_LABEL_BYTES - 17"]
  by (simp add: make_unique_dns_label_def MAX_DNS_LABEL_BYTES_def min_def)

lemma label_short: "length (make_unique_dns_label s) \<le> MAX_DNS_LABEL_BYTES"
  using label_length [of s] boundary_below_le [of s "MAX_DNS_LABEL_BYTES - 17"]
  by (cases "MAX_DNS_LABEL_BYTES < length s") (simp_all add: MAX_DNS_LABEL_BYTES_def make_unique_dns_label_def)

lemma label_utf8: "utf8_ok s \<Longrightarrow> utf8_ok (make_unique_dns_label s)"
proof -
  assume s: "utf8_ok s"
  have "utf8_ok (take (boundary_below s n) s)" for n
    by (rule utf8_ok_take [OF s boundary_below_boundary])
  then show ?thesis
    using s hex16_ascii utf8_append_ascii [of "map of_char (take (boundary_below s (MAX_DNS_LABEL_BYTES - 17)) s)"
        "map of_char (''_'' @ hex16 (fnv1a_64 s))"]
    by (auto simp: make_unique_dns_label_def utf8_ok_def)
qed

section \<open>Properties\<close>

text \<open>
  Exactly one side calls. For two distinct nodes of one session that do not know each other yet, each of which discovers the
  other, exactly one decides to connect: the one with the smaller identifier. A node never calls itself, another session or a peer it already
  knows.
\<close>

theorem one_side_calls:
  "(peer \<noteq> as_str a \<and> \<not> has_peer ma (PeerId peer) \<and> \<not> tm_has_peer ta (PeerId peer)
      \<and> \<not> has_peer mb a \<and> \<not> tm_has_peer tb a \<longrightarrow>
    should_connect_to_discovered_peer a sess peer sess ma ta \<noteq> should_connect_to_discovered_peer (PeerId peer) sess (as_str a) sess mb tb)
   \<and> (should_connect_to_discovered_peer a sess peer sess' ma ta \<longrightarrow>
        sess' = sess \<and> PeerId peer \<noteq> a \<and> a < PeerId peer \<and> \<not> has_peer ma (PeerId peer) \<and> \<not> tm_has_peer ta (PeerId peer))"
  by (auto simp: should_connect_to_discovered_peer_def less_PeerId_def)

theorem one_side_calls_witness:
  "should_connect_to_discovered_peer (PeerId ''a'') ''s'' ''b'' ''s'' (membership_new (PeerId ''a'') config_default) (demo_transport ''a'')
   \<and> \<not> should_connect_to_discovered_peer (PeerId ''b'') ''s'' ''a'' ''s'' (membership_new (PeerId ''b'') config_default) (demo_transport ''b'')"
proof -
  have k: "\<not> has_peer (membership_new p config_default) q" "\<not> tm_has_peer (demo_transport n) q" for p q n
    by (simp_all add: has_peer_def membership_new_def tm_has_peer_def hm_contains_def)
  have "should_connect_to_discovered_peer (PeerId ''a'') ''s'' ''b'' ''s'' (membership_new (PeerId ''a'') config_default) (demo_transport ''a'')"
    by (simp add: should_connect_to_discovered_peer_def k less_char_def)
  with one_side_calls [of "''b''" "PeerId ''a''" "membership_new (PeerId ''a'') config_default" "demo_transport ''a''"
      "membership_new (PeerId ''b'') config_default" "demo_transport ''b''" "''s''"] k
  show ?thesis by simp
qed

text \<open>
  C34: Service labels are legal. The label built from any well-formed string is at most 63 bytes long and is itself
  well-formed, so the slice never splits a character; a short string is its own label.
\<close>

theorem dns_label_legal:
  assumes "utf8_ok s"
  shows "length (make_unique_dns_label s) \<le> 63 \<and> utf8_ok (make_unique_dns_label s)
    \<and> length (dns_label_truncate s) \<le> 63 \<and> utf8_ok (dns_label_truncate s) \<and> (\<exists>t. s = dns_label_truncate s @ t)
    \<and> (length s \<le> 63 \<longrightarrow> make_unique_dns_label s = s \<and> dns_label_truncate s = s)"
proof -
  have "length (dns_label_truncate s) \<le> 63"
    using boundary_below_le [of s 63] by (simp add: dns_label_truncate_def MAX_DNS_LABEL_BYTES_def)
  moreover have "utf8_ok (dns_label_truncate s)"
    using assms utf8_ok_take [OF assms boundary_below_boundary] by (simp add: dns_label_truncate_def)
  moreover have "\<exists>t. s = dns_label_truncate s @ t"
    unfolding dns_label_truncate_def by (metis append_Nil2 append_take_drop_id)
  ultimately show ?thesis
    using label_short [of s] label_utf8 [OF assms]
    by (auto simp: MAX_DNS_LABEL_BYTES_def make_unique_dns_label_def dns_label_truncate_def)
qed

theorem dns_label_legal_witness: "length (make_unique_dns_label (replicate 70 CHR ''x'')) \<le> 63"
proof -
  have "utf8_ok (replicate 70 CHR ''x'')" by (simp add: utf8_ok_def utf8_ascii)
  from dns_label_legal [OF this] show ?thesis by blast
qed

text \<open>
  Labels are not unique. The label of every string longer than 63 bytes is also the label of a different string, namely of
  the label itself.
\<close>

theorem dns_label_not_unique:
  assumes "63 < length s"
  shows "make_unique_dns_label s \<noteq> s \<and> make_unique_dns_label (make_unique_dns_label s) = make_unique_dns_label s"
  using assms label_short [of s] by (auto simp: make_unique_dns_label_def [of "make_unique_dns_label s"] MAX_DNS_LABEL_BYTES_def)

theorem dns_label_not_unique_witness:
  "\<exists>s t. s \<noteq> t \<and> make_unique_dns_label s = make_unique_dns_label t"
proof -
  have "63 < length (replicate 70 CHR ''x'')" by simp
  from dns_label_not_unique [OF this] show ?thesis by metis
qed

end
