(* ===== verification/Leader.thy ===== *)
theory Leader
  imports Net_Config
begin

text \<open>
  Leader election on one node (\<^verbatim>\<open>src/leader.rs\<close>). Every operation takes the write lock once
  and is one atomic step on the record \<open>LeaderElection\<close>. A leader-change notification is
  a \<^verbatim>\<open>try_send\<close> whose failure is only logged: \<open>le_notified\<close> is the sequence of
  notifications offered to the channel. \<^verbatim>\<open>current_term\<close> is a 64-bit word and wraps, as in a
  release build.
\<close>

section \<open>Definitions\<close>

datatype Role = Follower | Candidate | Leader

record ElectionState =
  role :: Role
  current_term :: u64
  voted_for :: "PeerId option"
  votes_received :: "PeerId set"
  leader_id :: "PeerId option"
  auto_election_enabled :: bool
  manual_override :: bool

record LeaderElection =
  le_local_peer_id :: PeerId
  le_state :: ElectionState
  le_notified :: "PeerId option list"
  manual_override_recovery :: ManualOverrideRecovery

definition leader_election_new :: "PeerId \<Rightarrow> bool \<Rightarrow> ManualOverrideRecovery \<Rightarrow> LeaderElection" where
  "leader_election_new local_id auto recovery =
     \<lparr>le_local_peer_id = local_id,
      le_state = \<lparr>role = Follower, current_term = 0, voted_for = None, votes_received = {},
                  leader_id = None, auto_election_enabled = auto, manual_override = False\<rparr>,
      le_notified = [],
      manual_override_recovery = recovery\<rparr>"

definition le_role :: "LeaderElection \<Rightarrow> Role" where
  "le_role le = role (le_state le)"

definition le_current_term :: "LeaderElection \<Rightarrow> u64" where
  "le_current_term le = current_term (le_state le)"

definition le_leader_id :: "LeaderElection \<Rightarrow> PeerId option" where
  "le_leader_id le = leader_id (le_state le)"

definition le_is_leader :: "LeaderElection \<Rightarrow> bool" where
  "le_is_leader le \<longleftrightarrow> role (le_state le) = Leader"

definition is_auto_election_enabled :: "LeaderElection \<Rightarrow> bool" where
  "is_auto_election_enabled le = auto_election_enabled (le_state le)"

definition majority_threshold :: "nat \<Rightarrow> nat" where
  "majority_threshold total_nodes = (if total_nodes \<le> 2 then 1 else total_nodes div 2 + 1)"

definition notify_leader_change :: "PeerId option \<Rightarrow> LeaderElection \<Rightarrow> LeaderElection" where
  "notify_leader_change l le = le\<lparr>le_notified := le_notified le @ [l]\<rparr>"

definition become_leader_inner :: "LeaderElection \<Rightarrow> LeaderElection" where
  "become_leader_inner le =
     notify_leader_change (Some (le_local_peer_id le))
       (le\<lparr>le_state := (le_state le)\<lparr>role := Leader, leader_id := Some (le_local_peer_id le),
                                    votes_received := {}\<rparr>\<rparr>)"

definition step_down_inner :: "ElectionState \<Rightarrow> ElectionState" where
  "step_down_inner st = st\<lparr>role := Follower, votes_received := {}\<rparr>"

definition start_election :: "nat \<Rightarrow> LeaderElection \<Rightarrow> (u64 \<times> string) option \<times> LeaderElection" where
  "start_election connected_peer_count le =
     (let st = le_state le in
      if \<not> auto_election_enabled st \<or> manual_override st then (None, le)
      else
        let st1 = st\<lparr>current_term := current_term st + 1, role := Candidate,
                     voted_for := Some (le_local_peer_id le),
                     votes_received := {le_local_peer_id le}\<rparr>;
            le1 = le\<lparr>le_state := st1\<rparr>;
            threshold = majority_threshold (1 + connected_peer_count) in
        if card (votes_received st1) \<ge> threshold then (None, become_leader_inner le1)
        else (Some (current_term st1, as_str (le_local_peer_id le)), le1))"

definition handle_request_vote :: "u64 \<Rightarrow> string \<Rightarrow> LeaderElection \<Rightarrow> (u64 \<times> bool) \<times> LeaderElection" where
  "handle_request_vote trm candidate_id le =
     (let st = le_state le in
      if trm < current_term st then ((current_term st, False), le)
      else
        let st1 = (if trm > current_term st
                   then st\<lparr>current_term := trm, voted_for := None, role := Follower, votes_received := {}\<rparr>
                   else st);
            granted = (case voted_for st1 of None \<Rightarrow> True | Some voted \<Rightarrow> as_str voted = candidate_id);
            st2 = (if granted then st1\<lparr>voted_for := Some (PeerId candidate_id)\<rparr> else st1) in
        ((current_term st2, granted), le\<lparr>le_state := st2\<rparr>))"

definition handle_vote_response ::
  "u64 \<Rightarrow> string \<Rightarrow> bool \<Rightarrow> nat \<Rightarrow> LeaderElection \<Rightarrow> bool \<times> LeaderElection" where
  "handle_vote_response trm voter_id granted connected_peer_count le =
     (let st = le_state le in
      if trm > current_term st then
        (False, le\<lparr>le_state := st\<lparr>current_term := trm, voted_for := None, role := Follower,
                                  votes_received := {}\<rparr>\<rparr>)
      else if role st \<noteq> Candidate \<or> trm \<noteq> current_term st then (False, le)
      else
        let st1 = (if granted then st\<lparr>votes_received := insert (PeerId voter_id) (votes_received st)\<rparr> else st);
            le1 = le\<lparr>le_state := st1\<rparr>;
            threshold = majority_threshold (1 + connected_peer_count) in
        if card (votes_received st1) \<ge> threshold then (True, become_leader_inner le1)
        else (False, le1))"

definition handle_heartbeat :: "u64 \<Rightarrow> string \<Rightarrow> LeaderElection \<Rightarrow> bool \<times> LeaderElection" where
  "handle_heartbeat trm lid le =
     (let st = le_state le in
      if trm < current_term st then (False, le)
      else if manual_override st
              \<and> (case leader_id st of None \<Rightarrow> False | Some current \<Rightarrow> as_str current \<noteq> lid) then (False, le)
      else
        let higher_term = (trm > current_term st);
            st1 = (if higher_term then st\<lparr>current_term := trm, voted_for := None\<rparr> else st) in
        if role st1 = Leader \<and> \<not> (higher_term \<or> as_str (le_local_peer_id le) < lid)
        then (False, le\<lparr>le_state := st1\<rparr>)
        else
          let st2 = (if role st1 = Leader then step_down_inner st1 else st1);
              st3 = (if role st2 \<noteq> Follower then st2\<lparr>role := Follower, votes_received := {}\<rparr> else st2);
              old_leader = leader_id st3;
              new_leader = PeerId lid;
              le1 = le\<lparr>le_state := st3\<lparr>leader_id := Some new_leader\<rparr>\<rparr> in
          (True, if old_leader \<noteq> Some new_leader then notify_leader_change (Some new_leader) le1 else le1))"

text \<open>Both ways of installing a leader by hand end in the same state change.\<close>

definition assign_leader :: "u64 \<Rightarrow> PeerId \<Rightarrow> LeaderElection \<Rightarrow> LeaderElection" where
  "assign_leader trm new_leader le =
     (let st = le_state le;
          old_leader = leader_id st;
          st1 = st\<lparr>current_term := trm, leader_id := Some new_leader, manual_override := True,
                   role := (if new_leader = le_local_peer_id le then Leader else Follower),
                   voted_for := None, votes_received := {}\<rparr>;
          le1 = le\<lparr>le_state := st1\<rparr> in
      if old_leader \<noteq> Some new_leader then notify_leader_change (Some new_leader) le1 else le1)"

definition handle_leader_assign :: "u64 \<Rightarrow> string \<Rightarrow> string \<Rightarrow> LeaderElection \<Rightarrow> LeaderElection" where
  "handle_leader_assign trm lid assigner_id le =
     assign_leader (if trm > current_term (le_state le) then trm else current_term (le_state le)) (PeerId lid) le"

definition set_leader :: "PeerId \<Rightarrow> LeaderElection \<Rightarrow> (u64 \<times> string \<times> string) \<times> LeaderElection" where
  "set_leader lid le =
     (let trm = current_term (le_state le) + 1 in
      ((trm, as_str lid, as_str (le_local_peer_id le)), assign_leader trm lid le))"

definition enable_auto_election :: "bool \<Rightarrow> LeaderElection \<Rightarrow> LeaderElection" where
  "enable_auto_election enable le =
     (let st = le_state le; st1 = st\<lparr>auto_election_enabled := enable\<rparr> in
      le\<lparr>le_state := (if enable \<and> leader_id st1 = None then st1\<lparr>manual_override := False\<rparr> else st1)\<rparr>)"

definition handle_peer_left :: "PeerId \<Rightarrow> LeaderElection \<Rightarrow> LeaderElection" where
  "handle_peer_left pid le =
     (let st = le_state le in
      if leader_id st \<noteq> Some pid then le
      else
        let was_manual = manual_override st;
            st1 = st\<lparr>leader_id := None\<rparr>;
            st2 = (if was_manual then
                     (case manual_override_recovery le of
                        Hold \<Rightarrow> st1
                      | AutoElect \<Rightarrow> st1\<lparr>manual_override := False\<rparr>)
                   else st1) in
        notify_leader_change None (le\<lparr>le_state := st2\<rparr>))"

text \<open>
  The operations as a datatype, so that statements can range over every sequence of calls,
  and the invariant that relates role, vote and known leader.
\<close>

datatype leader_op =
    OpStartElection nat
  | OpRequestVote u64 string
  | OpVoteResponse u64 string bool nat
  | OpHeartbeat u64 string
  | OpLeaderAssign u64 string string
  | OpSetLeader PeerId
  | OpEnableAuto bool
  | OpPeerLeft PeerId

fun leader_exec :: "leader_op \<Rightarrow> LeaderElection \<Rightarrow> LeaderElection" where
  "leader_exec (OpStartElection n) le = snd (start_election n le)"
| "leader_exec (OpRequestVote t c) le = snd (handle_request_vote t c le)"
| "leader_exec (OpVoteResponse t v g n) le = snd (handle_vote_response t v g n le)"
| "leader_exec (OpHeartbeat t l) le = snd (handle_heartbeat t l le)"
| "leader_exec (OpLeaderAssign t l a) le = handle_leader_assign t l a le"
| "leader_exec (OpSetLeader p) le = snd (set_leader p le)"
| "leader_exec (OpEnableAuto b) le = enable_auto_election b le"
| "leader_exec (OpPeerLeft p) le = handle_peer_left p le"

definition leader_inv :: "LeaderElection \<Rightarrow> bool" where
  "leader_inv le \<longleftrightarrow>
     (let st = le_state le; me = le_local_peer_id le in
       finite (votes_received st)
     \<and> (role st \<noteq> Candidate \<longrightarrow> votes_received st = {})
     \<and> (role st = Candidate \<longrightarrow> voted_for st = Some me \<and> me \<in> votes_received st)
     \<and> (role st = Leader \<longrightarrow> leader_id st = Some me))"

section \<open>Lemmas\<close>

named_theorems leader_defs \<open>the election operations, unfolded\<close>

lemmas [leader_defs] =
  start_election_def handle_request_vote_def handle_vote_response_def handle_heartbeat_def
  handle_leader_assign_def set_leader_def assign_leader_def enable_auto_election_def
  handle_peer_left_def become_leader_inner_def step_down_inner_def notify_leader_change_def Let_def

lemma leader_exec_local [simp]:
  "le_local_peer_id (leader_exec op le) = le_local_peer_id le"
  "manual_override_recovery (leader_exec op le) = manual_override_recovery le"
  by (cases op; simp add: leader_defs split: option.split ManualOverrideRecovery.split)+

lemma leader_inv_new: "leader_inv (leader_election_new me auto rec)"
  by (simp add: leader_inv_def leader_election_new_def)

lemma leader_inv_start: "leader_inv le \<Longrightarrow> leader_inv (snd (start_election n le))"
  by (simp add: leader_inv_def leader_defs)

lemma leader_inv_request: "leader_inv le \<Longrightarrow> leader_inv (snd (handle_request_vote t c le))"
  by (auto simp: leader_inv_def leader_defs intro: PeerId.expand split: option.split)

lemma leader_inv_response: "leader_inv le \<Longrightarrow> leader_inv (snd (handle_vote_response t v g n le))"
  by (auto simp: leader_inv_def leader_defs)

lemma leader_inv_heartbeat: "leader_inv le \<Longrightarrow> leader_inv (snd (handle_heartbeat t l le))"
  by (auto simp: leader_inv_def leader_defs split: option.split)

lemma leader_inv_assign: "leader_inv le \<Longrightarrow> leader_inv (assign_leader t l le)"
  by (auto simp: leader_inv_def leader_defs)

lemma leader_inv_enable: "leader_inv le \<Longrightarrow> leader_inv (enable_auto_election b le)"
  by (auto simp: leader_inv_def leader_defs)

lemma leader_inv_left: "leader_inv le \<Longrightarrow> p \<noteq> le_local_peer_id le \<Longrightarrow> leader_inv (handle_peer_left p le)"
  by (auto simp: leader_inv_def leader_defs split: ManualOverrideRecovery.split)

lemma leader_inv_exec:
  "leader_inv le \<Longrightarrow> op \<noteq> OpPeerLeft (le_local_peer_id le) \<Longrightarrow> leader_inv (leader_exec op le)"
  by (cases op)
     (simp_all add: leader_inv_start leader_inv_request leader_inv_response leader_inv_heartbeat
       handle_leader_assign_def leader_inv_assign set_leader_def Let_def leader_inv_enable leader_inv_left)

lemma leader_exec_term:
  "current_term (le_state le) \<noteq> - 1 \<Longrightarrow>
     current_term (le_state le) \<le> current_term (le_state (leader_exec op le))"
  by (cases op) (auto simp: leader_defs less_plus_one less_imp_le split: option.split ManualOverrideRecovery.split)

interpretation leader_steps: invariant_system leader_exec leader_inv "\<lambda>le op. op \<noteq> OpPeerLeft (le_local_peer_id le)"
  by unfold_locales (simp_all add: leader_inv_exec leader_exec_local)

text \<open>
  Every change of the known leader is announced: replaying the notifications gives the
  leader the node currently knows.
\<close>

interpretation leader_events:
  event_sourced leader_exec le_notified "\<lambda>le. leader_id (le_state le)" "\<lambda>l _. l" "\<lambda>_. True"
proof unfold_locales
  fix op le
  show "\<exists>es. le_notified (leader_exec op le) = le_notified le @ es \<and>
      leader_id (le_state (leader_exec op le)) = fold (\<lambda>l _. l) es (leader_id (le_state le))"
    by (cases op) (auto simp: leader_defs split: option.split ManualOverrideRecovery.split)
qed simp

section \<open>Properties\<close>

definition peer_a :: PeerId where "peer_a = PeerId ''a''"
definition peer_b :: PeerId where "peer_b = PeerId ''b''"

text \<open>
  C16: The election invariant. On every node, after any sequence of elections, vote requests and
  responses, heartbeats, assignments, switches of automatic election and departures of other peers: only a
  candidate holds votes, a candidate has voted for itself and counts that vote, and a leader
  names itself as the known leader.
\<close>

theorem election_invariant:
  assumes "OpPeerLeft me \<notin> set ops"
  shows "leader_inv (fold leader_exec ops (leader_election_new me auto rec))"
  using leader_steps.run_keeps [OF leader_inv_new, of me auto rec ops] assms
  by (auto simp: leader_election_new_def list_all_iff)

theorem election_invariant_witness:
  "leader_inv (fold leader_exec [OpStartElection 2, OpVoteResponse 1 ''b'' True 2, OpHeartbeat 3 ''b'', OpPeerLeft peer_b]
     (leader_election_new peer_a True Hold))"
  by (rule election_invariant) (simp add: peer_a_def peer_b_def)


text \<open>
  When a vote is granted: exactly when the request is not from an older term and either opens a new
  term, or the node has not voted in this term, or it has already voted for that candidate. A granted vote
  is recorded under the candidate, and the answer carries the node's resulting term.
\<close>

theorem vote_granted_iff:
  "case handle_request_vote t cand le of ((t', granted), le') \<Rightarrow>
     (granted \<longleftrightarrow> current_term (le_state le) < t \<or>
        t = current_term (le_state le) \<and> voted_for (le_state le) \<in> {None, Some (PeerId cand)})
   \<and> (granted \<longrightarrow> voted_for (le_state le') = Some (PeerId cand))
   \<and> t' = max t (current_term (le_state le)) \<and> current_term (le_state le') = t'"
  by (auto simp: handle_request_vote_def Let_def max_def as_str_eq_iff [symmetric] split: option.split)

theorem vote_granted_iff_witness:
  "fst (handle_request_vote 1 ''b'' (leader_election_new peer_a True Hold)) = (1, True)
   \<and> fst (handle_request_vote 1 ''c'' (snd (handle_request_vote 1 ''b'' (leader_election_new peer_a True Hold)))) = (1, False)"
  using vote_granted_iff [where t = 1 and cand = "''b''" and le = "leader_election_new peer_a True Hold"]
    vote_granted_iff [where t = 1 and cand = "''c''" and le = "snd (handle_request_vote 1 ''b'' (leader_election_new peer_a True Hold))"]
  by (simp add: leader_election_new_def handle_request_vote_def Let_def)

text \<open>
  C22: Two leaders of one term settle on one. When two distinct nodes both lead the same term and each
  receives the other's heartbeat, in either order, the node with the smaller identifier follows the one with the larger, which
  keeps leading, and both name it as leader; a manual override on the smaller node is the one exception and is excluded.
\<close>

theorem tie_break:
  assumes "leader_inv a" "leader_inv b" "le_is_leader a" "le_is_leader b"
    and "le_current_term a = le_current_term b" "le_local_peer_id a < le_local_peer_id b"
    and "\<not> manual_override (le_state a)"
    and "a' = snd (handle_heartbeat (le_current_term b) (as_str (le_local_peer_id b)) a)"
    and "b' = snd (handle_heartbeat (le_current_term a) (as_str (le_local_peer_id a)) b)"
  shows "le_role a' = Follower \<and> le_leader_id a' = Some (le_local_peer_id b)
    \<and> b' = b \<and> le_leader_id b = Some (le_local_peer_id b)"
  using assms
  by (auto simp: handle_heartbeat_def Let_def le_current_term_def le_is_leader_def le_role_def le_leader_id_def
      leader_inv_def step_down_inner_def notify_leader_change_def less_PeerId_def)

theorem tie_break_witness:
  "let a = snd (start_election 0 (leader_election_new peer_a True Hold));
       b = snd (start_election 0 (leader_election_new peer_b True Hold));
       a' = snd (handle_heartbeat 1 ''b'' a); b' = snd (handle_heartbeat 1 ''a'' b) in
   le_is_leader a \<and> le_is_leader b \<and> le_role a' = Follower \<and> le_leader_id a' = Some peer_b \<and> b' = b"
proof -
  let ?a = "snd (start_election 0 (leader_election_new peer_a True Hold))"
  let ?b = "snd (start_election 0 (leader_election_new peer_b True Hold))"
  have "le_is_leader ?a" "le_is_leader ?b" "le_current_term ?a = 1" "le_current_term ?b = 1"
    "le_local_peer_id ?a = peer_a" "le_local_peer_id ?b = peer_b" "\<not> manual_override (le_state ?a)"
    by (simp_all add: leader_defs leader_election_new_def majority_threshold_def le_is_leader_def le_current_term_def)
  moreover have "peer_a < peer_b" "as_str peer_a = ''a''" "as_str peer_b = ''b''"
    by (simp_all add: peer_a_def peer_b_def less_char_def)
  ultimately show ?thesis
    using tie_break [of ?a ?b, OF leader_inv_start leader_inv_start, OF leader_inv_new leader_inv_new _ _ _ _ _ refl refl]
    by (simp add: Let_def)
qed

text \<open>
  A manual override holds. While a leader assigned by hand is in office, the node starts no
  election, rejects the heartbeat of every other node whatever its term, and the state is left as it was.
\<close>

theorem manual_override_holds:
  assumes "manual_override (le_state le)" "leader_id (le_state le) = Some l"
  shows "start_election n le = (None, le) \<and> (lid \<noteq> as_str l \<longrightarrow> handle_heartbeat t lid le = (False, le))"
  using assms by (auto simp: start_election_def handle_heartbeat_def Let_def)

theorem manual_override_holds_witness:
  "let le = snd (set_leader peer_b (leader_election_new peer_a True Hold)) in
   start_election 4 le = (None, le) \<and> handle_heartbeat 9 ''c'' le = (False, le)"
  using manual_override_holds [of "snd (set_leader peer_b (leader_election_new peer_a True Hold))" peer_b 4 "''c''" 9]
  by (simp add: leader_defs leader_election_new_def peer_b_def)

text \<open>
  A higher term can silence a leader for good. A vote request or a vote response with a higher term turns a leader into a
  follower but leaves it naming itself as the known leader, without any notification.
\<close>

theorem demoted_leader_names_itself:
  assumes "leader_inv le" "role (le_state le) = Leader" "current_term (le_state le) < t"
    and "le' = snd (handle_request_vote t c le) \<or> le' = snd (handle_vote_response t v g n le)"
  shows "role (le_state le') = Follower \<and> leader_id (le_state le') = Some (le_local_peer_id le)
    \<and> le_notified le' = le_notified le"
  using assms
  by (auto simp: handle_request_vote_def handle_vote_response_def Let_def leader_inv_def)

theorem demoted_leader_names_itself_witness:
  "let le = snd (start_election 0 (leader_election_new peer_a True Hold));
       le' = snd (handle_request_vote 2 ''b'' le) in
   role (le_state le') = Follower \<and> leader_id (le_state le') = Some peer_a"
  using demoted_leader_names_itself [of "snd (start_election 0 (leader_election_new peer_a True Hold))" 2
      "snd (handle_request_vote 2 ''b'' (snd (start_election 0 (leader_election_new peer_a True Hold))))" "''b''",
      OF leader_inv_start [OF leader_inv_new]]
  by (simp add: leader_defs leader_election_new_def majority_threshold_def)

text \<open>
  An assignment message is accepted whatever its term: even a stale one installs its leader, raises the manual
  override and clears the vote already cast in the node's current term, so the node can vote a second time in that
  term.
\<close>

theorem assignment_reopens_vote:
  assumes "t \<le> current_term (le_state le)"
  shows "let le' = handle_leader_assign t l a le in
     current_term (le_state le') = current_term (le_state le) \<and> leader_id (le_state le') = Some (PeerId l)
   \<and> manual_override (le_state le') \<and> fst (handle_request_vote (current_term (le_state le)) c le') = (current_term (le_state le), True)"
  using assms
  by (auto simp: handle_leader_assign_def assign_leader_def handle_request_vote_def Let_def notify_leader_change_def)

theorem assignment_reopens_vote_witness:
  "let le = snd (handle_request_vote 5 ''b'' (leader_election_new peer_a True Hold));
       le' = handle_leader_assign 1 ''d'' ''d'' le in
   voted_for (le_state le) = Some peer_b \<and> fst (handle_request_vote 5 ''c'' le') = (5, True)"
proof -
  let ?le = "snd (handle_request_vote 5 ''b'' (leader_election_new peer_a True Hold))"
  have "voted_for (le_state ?le) = Some peer_b" "current_term (le_state ?le) = 5"
    by (simp_all add: handle_request_vote_def leader_election_new_def Let_def peer_b_def)
  then show ?thesis
    using assignment_reopens_vote [of 1 ?le "''d''" "''d''" "''c''"] by (simp add: Let_def)
qed

end
