(* ===== verification/Session_Routing.thy ===== *)
theory Session_Routing
  imports Transport Leader
begin

text \<open>
  The session router (\<^verbatim>\<open>src/session_router.rs\<close>). The router shares the transport and the election with the rest of the
  node: routing takes both as arguments, reads the election and returns the transport it has sent through.
\<close>

section \<open>Definitions\<close>

record SessionRouter =
  sr_local_peer_id :: PeerId
  centralized_mode :: bool
  centralized_auto_forward :: bool
  sr_compression_threshold :: u32
  sr_max_message_size :: u32

definition router_new :: "PeerId \<Rightarrow> NetworkConfig \<Rightarrow> SessionRouter" where
  "router_new local_id config =
     \<lparr>sr_local_peer_id = local_id, centralized_mode = False,
      centralized_auto_forward = cfg_centralized_auto_forward config,
      sr_compression_threshold = cfg_compression_threshold config,
      sr_max_message_size = cfg_max_message_size config\<rparr>"

definition is_centralized :: "SessionRouter \<Rightarrow> bool" where
  "is_centralized r = centralized_mode r"

definition set_centralized :: "bool \<Rightarrow> SessionRouter \<Rightarrow> SessionRouter" where
  "set_centralized b r = r\<lparr>centralized_mode := b\<rparr>"

definition is_auto_forward :: "SessionRouter \<Rightarrow> bool" where
  "is_auto_forward r = centralized_auto_forward r"

definition set_auto_forward :: "bool \<Rightarrow> SessionRouter \<Rightarrow> SessionRouter" where
  "set_auto_forward b r = r\<lparr>centralized_auto_forward := b\<rparr>"

definition set_compression_threshold :: "u32 \<Rightarrow> SessionRouter \<Rightarrow> SessionRouter" where
  "set_compression_threshold t r = r\<lparr>sr_compression_threshold := t\<rparr>"

definition compression_threshold :: "SessionRouter \<Rightarrow> u32" where
  "compression_threshold r = sr_compression_threshold r"

definition bad_type :: NetworkError where
  "bad_type = InvalidArgument ''msg_type must be >= 0x0100''"

text \<open>Encode the user data, then hand the packet on.\<close>

definition with_packet ::
  "ext \<Rightarrow> SessionRouter \<Rightarrow> u16 \<Rightarrow> bytes \<Rightarrow> u8 \<Rightarrow> TransportManager \<Rightarrow>
     (RawPacket \<Rightarrow> (NetworkError + unit) \<times> TransportManager) \<Rightarrow> (NetworkError + unit) \<times> TransportManager" where
  "with_packet x r mt data flags tm k =
     (case encode_packet x mt data flags (compression_threshold r) (sr_max_message_size r) of
        Inl e \<Rightarrow> (Inl e, tm)
      | Inr p \<Rightarrow> k p)"

definition route_message ::
  "ext \<Rightarrow> send_env \<Rightarrow> SessionRouter \<Rightarrow> LeaderElection \<Rightarrow> MessageTarget \<Rightarrow> u16 \<Rightarrow> bytes \<Rightarrow> u8 \<Rightarrow> TransportManager
     \<Rightarrow> (NetworkError + unit) \<times> TransportManager" where
  "route_message x out r le target mt data user_flags tm =
     (if mt < USER_MESSAGE_START then (Inl bad_type, tm)
      else
        let clean_flags = user_flags AND 0xFE in
        (case target of
           Broadcast \<Rightarrow>
             if is_centralized r \<and> \<not> le_is_leader le then
               (case le_leader_id le of
                  None \<Rightarrow> (Inl NotLeader, tm)
                | Some leader \<Rightarrow>
                    (case encode_internal x (ForwardedUserData (as_str (sr_local_peer_id r)) mt clean_flags data)
                            (sr_max_message_size r) of
                       Inl e \<Rightarrow> (Inl e, tm)
                     | Inr fwd \<Rightarrow> send_to_peer out leader fwd tm))
             else with_packet x r mt data clean_flags tm (\<lambda>p. (Inr (), snd (broadcast out p None tm)))
         | ToPeer pid \<Rightarrow> with_packet x r mt data clean_flags tm (\<lambda>p. send_to_peer out pid p tm)
         | ToLeader \<Rightarrow>
             if le_is_leader le then (Inr (), tm)
             else
               (case le_leader_id le of
                  None \<Rightarrow> (Inl NotLeader, tm)
                | Some leader \<Rightarrow> with_packet x r mt data clean_flags tm (\<lambda>p. send_to_peer out leader p tm))))"

definition send_from_leader ::
  "ext \<Rightarrow> send_env \<Rightarrow> SessionRouter \<Rightarrow> LeaderElection \<Rightarrow> u16 \<Rightarrow> bytes \<Rightarrow> u8 \<Rightarrow> TransportManager
     \<Rightarrow> (NetworkError + unit) \<times> TransportManager" where
  "send_from_leader x out r le mt data user_flags tm =
     (if mt < USER_MESSAGE_START then (Inl bad_type, tm)
      else if \<not> le_is_leader le then (Inl NotLeader, tm)
      else with_packet x r mt data (user_flags AND 0xFE) tm (\<lambda>p. (Inr (), snd (broadcast out p None tm))))"

definition forward_message ::
  "ext \<Rightarrow> send_env \<Rightarrow> SessionRouter \<Rightarrow> LeaderElection \<Rightarrow> PeerId \<Rightarrow> ForwardTarget \<Rightarrow> u16 \<Rightarrow> u8 \<Rightarrow> bytes \<Rightarrow> TransportManager
     \<Rightarrow> (NetworkError + unit) \<times> TransportManager" where
  "forward_message x out r le from_peer target mt flags payload tm =
     (if mt < USER_MESSAGE_START then (Inl bad_type, tm)
      else if \<not> le_is_leader le then (Inl NotLeader, tm)
      else with_packet x r mt payload (flags AND 0xFE) tm (\<lambda>p.
        case target of
          FwdToPeer pid \<Rightarrow> send_to_peer out pid p tm
        | FwdBroadcast \<Rightarrow> (Inr (), snd (broadcast out p (Some [from_peer]) tm))))"

definition handle_forwarded_user_data ::
  "ext \<Rightarrow> send_env \<Rightarrow> SessionRouter \<Rightarrow> LeaderElection \<Rightarrow> string \<Rightarrow> u16 \<Rightarrow> u8 \<Rightarrow> bytes \<Rightarrow> TransportManager
     \<Rightarrow> RawPacket option \<times> TransportManager" where
  "handle_forwarded_user_data x out r le from_id original_type original_flags payload tm =
     (Some \<lparr>pkt_type = original_type, pkt_flags = original_flags, pkt_payload = payload\<rparr>,
      if le_is_leader le \<and> is_auto_forward r
      then snd (forward_message x out r le (PeerId from_id) FwdBroadcast original_type original_flags payload tm)
      else tm)"

text \<open>The settings the host program may change while the node runs.\<close>

datatype router_op = RCentralized bool | RAutoForward bool | RThreshold u32

fun router_exec :: "router_op \<Rightarrow> SessionRouter \<Rightarrow> SessionRouter" where
  "router_exec (RCentralized b) r = set_centralized b r"
| "router_exec (RAutoForward b) r = set_auto_forward b r"
| "router_exec (RThreshold t) r = set_compression_threshold t r"

section \<open>Lemmas\<close>

lemma router_exec_static [simp]:
  "sr_local_peer_id (router_exec op r) = sr_local_peer_id r" "sr_max_message_size (router_exec op r) = sr_max_message_size r"
  by (cases op; simp add: set_centralized_def set_auto_forward_def set_compression_threshold_def)+

lemma with_packet_sent:
  "with_packet x r mt data f tm k = (res, tm') \<Longrightarrow>
     res = (case encode_packet x mt data f (compression_threshold r) (sr_max_message_size r) of
              Inl e \<Rightarrow> Inl e | Inr p \<Rightarrow> fst (k p))
   \<and> (tm' = tm \<or> (\<exists>p. encode_packet x mt data f (compression_threshold r) (sr_max_message_size r) = Inr p \<and> tm' = snd (k p)))"
  by (auto simp: with_packet_def split: sum.splits)

text \<open>Routing touches nothing of the transport but the log of packets sent.\<close>

definition only_sends :: "TransportManager \<Rightarrow> TransportManager \<Rightarrow> (nat \<times> RawPacket) list \<Rightarrow> bool" where
  "only_sends tm tm' log \<longleftrightarrow> tm' = tm\<lparr>tm_sent := tm_sent tm @ log\<rparr>"

lemma only_sends_refl: "only_sends tm tm []"
  by (simp add: only_sends_def)

lemma send_to_peer_only_sends:
  obtains log where "only_sends tm (snd (send_to_peer out p pk tm)) log"
    and "set log \<subseteq> {(channel_for pk c, pk) | c. hm_get (tm_connections tm) p = Some c}"
    and "fst (send_to_peer out p pk tm) = Inr () \<Longrightarrow> \<exists>c. hm_get (tm_connections tm) p = Some c \<and> log = [(channel_for pk c, pk)]"
proof (cases "hm_get (tm_connections tm) p")
  case None
  then show ?thesis using that [of "[]"] by (simp add: send_to_peer_eq only_sends_def)
next
  case (Some c)
  then show ?thesis
    using that [of "if out (channel_for pk c) pk = Sent then [(channel_for pk c, pk)] else []"]
    by (cases "out (channel_for pk c) pk") (simp_all add: send_to_peer_eq only_sends_def try_send_error_def)
qed

lemma broadcast_only_sends:
  assumes "hm_wf (tm_connections tm)"
  obtains log where "only_sends tm (snd (broadcast out pk ex tm)) log"
    and "set log \<subseteq> {(channel_for pk c, pk) | q c. hm_get (tm_connections tm) q = Some c \<and> pi_status (conn_info c) = Connected
            \<and> q \<notin> set (case ex of None \<Rightarrow> [] | Some l \<Rightarrow> l)}"
proof -
  let ?log = "map (\<lambda>(_, tx). (tx, pk)) (filter (\<lambda>(_, tx). out tx pk = Sent) (broadcast_targets pk ex tm))"
  have "set ?log \<subseteq> (\<lambda>(_, tx). (tx, pk)) ` set (broadcast_targets pk ex tm)" by auto
  also have "\<dots> = {(channel_for pk c, pk) | q c. hm_get (tm_connections tm) q = Some c \<and> pi_status (conn_info c) = Connected
            \<and> q \<notin> set (case ex of None \<Rightarrow> [] | Some l \<Rightarrow> l)}"
    unfolding broadcast_targets_set [OF assms] by (auto simp: image_iff) blast
  finally show ?thesis using that [of ?log] by (simp add: broadcast_eq only_sends_def)
qed

lemma route_to_peer_sends:
  assumes "route_message x out r le (ToPeer pid) mt data f tm = (Inr (), tm')"
  obtains c p where "hm_get (tm_connections tm) pid = Some c"
    and "encode_packet x mt data (f AND 0xFE) (compression_threshold r) (sr_max_message_size r) = Inr p"
    and "only_sends tm tm' [(case data_tx c of Some d \<Rightarrow> d | None \<Rightarrow> control_tx c, p)]"
proof -
  from assms obtain p where p: "encode_packet x mt data (f AND 0xFE) (compression_threshold r) (sr_max_message_size r) = Inr p"
    and sent: "send_to_peer out pid p tm = (Inr (), tm')"
    by (auto simp: route_message_def with_packet_def Let_def split: if_splits sum.splits)
  obtain log where log: "only_sends tm tm' log" "fst (send_to_peer out pid p tm) = Inr () \<Longrightarrow>
      \<exists>c. hm_get (tm_connections tm) pid = Some c \<and> log = [(channel_for p c, p)]"
    using send_to_peer_only_sends [of tm out pid p] sent by (metis snd_conv)
  then obtain c where "hm_get (tm_connections tm) pid = Some c" "log = [(channel_for p c, p)]" using sent by auto
  with that p log(1) encode_packet_type [OF p] show ?thesis by (auto simp: channel_for_def)
qed

section \<open>Properties\<close>

definition demo_router :: SessionRouter where
  "demo_router = router_new (PeerId ''a'') config_default"

definition demo_follower :: LeaderElection where
  "demo_follower = snd (handle_heartbeat 1 ''b'' (leader_election_new (PeerId ''a'') True Hold))"

definition demo_leader :: LeaderElection where
  "demo_leader = snd (set_leader (PeerId ''a'') (leader_election_new (PeerId ''a'') True Hold))"

lemma demo_roles [simp]:
  "\<not> le_is_leader demo_follower" "le_leader_id demo_follower = Some (PeerId ''b'')" "le_is_leader demo_leader"
  by (simp_all add: demo_follower_def demo_leader_def leader_defs leader_election_new_def le_is_leader_def le_leader_id_def)

text \<open>
  A message to a peer arrives as it was sent. When routing to a peer succeeds, exactly one packet has been queued, on that
  peer's data channel if it has one and on its control channel otherwise; the packet carries the caller's message type and flag bits 1 to 7, and
  unpacks to the caller's data.
\<close>

theorem routed_message_intact:
  assumes "lz4_laws x" "route_message x out r le (ToPeer pid) mt data f tm = (Inr (), tm')"
  shows "\<exists>c p. hm_get (tm_connections tm) pid = Some c
    \<and> tm' = tm\<lparr>tm_sent := tm_sent tm @ [(case data_tx c of Some d \<Rightarrow> d | None \<Rightarrow> control_tx c, p)]\<rparr>
    \<and> decode_payload x p = Inr data \<and> pkt_type p = mt \<and> pkt_flags p AND 0xFE = f AND 0xFE"
proof -
  obtain c p where "hm_get (tm_connections tm) pid = Some c"
    and p: "encode_packet x mt data (f AND 0xFE) (compression_threshold r) (sr_max_message_size r) = Inr p"
    and "only_sends tm tm' [(case data_tx c of Some d \<Rightarrow> d | None \<Rightarrow> control_tx c, p)]"
    using route_to_peer_sends [OF assms(2)] .
  moreover have "decode_payload x p = Inr data" "pkt_type p = mt" "pkt_flags p AND 0xFE = f AND 0xFE"
    using encode_packet_type [OF p] encode_packet_flags [OF p] decode_encode_packet [OF assms(1) p]
    by (simp_all add: user_flags_kept)
  ultimately show ?thesis by (auto simp: only_sends_def)
qed

theorem routed_message_intact_witness:
  "\<exists>tm' c p. route_message (table_ext []) (\<lambda>_ _. Sent) demo_router demo_follower (ToPeer (PeerId ''b'')) 0x0101 [1, 2] 0x05 demo_pair = (Inr (), tm')
     \<and> hm_get (tm_connections demo_pair) (PeerId ''b'') = Some c \<and> decode_payload (table_ext []) p = Inr [1, 2]
     \<and> tm_sent tm' = tm_sent demo_pair @ [(case data_tx c of Some d \<Rightarrow> d | None \<Rightarrow> control_tx c, p)]"
proof -
  have "fst (route_message (table_ext []) (\<lambda>_ _. Sent) demo_router demo_follower (ToPeer (PeerId ''b'')) 0x0101 [1, 2] 0x05 demo_pair) = Inr ()"
    by (simp add: route_message_def with_packet_def encode_packet_def demo_router_def router_new_def compression_threshold_def
        config_default_def len_u32_def USER_MESSAGE_START_def send_to_peer_eq try_send_error_def demo_pair_run)
  then obtain tm' where t: "route_message (table_ext []) (\<lambda>_ _. Sent) demo_router demo_follower (ToPeer (PeerId ''b'')) 0x0101 [1, 2] 0x05 demo_pair = (Inr (), tm')"
    by (metis prod.collapse)
  from routed_message_intact [OF table_ext_lz4 t] t show ?thesis by force
qed

text \<open>
  C26: In centralized mode a follower speaks only through the leader. Whatever it broadcasts, the only packet it may queue
  goes to the leader it knows, on the control channel, and is the forwarding request that names the follower as origin and carries the type,
  the data and the flags with the reserved bit cleared; with no known leader it reports that and queues nothing.
\<close>

theorem centralized_follower_forwards:
  assumes "postcard_laws x" "is_centralized r" "\<not> le_is_leader le"
    and "route_message x out r le Broadcast mt data f tm = (res, tm')"
  shows "\<exists>log. tm' = tm\<lparr>tm_sent := tm_sent tm @ log\<rparr> \<and> (le_leader_id le = None \<longrightarrow> log = [] \<and> res \<noteq> Inr ())
    \<and> (\<forall>(tx, p) \<in> set log. \<exists>l c. le_leader_id le = Some l \<and> hm_get (tm_connections tm) l = Some c \<and> tx = control_tx c
         \<and> decode_internal x p = Inr (ForwardedUserData (as_str (sr_local_peer_id r)) mt (f AND 0xFE) data))"
proof (cases "tm' = tm")
  case True
  have "le_leader_id le = None \<Longrightarrow> res \<noteq> Inr ()"
    using assms(2-4) by (auto simp: route_message_def Let_def split: if_splits)
  with True show ?thesis by (intro exI [of _ "[]"]) simp
next
  case False
  with assms(2-4) obtain l fwd where l: "le_leader_id le = Some l"
    and e: "encode_internal x (ForwardedUserData (as_str (sr_local_peer_id r)) mt (f AND 0xFE) data) (sr_max_message_size r) = Inr fwd"
    and s: "tm' = snd (send_to_peer out l fwd tm)"
    by (auto simp: route_message_def Let_def split: if_splits option.splits sum.splits)
  obtain log where log: "only_sends tm tm' log" "set log \<subseteq> {(channel_for fwd c, fwd) | c. hm_get (tm_connections tm) l = Some c}"
    by (rule send_to_peer_only_sends [of tm out l fwd, folded s])
  have f: "is_internal fwd" "decode_internal x fwd = Inr (ForwardedUserData (as_str (sr_local_peer_id r)) mt (f AND 0xFE) data)"
    using encode_internal_type [OF e] decode_encode_internal [OF assms(1) e] by simp_all
  have "\<exists>l c. le_leader_id le = Some l \<and> hm_get (tm_connections tm) l = Some c \<and> tx = control_tx c
         \<and> decode_internal x p = Inr (ForwardedUserData (as_str (sr_local_peer_id r)) mt (f AND 0xFE) data)"
    if "(tx, p) \<in> set log" for tx p
  proof -
    from that log(2) obtain c where "hm_get (tm_connections tm) l = Some c" "tx = channel_for fwd c" "p = fwd" by auto
    with l f show ?thesis by (simp add: channel_for_def)
  qed
  then show ?thesis using l log(1) unfolding only_sends_def by (intro exI [of _ log]) auto
qed

lemma demo_pair_b:
  "hm_get (tm_connections demo_pair) (PeerId ''b'') = Some \<lparr>control_tx = 0, data_tx = None, control_cancel = 1, data_cancel = None,
     conn_info = peer_info_new 0 (PeerId ''b'') (demo_addr 1)\<rparr>"
  by (simp add: demo_pair_run)

theorem centralized_follower_forwards_witness:
  "\<exists>p. tm_sent (snd (route_message (table_ext [ForwardedUserData ''a'' 0x0101 0x04 [1, 2]]) (\<lambda>_ _. Sent) (set_centralized True demo_router)
       demo_follower Broadcast 0x0101 [1, 2] 0x05 demo_pair)) = tm_sent demo_pair @ [(0, p)]
     \<and> decode_internal (table_ext [ForwardedUserData ''a'' 0x0101 0x04 [1, 2]]) p = Inr (ForwardedUserData ''a'' 0x0101 0x04 [1, 2])"
proof -
  let ?x = "table_ext [ForwardedUserData ''a'' 0x0101 0x04 [1, 2]]" and ?r = "set_centralized True demo_router"
  let ?run = "route_message ?x (\<lambda>_ _. Sent) ?r demo_follower Broadcast 0x0101 [1, 2] 0x05 demo_pair"
  have r: "is_centralized ?r" "sr_local_peer_id ?r = PeerId ''a''" "sr_max_message_size ?r = 262144"
    by (simp_all add: is_centralized_def set_centralized_def demo_router_def router_new_def config_default_def)
  have "encode_internal ?x (ForwardedUserData ''a'' 0x0101 0x04 [1, 2]) 262144
      = Inr \<lparr>pkt_type = FORWARDED_USER_DATA, pkt_flags = 0, pkt_payload = [0]\<rparr>"
    by (simp add: encode_internal_def table_ext_def len_u32_def)
  then have "?run = (Inr (), demo_pair\<lparr>tm_sent := tm_sent demo_pair @ [(channel_for \<lparr>pkt_type = FORWARDED_USER_DATA, pkt_flags = 0, pkt_payload = [0]\<rparr>
      (the (hm_get (tm_connections demo_pair) (PeerId ''b''))), \<lparr>pkt_type = FORWARDED_USER_DATA, pkt_flags = 0, pkt_payload = [0]\<rparr>)]\<rparr>)"
    by (simp add: route_message_def r USER_MESSAGE_START_def send_to_peer_eq demo_pair_b try_send_error_def)
  then obtain tx p where run: "?run = (Inr (), demo_pair\<lparr>tm_sent := tm_sent demo_pair @ [(tx, p)]\<rparr>)" by blast
  from centralized_follower_forwards [OF table_ext_postcard r(1) demo_roles(1) run] obtain log where
    l: "demo_pair\<lparr>tm_sent := tm_sent demo_pair @ [(tx, p)]\<rparr> = demo_pair\<lparr>tm_sent := tm_sent demo_pair @ log\<rparr>"
    and each: "\<forall>(tx, p) \<in> set log. \<exists>l c. le_leader_id demo_follower = Some l \<and> hm_get (tm_connections demo_pair) l = Some c
      \<and> tx = control_tx c \<and> decode_internal ?x p = Inr (ForwardedUserData (as_str (sr_local_peer_id ?r)) 0x0101 (0x05 AND 0xFE) [1, 2])"
    by blast
  from arg_cong [OF l, of tm_sent] have "log = [(tx, p)]" by simp
  with each have "tx = 0" "decode_internal ?x p = Inr (ForwardedUserData ''a'' 0x0101 0x04 [1, 2])"
    by (simp_all add: demo_pair_b r)
  with run show ?thesis by simp
qed

text \<open>
  A forwarded message never returns to its origin. When a leader relays a message to everyone, no
  packet is queued on any channel of the peer it came from, every packet queued goes to a connected peer and unpacks to the original
  payload under the original type; a node that is not leader relays nothing.
\<close>

theorem forward_skips_origin:
  assumes "transport_inv tm" "lz4_laws x" "forward_message x out r le origin FwdBroadcast mt f payload tm = (res, tm')"
  shows "\<exists>log. tm' = tm\<lparr>tm_sent := tm_sent tm @ log\<rparr> \<and> (\<not> le_is_leader le \<longrightarrow> log = [])
    \<and> (\<forall>(tx, p) \<in> set log. decode_payload x p = Inr payload \<and> pkt_type p = mt
         \<and> (\<exists>q c. q \<noteq> origin \<and> hm_get (tm_connections tm) q = Some c \<and> pi_status (conn_info c) = Connected \<and> tx \<in> senders c)
         \<and> (\<forall>c. hm_get (tm_connections tm) origin = Some c \<longrightarrow> tx \<notin> senders c))"
proof (cases "tm' = tm")
  case True
  then show ?thesis by (intro exI [of _ "[]"]) simp
next
  case False
  with assms(3) obtain p where e: "encode_packet x mt payload (f AND 0xFE) (compression_threshold r) (sr_max_message_size r) = Inr p"
    and s: "tm' = snd (broadcast out p (Some [origin]) tm)" and lead: "le_is_leader le"
    by (auto simp: forward_message_def with_packet_def split: if_splits sum.splits)
  have wf: "hm_wf (tm_connections tm)" using assms(1) by (simp add: transport_inv_def)
  obtain log where log: "only_sends tm tm' log" "set log \<subseteq> {(channel_for p c, p) | q c. hm_get (tm_connections tm) q = Some c
      \<and> pi_status (conn_info c) = Connected \<and> q \<notin> set (case Some [origin] of None \<Rightarrow> [] | Some l \<Rightarrow> l)}"
    by (rule broadcast_only_sends [OF wf, of out p "Some [origin]", folded s])
  have apart: "senders c \<inter> senders d = {}" if "hm_get (tm_connections tm) q = Some c" "hm_get (tm_connections tm) origin = Some d" "q \<noteq> origin" for q c d
    using assms(1) that unfolding transport_inv_def by (metis conns_invD(2) apart_def)
  have p: "decode_payload x p = Inr payload" "pkt_type p = mt"
    using encode_packet_type [OF e] decode_encode_packet [OF assms(2) e] by simp_all
  have "decode_payload x p' = Inr payload \<and> pkt_type p' = mt
      \<and> (\<exists>q c. q \<noteq> origin \<and> hm_get (tm_connections tm) q = Some c \<and> pi_status (conn_info c) = Connected \<and> tx \<in> senders c)
      \<and> (\<forall>d. hm_get (tm_connections tm) origin = Some d \<longrightarrow> tx \<notin> senders d)" if "(tx, p') \<in> set log" for tx p'
  proof -
    from that log(2) obtain q c where q: "hm_get (tm_connections tm) q = Some c" "pi_status (conn_info c) = Connected" "q \<noteq> origin"
      "tx = channel_for p c" "p' = p" by auto
    with channel_for_sender [of p c] have "tx \<in> senders c" by simp
    with q p apart [OF q(1) _ q(3)] show ?thesis by blast
  qed
  then show ?thesis using log(1) lead unfolding only_sends_def by (intro exI [of _ log]) auto
qed

theorem forward_skips_origin_witness:
  "\<exists>res log. forward_message (table_ext []) (\<lambda>_ _. Sent) demo_router demo_leader (PeerId ''b'') FwdBroadcast 0x0101 0 [1, 2] demo_pair
     = (res, demo_pair\<lparr>tm_sent := tm_sent demo_pair @ log\<rparr>) \<and> 0 \<notin> fst ` set log"
proof -
  obtain res tm' where run: "forward_message (table_ext []) (\<lambda>_ _. Sent) demo_router demo_leader (PeerId ''b'') FwdBroadcast 0x0101 0 [1, 2] demo_pair
     = (res, tm')" by fastforce
  from forward_skips_origin [OF demo_pair_inv table_ext_lz4 run] obtain log where
    "tm' = demo_pair\<lparr>tm_sent := tm_sent demo_pair @ log\<rparr>"
    "\<And>tx p. (tx, p) \<in> set log \<Longrightarrow> tx \<notin> senders \<lparr>control_tx = 0, data_tx = None, control_cancel = 1, data_cancel = None,
       conn_info = peer_info_new 0 (PeerId ''b'') (demo_addr 1)\<rparr>"
    using demo_pair_b by blast
  then show ?thesis using run by (force simp: senders_def)
qed

end
