(* ===== verification/Callbacks.thy ===== *)
theory Callbacks
  imports Net_Types
begin

text \<open>
  The callback manager (\<^verbatim>\<open>src/callback.rs\<close>): events are queued by the network tasks and turned into calls of C functions by
  one thread. A registered C function is a number, \<open>cb_calls\<close> the sequence of calls made. The queue's
  answer to \<^verbatim>\<open>try_send\<close> is an argument. The thread is a small state machine, because the shutdown flag is read before the thread waits on the queue.
\<close>

section \<open>Definitions\<close>

datatype CallbackEvent =
    ConnectionResult string bool int
  | LeaderChanged "string option"
  | PeerStatusChanged string int
  | Received string bytes u16 u8
  | ReconnectStatus string u8

datatype ffi_call =
    CallConnectionResult nat string u8 int
  | CallLeaderChanged nat string
  | CallPeerStatus nat string int
  | CallReceive nat string bytes int u16 u8
  | CallReconnect nat string u8

text \<open>Where the thread stands: about to read the flag, waiting for an event, or finished.\<close>

datatype thread_state = AtFlag | AtRecv | Finished

record CallbackManager =
  connection_result_callback :: "nat option"
  leader_changed_callback :: "nat option"
  peer_status_callback :: "nat option"
  receive_callback :: "nat option"
  reconnect_callback :: "nat option"
  cb_queue :: "CallbackEvent list"
  cb_open :: bool
  cb_shutdown :: bool
  cb_thread :: thread_state
  cb_handle :: bool
  cb_calls :: "ffi_call list"

definition callback_new :: CallbackManager where
  "callback_new =
     \<lparr>connection_result_callback = None, leader_changed_callback = None, peer_status_callback = None,
      receive_callback = None, reconnect_callback = None, cb_queue = [], cb_open = True, cb_shutdown = False,
      cb_thread = AtFlag, cb_handle = True, cb_calls = []\<rparr>"

text \<open>\<^verbatim>\<open>CString::new\<close> refuses a string with a NUL byte.\<close>

definition cstring_new :: "string \<Rightarrow> string option" where
  "cstring_new s = (if CHR 0x00 \<in> set s then None else Some s)"

definition u8_from_bool :: "bool \<Rightarrow> u8" where
  "u8_from_bool b = (if b then 1 else 0)"

text \<open>\<^verbatim>\<open>data.len() as i32\<close>: truncated to 32 bits and read as a signed number.\<close>

definition len_i32 :: "bytes \<Rightarrow> int" where
  "len_i32 d = sint (word_of_nat (length d) :: 32 word)"

definition call_for :: "CallbackManager \<Rightarrow> CallbackEvent \<Rightarrow> ffi_call option" where
  "call_for m e =
     (case e of
        ConnectionResult addr success code \<Rightarrow>
          Option.bind (connection_result_callback m) (\<lambda>cb.
          map_option (\<lambda>c. CallConnectionResult cb c (u8_from_bool success) code) (cstring_new addr))
      | LeaderChanged leader \<Rightarrow>
          Option.bind (leader_changed_callback m) (\<lambda>cb.
          map_option (\<lambda>c. CallLeaderChanged cb c) (cstring_new (case leader of None \<Rightarrow> '''' | Some l \<Rightarrow> l)))
      | PeerStatusChanged peer status \<Rightarrow>
          Option.bind (peer_status_callback m) (\<lambda>cb.
          map_option (\<lambda>c. CallPeerStatus cb c status) (cstring_new peer))
      | Received peer data mt flags \<Rightarrow>
          Option.bind (receive_callback m) (\<lambda>cb.
          map_option (\<lambda>c. CallReceive cb c data (len_i32 data) mt flags) (cstring_new peer))
      | ReconnectStatus peer status \<Rightarrow>
          Option.bind (reconnect_callback m) (\<lambda>cb.
          map_option (\<lambda>c. CallReconnect cb c status) (cstring_new peer)))"

definition dispatch_event :: "CallbackEvent \<Rightarrow> CallbackManager \<Rightarrow> CallbackManager" where
  "dispatch_event e m =
     (case call_for m e of None \<Rightarrow> m | Some c \<Rightarrow> m\<lparr>cb_calls := cb_calls m @ [c]\<rparr>)"

text \<open>One step of the thread that runs \<^verbatim>\<open>callback_loop\<close>; waiting on an open empty queue changes nothing.\<close>

definition callback_step :: "CallbackManager \<Rightarrow> CallbackManager" where
  "callback_step m =
     (case cb_thread m of
        Finished \<Rightarrow> m
      | AtFlag \<Rightarrow> if cb_shutdown m then m\<lparr>cb_thread := Finished\<rparr> else m\<lparr>cb_thread := AtRecv\<rparr>
      | AtRecv \<Rightarrow>
         (case cb_queue m of
            e # q \<Rightarrow> (dispatch_event e (m\<lparr>cb_queue := q\<rparr>))\<lparr>cb_thread := AtFlag\<rparr>
          | [] \<Rightarrow> if cb_open m then m else m\<lparr>cb_thread := Finished\<rparr>))"

definition send_event :: "try_send_result \<Rightarrow> CallbackEvent \<Rightarrow> CallbackManager \<Rightarrow> CallbackManager" where
  "send_event out e m = (if cb_open m \<and> out = Sent then m\<lparr>cb_queue := cb_queue m @ [e]\<rparr> else m)"

definition send_connection_result :: "try_send_result \<Rightarrow> string \<Rightarrow> bool \<Rightarrow> int \<Rightarrow> CallbackManager \<Rightarrow> CallbackManager" where
  "send_connection_result out addr success code = send_event out (ConnectionResult addr success code)"

definition send_leader_changed :: "try_send_result \<Rightarrow> PeerId option \<Rightarrow> CallbackManager \<Rightarrow> CallbackManager" where
  "send_leader_changed out l = send_event out (LeaderChanged (map_option as_str l))"

definition send_peer_status :: "try_send_result \<Rightarrow> PeerId \<Rightarrow> int \<Rightarrow> CallbackManager \<Rightarrow> CallbackManager" where
  "send_peer_status out p status = send_event out (PeerStatusChanged (as_str p) status)"

definition send_received :: "try_send_result \<Rightarrow> PeerId \<Rightarrow> bytes \<Rightarrow> u16 \<Rightarrow> u8 \<Rightarrow> CallbackManager \<Rightarrow> CallbackManager" where
  "send_received out p data mt flags = send_event out (Received (as_str p) data mt flags)"

definition send_reconnect :: "try_send_result \<Rightarrow> PeerId \<Rightarrow> u8 \<Rightarrow> CallbackManager \<Rightarrow> CallbackManager" where
  "send_reconnect out p status = send_event out (ReconnectStatus (as_str p) status)"

definition register_connection_result_callback :: "nat option \<Rightarrow> CallbackManager \<Rightarrow> CallbackManager" where
  "register_connection_result_callback cb m = m\<lparr>connection_result_callback := cb\<rparr>"

definition register_leader_changed_callback :: "nat option \<Rightarrow> CallbackManager \<Rightarrow> CallbackManager" where
  "register_leader_changed_callback cb m = m\<lparr>leader_changed_callback := cb\<rparr>"

definition register_peer_status_callback :: "nat option \<Rightarrow> CallbackManager \<Rightarrow> CallbackManager" where
  "register_peer_status_callback cb m = m\<lparr>peer_status_callback := cb\<rparr>"

definition register_receive_callback :: "nat option \<Rightarrow> CallbackManager \<Rightarrow> CallbackManager" where
  "register_receive_callback cb m = m\<lparr>receive_callback := cb\<rparr>"

definition register_reconnect_callback :: "nat option \<Rightarrow> CallbackManager \<Rightarrow> CallbackManager" where
  "register_reconnect_callback cb m = m\<lparr>reconnect_callback := cb\<rparr>"

definition drain_and_shutdown :: "CallbackManager \<Rightarrow> CallbackManager" where
  "drain_and_shutdown m = m\<lparr>cb_shutdown := True, cb_open := False\<rparr>"

text \<open>\<^verbatim>\<open>join_thread\<close> returns once the thread has finished; it takes the handle, so that a second call does nothing.\<close>

definition join_thread :: "CallbackManager \<Rightarrow> CallbackManager option" where
  "join_thread m = (if cb_handle m \<and> cb_thread m \<noteq> Finished then None else Some (m\<lparr>cb_handle := False\<rparr>))"

text \<open>What the network tasks and the thread do, as a sequence of steps.\<close>

datatype callback_op = CSend try_send_result CallbackEvent | CThread | CShutdown

fun callback_exec :: "callback_op \<Rightarrow> CallbackManager \<Rightarrow> CallbackManager" where
  "callback_exec (CSend out e) m = send_event out e m"
| "callback_exec CThread m = callback_step m"
| "callback_exec CShutdown m = drain_and_shutdown m"

text \<open>The events a sequence of steps puts on the queue.\<close>

fun accepted :: "callback_op list \<Rightarrow> bool \<Rightarrow> CallbackEvent list" where
  "accepted [] is_open = []"
| "accepted (CSend out e # ops) is_open = (if is_open \<and> out = Sent then [e] else []) @ accepted ops is_open"
| "accepted (CThread # ops) is_open = accepted ops is_open"
| "accepted (CShutdown # ops) is_open = accepted ops False"

section \<open>Lemmas\<close>

lemma len_i32_exact: "length d < 2147483648 \<Longrightarrow> len_i32 d = int (length d)"
  by (simp add: len_i32_def signed_of_nat signed_take_bit_int_eq_self)

lemma call_for_frame [simp]:
  "call_for (m\<lparr>cb_queue := q\<rparr>) = call_for m" "call_for (m\<lparr>cb_calls := l\<rparr>) = call_for m"
  "call_for (m\<lparr>cb_thread := t\<rparr>) = call_for m" "call_for (m\<lparr>cb_shutdown := b, cb_open := c\<rparr>) = call_for m"
  by (simp_all add: fun_eq_iff call_for_def split: CallbackEvent.split)

lemma dispatch_event_frame [simp]:
  "call_for (dispatch_event e m) = call_for m" "cb_queue (dispatch_event e m) = cb_queue m"
  "cb_open (dispatch_event e m) = cb_open m" "cb_shutdown (dispatch_event e m) = cb_shutdown m"
  "cb_calls (dispatch_event e m) = cb_calls m @ (case call_for m e of None \<Rightarrow> [] | Some c \<Rightarrow> [c])"
  by (simp_all add: dispatch_event_def split: option.split)

definition calls_of :: "CallbackManager \<Rightarrow> CallbackEvent list \<Rightarrow> ffi_call list" where
  "calls_of m es = List.map_filter (call_for m) es"

lemma calls_of_simps [simp]:
  "calls_of m [] = []" "calls_of m (e # es) = (case call_for m e of None \<Rightarrow> [] | Some c \<Rightarrow> [c]) @ calls_of m es"
  "calls_of m (es @ fs) = calls_of m es @ calls_of m fs"
  by (simp_all add: calls_of_def map_filter_simps split: option.split) (simp add: List.map_filter_def)

lemma calls_of_cong: "call_for m' = call_for m \<Longrightarrow> calls_of m' es = calls_of m es"
  by (simp add: calls_of_def)

lemma callback_exec_calls:
  "call_for (callback_exec op m) = call_for m"
  "\<exists>h. cb_queue m @ accepted [op] (cb_open m) = h @ cb_queue (callback_exec op m)
     \<and> cb_calls (callback_exec op m) = cb_calls m @ calls_of m h"
  "cb_open (callback_exec op m) \<longleftrightarrow> cb_open m \<and> op \<noteq> CShutdown"
  by (cases op; simp add: send_event_def callback_step_def drain_and_shutdown_def split: thread_state.split list.split;
      fastforce)+

lemma accepted_split: "accepted (op # ops) b = accepted [op] b @ accepted ops (b \<and> op \<noteq> CShutdown)"
  by (cases op) simp_all

text \<open>How many events and steps are left once the flag is set and the queue is closed.\<close>

fun events_left :: "thread_state \<Rightarrow> nat" where
  "events_left AtRecv = 1" | "events_left AtFlag = 0" | "events_left Finished = 0"

fun steps_left :: "thread_state \<Rightarrow> nat" where
  "steps_left AtRecv = 2" | "steps_left AtFlag = 1" | "steps_left Finished = 0"

lemma after_shutdown_step:
  assumes "cb_shutdown m" "\<not> cb_open m" "m' = callback_exec op m"
  shows "cb_shutdown m' \<and> \<not> cb_open m' \<and> call_for m' = call_for m
    \<and> (\<exists>h. length h + events_left (cb_thread m') \<le> events_left (cb_thread m) \<and> cb_calls m' = cb_calls m @ calls_of m h)
    \<and> steps_left (cb_thread m') \<le> steps_left (cb_thread m) - (if op = CThread then 1 else 0)"
proof (cases op)
  case CThread
  then show ?thesis
  proof (cases "cb_thread m")
    case AtRecv
    show ?thesis
    proof (cases "cb_queue m")
      case (Cons e q)
      with CThread AtRecv assms show ?thesis by (auto simp: callback_step_def intro!: exI [of _ "[e]"])
    qed (use CThread AtRecv assms in \<open>auto simp: callback_step_def intro!: exI [of _ "[]"]\<close>)
  qed (use CThread assms in \<open>auto simp: callback_step_def intro!: exI [of _ "[]"]\<close>)
qed (use assms in \<open>auto simp: send_event_def drain_and_shutdown_def intro!: exI [of _ "[]"]\<close>)

lemma after_shutdown_run:
  "cb_shutdown m \<Longrightarrow> \<not> cb_open m \<Longrightarrow>
     (\<exists>h. length h \<le> events_left (cb_thread m) \<and> cb_calls (fold callback_exec ops m) = cb_calls m @ calls_of m h)
   \<and> steps_left (cb_thread (fold callback_exec ops m)) \<le> steps_left (cb_thread m) - count_list ops CThread"
proof (induction ops arbitrary: m)
  case (Cons op ops)
  let ?m = "callback_exec op m"
  note s = after_shutdown_step [OF Cons.prems refl, of op]
  from s obtain h where h: "length h + events_left (cb_thread ?m) \<le> events_left (cb_thread m)" "cb_calls ?m = cb_calls m @ calls_of m h"
    by blast
  from s Cons.IH [of ?m] obtain h' where h': "length h' \<le> events_left (cb_thread ?m)"
    "cb_calls (fold callback_exec ops ?m) = cb_calls ?m @ calls_of ?m h'"
    and st: "steps_left (cb_thread (fold callback_exec ops ?m)) \<le> steps_left (cb_thread ?m) - count_list ops CThread"
    by blast
  have "calls_of ?m h' = calls_of m h'" using s by (blast intro: calls_of_cong)
  with h h' have "cb_calls (fold callback_exec (op # ops) m) = cb_calls m @ calls_of m (h @ h')"
    "length (h @ h') \<le> events_left (cb_thread m)" by simp_all
  moreover have "steps_left (cb_thread (fold callback_exec (op # ops) m)) \<le> steps_left (cb_thread m) - count_list (op # ops) CThread"
    using st s by (auto split: if_splits)
  ultimately show ?case by blast
qed (auto intro: exI [of _ "[]"])

lemma callback_run:
  "\<exists>h. cb_queue m @ accepted ops (cb_open m) = h @ cb_queue (fold callback_exec ops m)
     \<and> cb_calls (fold callback_exec ops m) = cb_calls m @ calls_of m h"
proof (induction ops arbitrary: m)
  case (Cons op ops)
  let ?m = "callback_exec op m"
  obtain h where h: "cb_queue m @ accepted [op] (cb_open m) = h @ cb_queue ?m" "cb_calls ?m = cb_calls m @ calls_of m h"
    using callback_exec_calls(2) by blast
  obtain h' where h': "cb_queue ?m @ accepted ops (cb_open ?m) = h' @ cb_queue (fold callback_exec ops ?m)"
    "cb_calls (fold callback_exec ops ?m) = cb_calls ?m @ calls_of ?m h'"
    using Cons.IH by blast
  have "calls_of ?m h' = calls_of m h'" by (rule calls_of_cong) (rule callback_exec_calls(1))
  with h h' have "cb_calls (fold callback_exec (op # ops) m) = cb_calls m @ calls_of m (h @ h')" by simp
  moreover have "cb_queue m @ accepted (op # ops) (cb_open m)
      = (cb_queue m @ accepted [op] (cb_open m)) @ accepted ops (cb_open ?m)"
    by (subst accepted_split) (simp only: callback_exec_calls(3) append_assoc)
  then have "cb_queue m @ accepted (op # ops) (cb_open m) = (h @ h') @ cb_queue (fold callback_exec (op # ops) m)"
    using h'(1) by (simp only: h(1) append_assoc fold_simps)
  ultimately show ?case by blast
qed (auto intro: exI [of _ "[]"])

text \<open>
  The events in front of the queue are dispatched once the thread has made enough steps, whatever is sent meanwhile.
\<close>

definition steps_needed :: "CallbackEvent list \<Rightarrow> thread_state \<Rightarrow> nat" where
  "steps_needed q t = 2 * length q - (if t = AtRecv then 1 else 0)"

text \<open>A step of the thread either arms it or makes the calls of the first queued event; a send only lengthens the queue.\<close>

lemma callback_step_progress:
  assumes "cb_queue m = (e # q) @ r" "\<not> cb_shutdown m" "cb_thread m \<noteq> Finished"
  shows "\<exists>q'. cb_queue (callback_step m) = q' @ r \<and> \<not> cb_shutdown (callback_step m) \<and> cb_thread (callback_step m) \<noteq> Finished
    \<and> cb_calls (callback_step m) @ calls_of m q' = cb_calls m @ calls_of m (e # q)
    \<and> steps_needed (e # q) (cb_thread m) = Suc (steps_needed q' (cb_thread (callback_step m)))"
proof (cases "cb_thread m")
  case AtFlag
  with assms show ?thesis by (intro exI [of _ "e # q"]) (simp add: callback_step_def steps_needed_def)
next
  case AtRecv
  with assms show ?thesis by (intro exI [of _ q]) (simp add: callback_step_def steps_needed_def)
qed (use assms in simp)

lemma callback_send_progress:
  assumes "cb_queue m = q @ r"
  shows "\<exists>r'. cb_queue (send_event out ev m) = q @ r' \<and> cb_shutdown (send_event out ev m) = cb_shutdown m
    \<and> cb_thread (send_event out ev m) = cb_thread m \<and> cb_calls (send_event out ev m) = cb_calls m"
  using assms by (cases "cb_open m \<and> out = Sent") (auto simp: send_event_def)

lemma callback_progress:
  assumes "cb_queue m = q @ r" "\<not> cb_shutdown m" "cb_thread m \<noteq> Finished" "CShutdown \<notin> set ops" "steps_needed q (cb_thread m) \<le> count_list ops CThread"
  shows "\<exists>rest. cb_calls (fold callback_exec ops m) = cb_calls m @ calls_of m q @ rest"
  using assms
proof (induction ops arbitrary: m q r)
  case Nil
  then have "q = []" by (cases q) (simp_all add: steps_needed_def split: if_splits)
  then show ?case by simp
next
  case (Cons op ops)
  have same: "calls_of (callback_exec op m) l = calls_of m l" for l by (rule calls_of_cong) (rule callback_exec_calls(1))
  consider (none) "q = []" | (send) out ev where "op = CSend out ev" | (thread) e q' where "op = CThread" "q = e # q'"
    using Cons.prems(4) by (cases op; cases q) auto
  then show ?case
  proof cases
    case none
    then show ?thesis using callback_run [of m "op # ops"] by auto
  next
    case send
    with callback_send_progress [OF Cons.prems(1)] Cons.IH [of "callback_exec op m" q] Cons.prems same show ?thesis by fastforce
  next
    case thread
    obtain q1 where m: "cb_queue (callback_step m) = q1 @ r" "\<not> cb_shutdown (callback_step m)" "cb_thread (callback_step m) \<noteq> Finished"
      "cb_calls (callback_step m) @ calls_of m q1 = cb_calls m @ calls_of m q"
      "steps_needed q (cb_thread m) = Suc (steps_needed q1 (cb_thread (callback_step m)))"
      using callback_step_progress [of m e q' r] Cons.prems thread by blast
    have "steps_needed q1 (cb_thread (callback_step m)) \<le> count_list ops CThread" using m(5) Cons.prems(5) thread(1) by simp
    with Cons.IH [OF m(1-3)] Cons.prems(4) obtain rest where
      "cb_calls (fold callback_exec ops (callback_step m)) = cb_calls (callback_step m) @ calls_of (callback_step m) q1 @ rest" by fastforce
    with same [of q1] m(4) thread(1) show ?thesis by (metis append.assoc callback_exec.simps(2) fold_simps(2))
  qed
qed

section \<open>Properties\<close>

text \<open>
  C20: Callbacks are delivered in order and without invention. However sending and the callback thread interleave, the events dispatched so
  far followed by the events still queued are exactly the events accepted, in order; and the calls made are exactly the calls of the
  dispatched events, in order: one call for an event whose callback is registered and whose string has no NUL byte, none otherwise.
\<close>

theorem callbacks_in_order:
  "\<exists>h. cb_queue m @ accepted ops (cb_open m) = h @ cb_queue (fold callback_exec ops m)
     \<and> cb_calls (fold callback_exec ops m) = cb_calls m @ List.map_filter (call_for m) h"
  using callback_run [of m ops] by (simp only: calls_of_def)

text \<open>
  C21: Every queued event is delivered. As long as nobody shuts the callbacks down, once the thread has made two steps for every event in
  the queue, the calls of all those events have been made, in order and before any other, whatever was sent meanwhile.
\<close>

theorem queued_events_delivered:
  assumes "\<not> cb_shutdown m" "cb_thread m \<noteq> Finished" "CShutdown \<notin> set ops" "2 * length (cb_queue m) \<le> count_list ops CThread"
  shows "\<exists>rest. cb_calls (fold callback_exec ops m) = cb_calls m @ List.map_filter (call_for m) (cb_queue m) @ rest"
  using callback_progress [of m "cb_queue m" "[]" ops] assms by (auto simp: steps_needed_def calls_of_def)

theorem queued_events_delivered_witness:
  "\<exists>rest. cb_calls (fold callback_exec [CThread, CSend Sent (PeerStatusChanged ''r'' 0), CThread, CThread, CThread]
      (callback_new\<lparr>peer_status_callback := Some 7, cb_queue := [PeerStatusChanged ''p'' 0, PeerStatusChanged ''q'' 1]\<rparr>))
    = [CallPeerStatus 7 ''p'' 0, CallPeerStatus 7 ''q'' 1] @ rest"
  using queued_events_delivered [of "callback_new\<lparr>peer_status_callback := Some 7, cb_queue := [PeerStatusChanged ''p'' 0, PeerStatusChanged ''q'' 1]\<rparr>"
      "[CThread, CSend Sent (PeerStatusChanged ''r'' 0), CThread, CThread, CThread]"]
  by (simp add: callback_new_def call_for_def cstring_new_def map_filter_simps)

text \<open>
  Shutting down the callbacks stops the thread and drops the queue. After the shutdown at most one more event is
  dispatched, whatever was still queued, and after two more steps of its own the thread has finished, so that joining it returns.
\<close>

theorem callback_shutdown_stops:
  assumes "m' = fold callback_exec ops (drain_and_shutdown m)"
  shows "(\<exists>h. length h \<le> 1 \<and> cb_calls m' = cb_calls m @ List.map_filter (call_for m) h)
    \<and> (2 \<le> count_list ops CThread \<longrightarrow> cb_thread m' = Finished \<and> join_thread m' \<noteq> None)"
proof -
  let ?m = "drain_and_shutdown m"
  have "cb_shutdown ?m" "\<not> cb_open ?m" by (simp_all add: drain_and_shutdown_def)
  from after_shutdown_run [OF this, of ops] obtain h where
    h: "length h \<le> events_left (cb_thread ?m)" "cb_calls m' = cb_calls ?m @ calls_of ?m h"
    and st: "steps_left (cb_thread m') \<le> steps_left (cb_thread ?m) - count_list ops CThread"
    using assms by blast
  have "cb_calls ?m = cb_calls m" "calls_of ?m h = calls_of m h"
    by (simp add: drain_and_shutdown_def, rule calls_of_cong, simp add: drain_and_shutdown_def)
  moreover have "events_left t \<le> 1" "steps_left t \<le> 2" "steps_left t = 0 \<longleftrightarrow> t = Finished" for t
    by (cases t; simp)+
  ultimately have one: "length h \<le> 1" "cb_calls m' = cb_calls m @ List.map_filter (call_for m) h"
    and fin: "2 \<le> count_list ops CThread \<Longrightarrow> cb_thread m' = Finished"
    using h st by (auto simp: calls_of_def dest: le_trans) (metis diff_is_0_eq le_0_eq le_trans)
  then show ?thesis by (auto simp: join_thread_def)
qed

theorem callback_shutdown_stops_witness:
  "let m = callback_new\<lparr>peer_status_callback := Some 7, cb_queue := [PeerStatusChanged ''p'' 0, PeerStatusChanged ''q'' 0]\<rparr>;
       m' = fold callback_exec [CThread, CThread] (drain_and_shutdown m) in
   cb_thread m' = Finished \<and> cb_calls m' = []"
  using callback_shutdown_stops [OF refl, of "[CThread, CThread]" "callback_new\<lparr>peer_status_callback := Some 7,
      cb_queue := [PeerStatusChanged ''p'' 0, PeerStatusChanged ''q'' 0]\<rparr>"]
  by (simp add: callback_step_def drain_and_shutdown_def callback_new_def)

end
