(* ===== verification/Node.thy ===== *)
theory Node
  imports Discovery Session_Routing Callbacks
begin

text \<open>
  A running node (\<^verbatim>\<open>src/lib.rs\<close>): the managers of the other theories side by side, the handler of incoming
  packets, the periodic tasks, the watchers that carry events from one manager to the other, start and
  shutdown. One handler call or one timer tick is one step. The answers of the outside world during a step are the record
  \<open>node_env\<close>; its clocks are indexed because a step may read a clock more than once. \<open>ns_connects\<close> lists the addresses for which
  a connecting task was started; the \<open>seen\<close> counters say how far each watcher has read its channel.
\<close>

section \<open>Definitions\<close>

record node_env =
  ne_ext :: ext
  ne_out :: send_env
  ne_cb :: "CallbackEvent \<Rightarrow> try_send_result"
  ne_now :: "nat \<Rightarrow> instant"
  ne_wall :: "nat \<Rightarrow> int"

record NetworkState =
  ns_transport :: TransportManager
  ns_membership :: MembershipManager
  ns_leader :: LeaderElection
  ns_router :: SessionRouter
  ns_discovery :: "DiscoveryManager option"
  ns_callback :: CallbackManager
  ns_shutdown :: bool
  ns_local_peer_id :: PeerId
  ns_session_id :: string
  ns_config :: NetworkConfig
  ns_connects :: "string list"
  ns_events_seen :: nat
  ns_leader_seen :: nat
  ns_reconnect_seen :: nat
  ns_mdns_closed :: "string list"

text \<open>
  Starting a node. \<open>bound\<close> is the address of the listener or the error of binding it; \<open>daemon_error\<close>, \<open>host\<close>, \<open>create\<close> and \<open>register\<close>
  are the answers of the mDNS crate. Discovery that cannot be started is shut down and left out, not reported;
  \<open>ns_mdns_closed\<close> lists the service names that were unregistered when a discovery daemon was shut down.
\<close>

definition node_new ::
  "string \<Rightarrow> string \<Rightarrow> NetworkConfig \<Rightarrow> string + SocketAddr \<Rightarrow> string option \<Rightarrow> string option \<Rightarrow>
     (ServiceInfo \<Rightarrow> string option) \<Rightarrow> (ServiceInfo \<Rightarrow> string option) \<Rightarrow> NetworkError + NetworkState" where
  "node_new peer session config bound daemon_error host create register =
     (let local_id = PeerId peer in
      case transport_new local_id session config bound of
        Inl e \<Rightarrow> Inl e
      | Inr tm \<Rightarrow>
          let (discovery, closed) =
                (case discovery_new daemon_error local_id session (port (tm_listener_addr tm)) of
                   Inl _ \<Rightarrow> (None, [])
                 | Inr d \<Rightarrow>
                    (case register_service host create register d of
                       Inl _ \<Rightarrow> (None, [unregister_name d])
                     | Inr _ \<Rightarrow> (Some d, []))) in
          Inr \<lparr>ns_transport = tm,
               ns_membership = membership_new local_id config,
               ns_leader = leader_election_new local_id (cfg_auto_election_enabled config) (cfg_manual_override_recovery config),
               ns_router = router_new local_id config,
               ns_discovery = discovery,
               ns_callback = callback_new,
               ns_shutdown = False,
               ns_local_peer_id = local_id, ns_session_id = session, ns_config = config,
               ns_connects = [], ns_events_seen = 0, ns_leader_seen = 0, ns_reconnect_seen = 0,
               ns_mdns_closed = closed\<rparr>)"

definition is_mdns_active :: "NetworkState \<Rightarrow> bool" where
  "is_mdns_active ns \<longleftrightarrow> ns_discovery ns \<noteq> None"

definition node_event :: "node_env \<Rightarrow> CallbackEvent \<Rightarrow> NetworkState \<Rightarrow> NetworkState" where
  "node_event env e ns = ns\<lparr>ns_callback := send_event (ne_cb env e) e (ns_callback ns)\<rparr>"

definition reply :: "node_env \<Rightarrow> PeerId \<Rightarrow> InternalMessage \<Rightarrow> NetworkState \<Rightarrow> NetworkState" where
  "reply env pid m ns =
     (case encode_internal (ne_ext env) m (cfg_max_message_size (ns_config ns)) of
        Inl _ \<Rightarrow> ns
      | Inr p \<Rightarrow> ns\<lparr>ns_transport := snd (send_to_peer (ne_out env) pid p (ns_transport ns))\<rparr>)"

definition announce :: "node_env \<Rightarrow> InternalMessage \<Rightarrow> NetworkState \<Rightarrow> NetworkState" where
  "announce env m ns =
     (case encode_internal (ne_ext env) m (cfg_max_message_size (ns_config ns)) of
        Inl _ \<Rightarrow> ns
      | Inr p \<Rightarrow> ns\<lparr>ns_transport := snd (broadcast (ne_out env) p None (ns_transport ns))\<rparr>)"

text \<open>A peer that has completed a handshake is entered in the membership table, or revived there.\<close>

definition admit_peer :: "node_env \<Rightarrow> PeerId \<Rightarrow> NetworkState \<Rightarrow> NetworkState" where
  "admit_peer env pid ns =
     (case get_peer_addr (ns_transport ns) pid of
        None \<Rightarrow> ns
      | Some addr \<Rightarrow>
         (case add_peer (ne_now env 0) pid addr (ns_membership ns) of
            (Inr _, mm) \<Rightarrow> ns\<lparr>ns_membership := mm\<rparr>
          | (Inl _, mm) \<Rightarrow> ns\<lparr>ns_membership := update_last_seen (ne_now env 1) pid (update_status pid Connected mm)\<rparr>))"

definition sync_peer :: "string \<times> string \<Rightarrow> NetworkState \<Rightarrow> NetworkState" where
  "sync_peer entry ns =
     (case entry of (remote_id, addr) \<Rightarrow>
        let pid = PeerId remote_id in
        if pid = ns_local_peer_id ns \<or> has_peer (ns_membership ns) pid \<or> tm_has_peer (ns_transport ns) pid then ns
        else if as_str (ns_local_peer_id ns) > as_str pid then ns
        else ns\<lparr>ns_connects := ns_connects ns @ [addr]\<rparr>)"

definition heartbeat_msg :: "node_env \<Rightarrow> nat \<Rightarrow> NetworkState \<Rightarrow> InternalMessage" where
  "heartbeat_msg env i ns =
     Heartbeat (le_current_term (ns_leader ns)) (as_str (ns_local_peer_id ns)) (current_timestamp_ms (ne_wall env i))"

fun handle_internal :: "node_env \<Rightarrow> PeerId \<Rightarrow> InternalMessage \<Rightarrow> NetworkState \<Rightarrow> NetworkState" where
  "handle_internal env pid (Handshake remote_id _ _ _) ns = admit_peer env (PeerId remote_id) ns"
| "handle_internal env pid (HandshakeAck remote_id _ success _) ns =
     (if success then admit_peer env (PeerId remote_id) ns else ns)"
| "handle_internal env pid (PeerLeave leaving_id) ns =
     ns\<lparr>ns_transport := set_should_reconnect (PeerId leaving_id) False (ns_transport ns),
        ns_membership := remove_peer (PeerId leaving_id) (ns_membership ns)\<rparr>"
| "handle_internal env pid (PeerListSync peers) ns = fold sync_peer peers ns"
| "handle_internal env pid (Ping ts) ns =
     reply env pid (Pong ts) (ns\<lparr>ns_membership := update_last_seen (ne_now env 0) pid (ns_membership ns)\<rparr>)"
| "handle_internal env pid (Pong ts) ns =
     ns\<lparr>ns_membership := handle_pong (ne_wall env 0) (ne_now env 0) pid ts (ns_membership ns),
        ns_transport := update_rtt (ne_now env 2) pid (ucast (saturating_sub (current_timestamp_ms (ne_wall env 1)) ts))
                          (tm_update_last_seen (ne_now env 1) pid (ns_transport ns))\<rparr>"
| "handle_internal env pid (Heartbeat trm lid ts) ns =
     reply env pid (HeartbeatResponse trm ts)
       (ns\<lparr>ns_leader := snd (handle_heartbeat trm lid (ns_leader ns)),
           ns_membership := update_last_seen (ne_now env 0) pid (ns_membership ns)\<rparr>)"
| "handle_internal env pid (HeartbeatResponse _ _) ns =
     ns\<lparr>ns_membership := update_last_seen (ne_now env 0) pid (ns_membership ns)\<rparr>"
| "handle_internal env pid (RequestVote trm cand) ns =
     (case handle_request_vote trm cand (ns_leader ns) of ((resp_term, granted), le) \<Rightarrow>
        reply env pid (VoteResponse resp_term (as_str (ns_local_peer_id ns)) granted) (ns\<lparr>ns_leader := le\<rparr>))"
| "handle_internal env pid (VoteResponse trm voter granted) ns =
     (case handle_vote_response trm voter granted (get_connected_peer_count (ns_membership ns)) (ns_leader ns) of
        (became_leader, le) \<Rightarrow>
          let ns1 = ns\<lparr>ns_leader := le\<rparr> in
          if became_leader then announce env (heartbeat_msg env 0 ns1) ns1 else ns1)"
| "handle_internal env pid (LeaderAssign trm lid assigner) ns =
     ns\<lparr>ns_leader := handle_leader_assign trm lid assigner (ns_leader ns)\<rparr>"
| "handle_internal env pid (ForwardedUserData from_id mt flags payload) ns =
     (case handle_forwarded_user_data (ne_ext env) (ne_out env) (ns_router ns) (ns_leader ns) from_id mt flags payload (ns_transport ns) of
        (res, tm) \<Rightarrow>
          let ns1 = ns\<lparr>ns_transport := tm\<rparr> in
          (case res of
             None \<Rightarrow> ns1
           | Some user_packet \<Rightarrow>
               let data = (case decode_payload (ne_ext env) user_packet of Inl _ \<Rightarrow> pkt_payload user_packet | Inr d \<Rightarrow> d) in
               node_event env (Received from_id data (pkt_type user_packet) (pkt_flags user_packet)) ns1))"
| "handle_internal env pid (DataChannelHandshake _) ns = ns"
| "handle_internal env pid (DataChannelHandshakeAck _ _) ns = ns"

definition handle_message :: "node_env \<Rightarrow> PeerId \<Rightarrow> RawPacket \<Rightarrow> NetworkState \<Rightarrow> NetworkState" where
  "handle_message env pid packet ns =
     (if is_internal packet then
        (case decode_internal (ne_ext env) packet of
           Inl _ \<Rightarrow> ns
         | Inr msg \<Rightarrow> handle_internal env pid msg ns)
      else
        (case decode_payload (ne_ext env) packet of
           Inl _ \<Rightarrow> ns
         | Inr data \<Rightarrow> node_event env (Received (as_str pid) data (pkt_type packet) (pkt_flags packet)) ns))"

text \<open>The message handler's loop over the incoming queue; the inputs are what each \<^verbatim>\<open>select!\<close> yields.\<close>

datatype incoming_input = IncomingCancelled | IncomingClosed | IncomingPacket node_env PeerId RawPacket

fun message_loop :: "incoming_input list \<Rightarrow> NetworkState \<Rightarrow> NetworkState" where
  "message_loop [] ns = ns"
| "message_loop (IncomingCancelled # is) ns = ns"
| "message_loop (IncomingClosed # is) ns = ns"
| "message_loop (IncomingPacket env pid p # is) ns = message_loop is (handle_message env pid p ns)"

text \<open>The three periodic tasks, one tick each.\<close>

definition drop_timed_out :: "node_env \<Rightarrow> PeerId \<Rightarrow> NetworkState \<Rightarrow> NetworkState" where
  "drop_timed_out env pid ns =
     (let ns1 = ns\<lparr>ns_membership := update_status pid Disconnected (ns_membership ns)\<rparr>;
          ns2 = node_event env (PeerStatusChanged (as_str pid) (as_i32 Disconnected)) ns1 in
      ns2\<lparr>ns_transport := snd (disconnect_peer (ne_ext env) (ne_out env) pid (ns_transport ns2))\<rparr>)"

definition ping_tick :: "node_env \<Rightarrow> NetworkState \<Rightarrow> NetworkState" where
  "ping_tick env ns =
     (let ns1 = announce env (Ping (current_timestamp_ms (ne_wall env 0))) ns in
      fold (drop_timed_out env) (check_timeouts (ne_now env 0) (ns_membership ns1)) ns1)"

definition heartbeat_tick :: "node_env \<Rightarrow> NetworkState \<Rightarrow> NetworkState" where
  "heartbeat_tick env ns =
     (if \<not> le_is_leader (ns_leader ns) then ns else announce env (heartbeat_msg env 0 ns) ns)"

text \<open>The sleep before an election tick is drawn by the random generator from this range, both ends included.\<close>

definition election_delay_ok :: "NetworkConfig \<Rightarrow> u16 \<Rightarrow> bool" where
  "election_delay_ok config d \<longleftrightarrow> election_timeout_min_ms config \<le> d \<and> d \<le> election_timeout_max_ms config"

definition election_tick :: "node_env \<Rightarrow> NetworkState \<Rightarrow> NetworkState" where
  "election_tick env ns =
     (if le_is_leader (ns_leader ns) \<or> \<not> is_auto_election_enabled (ns_leader ns) \<or> le_leader_id (ns_leader ns) \<noteq> None then ns
      else
        (case start_election (get_connected_peer_count (ns_membership ns)) (ns_leader ns) of
           (Some (trm, cand), le) \<Rightarrow> announce env (RequestVote trm cand) (ns\<lparr>ns_leader := le\<rparr>)
         | (None, le) \<Rightarrow>
             let ns1 = ns\<lparr>ns_leader := le\<rparr> in
             if le_is_leader le then announce env (heartbeat_msg env 0 ns1) ns1 else ns1))"

text \<open>
  The watchers. Each takes the next entry of the channel it reads. A membership watcher that has fallen
  behind skips \<open>lag\<close> events and goes on; the other two channels are bounded and drop what does not fit, so their
  watchers never see the \<open>lost\<close> entries that come before the next one they get.
\<close>

definition leader_watch :: "node_env \<Rightarrow> nat \<Rightarrow> NetworkState \<Rightarrow> NetworkState" where
  "leader_watch env lost ns =
     (let i = ns_leader_seen ns + lost in
      if i < length (le_notified (ns_leader ns)) then
        node_event env (LeaderChanged (map_option as_str (le_notified (ns_leader ns) ! i))) (ns\<lparr>ns_leader_seen := Suc i\<rparr>)
      else ns)"

fun on_membership_event :: "node_env \<Rightarrow> MembershipEvent \<Rightarrow> NetworkState \<Rightarrow> NetworkState" where
  "on_membership_event env (Joined pid) ns = node_event env (PeerStatusChanged (as_str pid) (as_i32 Connected)) ns"
| "on_membership_event env (Left pid) ns =
     node_event env (PeerStatusChanged (as_str pid) (as_i32 Disconnected))
       (ns\<lparr>ns_leader := handle_peer_left pid (ns_leader ns)\<rparr>)"
| "on_membership_event env (StatusChanged pid _ new) ns = node_event env (PeerStatusChanged (as_str pid) (as_i32 new)) ns"

definition membership_watch :: "node_env \<Rightarrow> nat \<Rightarrow> NetworkState \<Rightarrow> NetworkState" where
  "membership_watch env lag ns =
     (let i = ns_events_seen ns + lag in
      if i < length (mm_events (ns_membership ns)) then
        on_membership_event env (mm_events (ns_membership ns) ! i) (ns\<lparr>ns_events_seen := Suc i\<rparr>)
      else ns)"

definition reconnect_watch :: "node_env \<Rightarrow> nat \<Rightarrow> NetworkState \<Rightarrow> NetworkState" where
  "reconnect_watch env lost ns =
     (let i = ns_reconnect_seen ns + lost in
      if i < length (tm_reconnect_events (ns_transport ns)) then
        (case tm_reconnect_events (ns_transport ns) ! i of (pid, status) \<Rightarrow>
           node_event env (ReconnectStatus (as_str pid) status) (ns\<lparr>ns_reconnect_seen := Suc i\<rparr>))
      else ns)"

text \<open>
  Shutdown. The record says when draining starts and what its polls find, what the other tasks do to the node until the token is
  cancelled, and how many steps the callback thread makes before it is joined. The result is \<open>None\<close> when
  draining or joining would still be waiting.
\<close>

record shutdown_env =
  se_start :: instant
  se_polls :: "((nat \<Rightarrow> bool) \<times> instant \<times> TransportManager) list"
  se_meanwhile :: "NetworkState \<Rightarrow> NetworkState"
  se_steps :: nat

definition node_shutdown :: "node_env \<Rightarrow> shutdown_env \<Rightarrow> NetworkState \<Rightarrow> NetworkState option" where
  "node_shutdown env se ns =
     (case drain_send_queues (drain_deadline (se_start se) 1000000000) (se_polls se) of
        None \<Rightarrow> None
      | Some _ \<Rightarrow>
          let ns0 = ns\<lparr>ns_transport := broadcast_peer_leave (ne_ext env) (ne_out env) (ns_transport ns)\<rparr>;
              ns1 = se_meanwhile se ns0;
              ns2 = ns1\<lparr>ns_shutdown := True,
                         ns_mdns_closed := (case ns_discovery ns1 of
                            None \<Rightarrow> ns_mdns_closed ns1 | Some d \<Rightarrow> ns_mdns_closed ns1 @ [unregister_name d])\<rparr>;
              ns3 = ns2\<lparr>ns_callback := (callback_step ^^ se_steps se) (drain_and_shutdown (ns_callback ns2)),
                         ns_transport := transport_shutdown (ns_transport ns2)\<rparr> in
          map_option (\<lambda>cb. ns3\<lparr>ns_callback := cb\<rparr>) (join_thread (ns_callback ns3)))"

section \<open>The invariant of a node\<close>

definition tpart :: "PeerId \<Rightarrow> TransportManager \<Rightarrow> bool" where
  "tpart me tm \<longleftrightarrow> transport_inv tm \<and> tm_local_peer_id tm = me \<and> \<not> tm_has_peer tm me"

definition mpart :: "PeerId \<Rightarrow> MembershipManager \<Rightarrow> bool" where
  "mpart me mm \<longleftrightarrow> membership_inv mm \<and> mm_local_peer_id mm = me \<and> \<not> has_peer mm me \<and> Left me \<notin> set (mm_events mm)"

definition lpart :: "PeerId \<Rightarrow> LeaderElection \<Rightarrow> bool" where
  "lpart me le \<longleftrightarrow> leader_inv le \<and> le_local_peer_id le = me"

definition node_inv :: "NetworkState \<Rightarrow> bool" where
  "node_inv ns \<longleftrightarrow> tpart (ns_local_peer_id ns) (ns_transport ns) \<and> mpart (ns_local_peer_id ns) (ns_membership ns)
     \<and> lpart (ns_local_peer_id ns) (ns_leader ns) \<and> sr_local_peer_id (ns_router ns) = ns_local_peer_id ns"

text \<open>
  Everything that changes a node: incoming packets, timer ticks, watchers, and the operations that the transport's own
  tasks and the public interface perform on the managers.
\<close>

datatype node_op =
    NMessage node_env PeerId RawPacket
  | NPing node_env
  | NHeartbeat node_env
  | NElection node_env
  | NLeaderWatch node_env nat
  | NMemberWatch node_env nat
  | NReconnectWatch node_env nat
  | NTransport transport_op
  | NMember membership_op
  | NElect leader_op
  | NRouter router_op

fun node_exec :: "node_op \<Rightarrow> NetworkState \<Rightarrow> NetworkState" where
  "node_exec (NMessage env p pk) ns = handle_message env p pk ns"
| "node_exec (NPing env) ns = ping_tick env ns"
| "node_exec (NHeartbeat env) ns = heartbeat_tick env ns"
| "node_exec (NElection env) ns = election_tick env ns"
| "node_exec (NLeaderWatch env lost) ns = leader_watch env lost ns"
| "node_exec (NMemberWatch env lag) ns = membership_watch env lag ns"
| "node_exec (NReconnectWatch env lost) ns = reconnect_watch env lost ns"
| "node_exec (NTransport op) ns = ns\<lparr>ns_transport := transport_exec op (ns_transport ns)\<rparr>"
| "node_exec (NMember op) ns = ns\<lparr>ns_membership := membership_exec op (ns_membership ns)\<rparr>"
| "node_exec (NElect op) ns = ns\<lparr>ns_leader := leader_exec op (ns_leader ns)\<rparr>"
| "node_exec (NRouter op) ns = ns\<lparr>ns_router := router_exec op (ns_router ns)\<rparr>"

text \<open>No operation registers the node's own identifier as a peer, or reports its own departure to the election.\<close>

fun foreign_op :: "PeerId \<Rightarrow> node_op \<Rightarrow> bool" where
  "foreign_op me (NTransport (TRegister _ p _)) \<longleftrightarrow> p \<noteq> me"
| "foreign_op me (NMember (MAdd _ p _)) \<longleftrightarrow> p \<noteq> me"
| "foreign_op me (NElect (OpPeerLeft p)) \<longleftrightarrow> p \<noteq> me"
| "foreign_op me _ \<longleftrightarrow> True"

section \<open>Lemmas\<close>

lemma hm_contains_simps [simp]:
  "hm_contains (hm_insert k v m) q \<longleftrightarrow> q = k \<or> hm_contains m q"
  "hm_contains (hm_remove k m) q \<longleftrightarrow> q \<noteq> k \<and> hm_contains m q"
  "hm_contains (hm_modify k f m) q \<longleftrightarrow> hm_contains m q" "\<not> hm_contains [] q"
  by (auto simp: hm_lookup)

lemma cancel_all_more [simp]: "tm_local_peer_id (cancel_all cs tm) = tm_local_peer_id tm"
  by (induction cs arbitrary: tm) simp_all

lemma transport_exec_local: "tm_local_peer_id (transport_exec op tm) = tm_local_peer_id tm"
  by (cases op)
     (simp_all add: register_connection_def control_read_cleanup_def register_data_channel_def data_read_cleanup_def
       send_to_peer_eq broadcast_eq disconnect_peer_def broadcast_peer_leave_def transport_shutdown_def set_should_reconnect_def
       set_auto_reconnect_def update_peer_status_def tm_update_last_seen_def update_rtt_def modify_info_def Let_def spawn_def
       split: option.split sum.split)

lemma transport_exec_peers:
  "tm_has_peer (transport_exec op tm) p \<Longrightarrow> tm_has_peer tm p \<or> (\<exists>now a. op = TRegister now p a)"
  by (cases op)
     (auto simp: register_connection_def control_read_cleanup_def register_data_channel_def data_read_cleanup_def
       send_to_peer_eq broadcast_eq disconnect_peer_def broadcast_peer_leave_def transport_shutdown_def set_should_reconnect_def
       set_auto_reconnect_def update_peer_status_def tm_update_last_seen_def update_rtt_def modify_info_def Let_def
       tm_has_peer_def split: option.splits sum.splits if_splits)

lemma tpart_exec:
  "tpart me tm \<Longrightarrow> (\<And>now a. op \<noteq> TRegister now me a) \<Longrightarrow> tpart me (transport_exec op tm)"
  using transport_exec_peers [of op tm me] by (auto simp: tpart_def transport_inv_exec transport_exec_local)

lemmas tpart_ops =
  tpart_exec [where op = "TSend out p pk" for out p pk, simplified]
  tpart_exec [where op = "TBroadcast out pk ex" for out pk ex, simplified]
  tpart_exec [where op = "TDisconnect x out p" for x out p, simplified]
  tpart_exec [where op = "TShouldReconnect p b" for p b, simplified]
  tpart_exec [where op = "TSeen now p" for now p, simplified]
  tpart_exec [where op = "TRtt now p r" for now p r, simplified]

lemma mpart_exec:
  "mpart me mm \<Longrightarrow> (\<And>now a. op \<noteq> MAdd now me a) \<Longrightarrow> mpart me (membership_exec op mm)"
  unfolding mpart_def
  by (intro conjI membership_inv_exec; cases op)
     (auto simp: membership_defs has_peer_def hm_lookup split: option.splits if_splits)

lemmas mpart_ops =
  mpart_exec [where op = "MAdd now p a" for now p a, simplified]
  mpart_exec [where op = "MRemove p" for p, simplified]
  mpart_exec [where op = "MStatus p s" for p s, simplified]
  mpart_exec [where op = "MPong w now p t" for w now p t, simplified]
  mpart_exec [where op = "MSeen now p" for now p, simplified]

lemma lpart_exec: "lpart me le \<Longrightarrow> op \<noteq> OpPeerLeft me \<Longrightarrow> lpart me (leader_exec op le)"
  by (auto simp: lpart_def leader_inv_exec)

lemmas lpart_ops =
  lpart_exec [where op = "OpStartElection n" for n, simplified]
  lpart_exec [where op = "OpRequestVote t c" for t c, simplified]
  lpart_exec [where op = "OpVoteResponse t v g n" for t v g n, simplified]
  lpart_exec [where op = "OpHeartbeat t l" for t l, simplified]
  lpart_exec [where op = "OpLeaderAssign t l a" for t l a, simplified]
  lpart_exec [where op = "OpPeerLeft p" for p, simplified]

lemma node_inv_event [simp]: "node_inv (node_event env e ns) \<longleftrightarrow> node_inv ns"
  by (simp add: node_inv_def node_event_def)

lemma node_inv_reply: "node_inv ns \<Longrightarrow> node_inv (reply env p m ns)"
  by (simp add: node_inv_def reply_def tpart_ops split: sum.split)

lemma node_inv_announce: "node_inv ns \<Longrightarrow> node_inv (announce env m ns)"
  by (simp add: node_inv_def announce_def tpart_ops split: sum.split)

lemma node_inv_seen:
  "node_inv (ns\<lparr>ns_events_seen := i\<rparr>) \<longleftrightarrow> node_inv ns" "node_inv (ns\<lparr>ns_leader_seen := i\<rparr>) \<longleftrightarrow> node_inv ns"
  "node_inv (ns\<lparr>ns_reconnect_seen := i\<rparr>) \<longleftrightarrow> node_inv ns" "node_inv (ns\<lparr>ns_connects := l\<rparr>) \<longleftrightarrow> node_inv ns"
  by (simp_all add: node_inv_def)

lemma node_inv_leader: "node_inv ns \<Longrightarrow> op \<noteq> OpPeerLeft (ns_local_peer_id ns) \<Longrightarrow> node_inv (ns\<lparr>ns_leader := leader_exec op (ns_leader ns)\<rparr>)"
  by (simp add: node_inv_def lpart_exec)

lemma node_inv_member:
  "node_inv ns \<Longrightarrow> (\<And>now a. op \<noteq> MAdd now (ns_local_peer_id ns) a) \<Longrightarrow>
     node_inv (ns\<lparr>ns_membership := membership_exec op (ns_membership ns)\<rparr>)"
  by (simp add: node_inv_def mpart_exec)

lemma node_inv_admit: "node_inv ns \<Longrightarrow> node_inv (admit_peer env p ns)"
proof -
  assume inv: "node_inv ns"
  show ?thesis
  proof (cases "get_peer_addr (ns_transport ns) p")
    case (Some a)
    then have "p \<noteq> ns_local_peer_id ns"
      using inv by (auto simp: node_inv_def tpart_def tm_has_peer_def hm_contains_def get_peer_addr_def)
    then have "mpart (ns_local_peer_id ns) (snd (add_peer (ne_now env 0) p a (ns_membership ns)))"
      using inv by (simp add: node_inv_def mpart_ops)
    then show ?thesis
      using inv Some
      by (cases "add_peer (ne_now env 0) p a (ns_membership ns)")
         (auto simp: admit_peer_def node_inv_def mpart_ops split: sum.split)
  qed (use inv in \<open>simp add: admit_peer_def\<close>)
qed

lemma node_inv_sync: "node_inv ns \<Longrightarrow> node_inv (fold sync_peer peers ns)"
proof (induction peers arbitrary: ns)
  case (Cons e peers)
  have "node_inv (sync_peer e ns)"
    using Cons.prems by (simp add: sync_peer_def Let_def node_inv_seen split: prod.split)
  then show ?case using Cons.IH by simp
qed simp

lemma reply_frame: "ns_local_peer_id (reply env p m ns) = ns_local_peer_id ns" "ns_leader (reply env p m ns) = ns_leader ns"
  by (simp_all add: reply_def split: sum.split)

lemma forwarded_tpart:
  "tpart me tm \<Longrightarrow> tpart me (snd (handle_forwarded_user_data x out r le from_id mt f pl tm))"
  by (simp add: handle_forwarded_user_data_def forward_message_def with_packet_def tpart_ops split: sum.split)

lemma node_inv_internal: "node_inv ns \<Longrightarrow> node_inv (handle_internal env pid msg ns)"
proof (cases msg)
  case (RequestVote t c)
  assume inv: "node_inv ns"
  obtain t' g le where rv: "handle_request_vote t c (ns_leader ns) = ((t', g), le)" by (metis surj_pair)
  with node_inv_leader [OF inv, of "OpRequestVote t c"] have "node_inv (ns\<lparr>ns_leader := le\<rparr>)" by simp
  with RequestVote rv show ?thesis by (simp add: node_inv_reply)
next
  case (VoteResponse t v g)
  assume inv: "node_inv ns"
  let ?n = "get_connected_peer_count (ns_membership ns)"
  obtain b le where vr: "handle_vote_response t v g ?n (ns_leader ns) = (b, le)" by fastforce
  with node_inv_leader [OF inv, of "OpVoteResponse t v g ?n"] have "node_inv (ns\<lparr>ns_leader := le\<rparr>)" by simp
  with VoteResponse vr show ?thesis by (simp add: node_inv_announce Let_def)
next
  case (Heartbeat t l ts)
  assume "node_inv ns"
  then have "node_inv (ns\<lparr>ns_leader := snd (handle_heartbeat t l (ns_leader ns)),
      ns_membership := update_last_seen (ne_now env 0) pid (ns_membership ns)\<rparr>)"
    by (simp add: node_inv_def lpart_ops mpart_ops)
  with Heartbeat show ?thesis by (simp add: node_inv_reply)
next
  case (ForwardedUserData i mt f pl)
  assume "node_inv ns"
  with ForwardedUserData show ?thesis
    using forwarded_tpart [of "ns_local_peer_id ns" "ns_transport ns" "ne_ext env" "ne_out env" "ns_router ns" "ns_leader ns" i mt f pl]
    by (simp add: case_prod_unfold Let_def node_inv_def node_event_def split: option.split)
next
  case (Ping ts)
  assume "node_inv ns"
  then have "node_inv (ns\<lparr>ns_membership := update_last_seen (ne_now env 0) pid (ns_membership ns)\<rparr>)"
    by (simp add: node_inv_def mpart_ops)
  with Ping show ?thesis by (simp add: node_inv_reply)
qed (simp_all add: node_inv_admit node_inv_sync, simp_all add: node_inv_def tpart_ops mpart_ops lpart_ops)

lemma node_inv_message: "node_inv ns \<Longrightarrow> node_inv (handle_message env pid p ns)"
  by (simp add: handle_message_def node_inv_internal split: sum.split)

lemma node_inv_drop: "node_inv ns \<Longrightarrow> node_inv (drop_timed_out env p ns)"
  by (simp add: drop_timed_out_def Let_def node_event_def node_inv_def tpart_ops mpart_ops)

lemma node_inv_ping: "node_inv ns \<Longrightarrow> node_inv (ping_tick env ns)"
proof -
  assume "node_inv ns"
  moreover have "node_inv ns \<Longrightarrow> node_inv (fold (drop_timed_out env) ps ns)" for ps ns
    by (induction ps arbitrary: ns) (simp_all add: node_inv_drop)
  ultimately show ?thesis by (simp add: ping_tick_def Let_def node_inv_announce)
qed

lemma node_inv_election: "node_inv ns \<Longrightarrow> node_inv (election_tick env ns)"
proof -
  assume inv: "node_inv ns"
  let ?n = "get_connected_peer_count (ns_membership ns)"
  obtain r le where se: "start_election ?n (ns_leader ns) = (r, le)" by fastforce
  with node_inv_leader [OF inv, of "OpStartElection ?n"] have "node_inv (ns\<lparr>ns_leader := le\<rparr>)" by simp
  with inv se show ?thesis
    by (simp add: election_tick_def node_inv_announce Let_def split: option.split)
qed

lemma node_inv_watch: "node_inv ns \<Longrightarrow> node_inv (membership_watch env lag ns)"
proof -
  assume inv: "node_inv ns"
  let ?i = "ns_events_seen ns + lag"
  show ?thesis
  proof (cases "?i < length (mm_events (ns_membership ns))")
    case True
    then have "mm_events (ns_membership ns) ! ?i \<in> set (mm_events (ns_membership ns))" by simp
    then have "mm_events (ns_membership ns) ! ?i \<noteq> Left (ns_local_peer_id ns)"
      using inv by (auto simp: node_inv_def mpart_def)
    with inv True show ?thesis
      by (cases "mm_events (ns_membership ns) ! ?i")
         (simp_all add: membership_watch_def Let_def node_inv_seen, simp add: node_inv_def lpart_ops)
  qed (use inv in \<open>simp add: membership_watch_def\<close>)
qed

lemma node_inv_exec: "node_inv ns \<Longrightarrow> foreign_op (ns_local_peer_id ns) op \<Longrightarrow> node_inv (node_exec op ns)"
proof (cases op)
  case (NTransport t)
  assume "node_inv ns" "foreign_op (ns_local_peer_id ns) op"
  with NTransport show ?thesis by (auto simp: node_inv_def intro: tpart_exec)
next
  case (NMember t)
  assume "node_inv ns" "foreign_op (ns_local_peer_id ns) op"
  with NMember show ?thesis by (auto simp: node_inv_def intro: mpart_exec)
next
  case (NElect t)
  assume "node_inv ns" "foreign_op (ns_local_peer_id ns) op"
  with NElect show ?thesis by (auto simp: node_inv_def intro: lpart_exec)
next
  case (NRouter t)
  assume "node_inv ns"
  with NRouter show ?thesis by (simp add: node_inv_def)
qed (simp_all add: node_inv_message node_inv_ping heartbeat_tick_def node_inv_announce node_inv_election leader_watch_def
      node_inv_watch reconnect_watch_def node_inv_seen Let_def split: prod.split)

lemma frame_local [simp]:
  "ns_local_peer_id (reply env p m ns) = ns_local_peer_id ns" "ns_local_peer_id (announce env m ns) = ns_local_peer_id ns"
  "ns_local_peer_id (node_event env e ns) = ns_local_peer_id ns" "ns_local_peer_id (admit_peer env p ns) = ns_local_peer_id ns"
  "ns_local_peer_id (sync_peer q ns) = ns_local_peer_id ns" "ns_local_peer_id (drop_timed_out env p ns) = ns_local_peer_id ns"
  by (simp_all add: reply_def announce_def node_event_def admit_peer_def sync_peer_def drop_timed_out_def Let_def
      split: sum.split option.split prod.split)

lemma fold_local: "(\<And>q ns. ns_local_peer_id (f q ns) = ns_local_peer_id ns) \<Longrightarrow> ns_local_peer_id (fold f qs ns) = ns_local_peer_id ns"
  by (induction qs arbitrary: ns) simp_all

lemma handle_internal_local: "ns_local_peer_id (handle_internal env pid msg ns) = ns_local_peer_id ns"
  by (cases msg) (simp_all add: fold_local case_prod_unfold Let_def split: option.split)

lemma on_membership_event_local: "ns_local_peer_id (on_membership_event env e ns) = ns_local_peer_id ns"
  by (cases e) simp_all

lemma node_exec_local [simp]: "ns_local_peer_id (node_exec op ns) = ns_local_peer_id ns"
  by (cases op)
     (simp_all add: handle_message_def handle_internal_local ping_tick_def heartbeat_tick_def election_tick_def leader_watch_def
       membership_watch_def reconnect_watch_def on_membership_event_local fold_local Let_def split: sum.split prod.split option.split)

interpretation node_steps: invariant_system node_exec node_inv "\<lambda>ns. foreign_op (ns_local_peer_id ns)"
  by unfold_locales (simp_all add: node_inv_exec)

section \<open>Properties\<close>

definition demo_node :: "string \<Rightarrow> NetworkState" where
  "demo_node name = (case node_new name ''s'' config_default (Inr (demo_addr 4000)) None None (\<lambda>_. None) (\<lambda>_. None) of Inr ns \<Rightarrow> ns)"

definition demo_env :: node_env where
  "demo_env = \<lparr>ne_ext = table_ext [Ping 0, Pong 0], ne_out = (\<lambda>_ _. Sent), ne_cb = (\<lambda>_. Sent), ne_now = (\<lambda>_. 0), ne_wall = (\<lambda>_. 0)\<rparr>"

lemma node_new_fields:
  "node_new name sess cfg bound d h c r = Inr ns \<Longrightarrow>
     ns_callback ns = callback_new \<and> ns_local_peer_id ns = PeerId name \<and> ns_config ns = cfg \<and> ns_events_seen ns = 0
   \<and> ns_membership ns = membership_new (PeerId name) cfg
   \<and> ns_leader ns = leader_election_new (PeerId name) (cfg_auto_election_enabled cfg) (cfg_manual_override_recovery cfg)
   \<and> tm_connections (ns_transport ns) = [] \<and> tm_local_peer_id (ns_transport ns) = PeerId name \<and> tm_config (ns_transport ns) = cfg
   \<and> transport_inv (ns_transport ns) \<and> sr_local_peer_id (ns_router ns) = PeerId name \<and> ns_router ns = router_new (PeerId name) cfg"
  using transport_inv_new [of "PeerId name" sess cfg bound]
  by (auto simp: node_new_def router_new_def Let_def transport_new_def split: sum.splits)

lemma node_inv_new: "node_new name sess cfg bound d h c r = Inr ns \<Longrightarrow> node_inv ns"
  using node_new_fields [of name sess cfg bound d h c r ns] membership_inv_new leader_inv_new
  by (simp add: node_inv_def tpart_def mpart_def lpart_def tm_has_peer_def)
     (simp add: has_peer_def membership_new_def leader_election_new_def router_new_def)

lemma demo_node_eq:
  "node_new name ''s'' config_default (Inr (demo_addr 4000)) None None (\<lambda>_. None) (\<lambda>_. None) = Inr (demo_node name)"
  by (simp add: demo_node_def node_new_def transport_new_def Let_def split: sum.split)

text \<open>
  The node invariant. From the start of a node, through any interleaving of incoming packets, timer ticks,
  watchers, transport tasks and interface calls that never register the node's own identifier as a peer: the connection table and the
  membership table keep their invariants, the election state stays consistent, all managers agree on the node's identity, and the node never
  appears in its own tables.
\<close>

theorem node_invariant:
  assumes "node_new name sess cfg bound d h c r = Inr ns" "list_all (foreign_op (PeerId name)) ops"
  shows "node_inv (fold node_exec ops ns)"
  using node_steps.run_keeps [OF node_inv_new [OF assms(1)]] node_new_fields [OF assms(1)] assms(2) by simp

theorem node_invariant_witness:
  "node_inv (fold node_exec [NTransport (TRegister 0 (PeerId ''b'') (demo_addr 1)), NPing demo_env, NElection demo_env, NMemberWatch demo_env 0]
     (demo_node ''a''))"
  by (rule node_invariant [OF demo_node_eq]) simp

text \<open>
  A user message is delivered as it was packed. When a user packet arrives whose payload unpacks, the node queues exactly one
  receive event with the sender, the unpacked data, the packet's type and its flags, and nothing else of the node changes; a packet that does not
  unpack is ignored.
\<close>

theorem user_packet_delivered:
  assumes "\<not> is_internal p"
  shows "handle_message env pid p ns =
    (case decode_payload (ne_ext env) p of
       Inl _ \<Rightarrow> ns
     | Inr data \<Rightarrow> let e = Received (as_str pid) data (pkt_type p) (pkt_flags p) in
         ns\<lparr>ns_callback := (if cb_open (ns_callback ns) \<and> ne_cb env e = Sent
                            then (ns_callback ns)\<lparr>cb_queue := cb_queue (ns_callback ns) @ [e]\<rparr> else ns_callback ns)\<rparr>)"
  using assms by (simp add: handle_message_def node_event_def send_event_def Let_def split: sum.split)

theorem user_packet_delivered_witness:
  "cb_queue (ns_callback (handle_message demo_env (PeerId ''b'') ping_packet (demo_node ''a''))) = [Received ''b'' [7] 0x0100 0]"
proof -
  have "\<not> is_internal ping_packet" by (simp add: ping_packet_def is_internal_def USER_MESSAGE_START_def)
  moreover have "decode_payload (ne_ext demo_env) ping_packet = Inr [7]"
    by (simp add: decode_payload_def is_compressed_def ping_packet_def)
  moreover have "ns_callback (demo_node ''a'') = callback_new"
    using node_new_fields [OF demo_node_eq [of "''a''"]] by blast
  ultimately show ?thesis
    using user_packet_delivered [of ping_packet demo_env "PeerId ''b''" "demo_node ''a''"]
    by (simp add: Let_def callback_new_def demo_env_def ping_packet_def)
qed

lemma election_tick_blocked: "le_leader_id (ns_leader ns) \<noteq> None \<Longrightarrow> election_tick env ns = ns"
  by (simp add: election_tick_def)

lemma announce_frame: "ns_leader (announce env m ns) = ns_leader ns" "ns_membership (announce env m ns) = ns_membership ns"
    "ns_events_seen (announce env m ns) = ns_events_seen ns" "ns_callback (announce env m ns) = ns_callback ns"
  by (simp_all add: announce_def split: sum.split)

lemma drop_timed_out_events:
  "\<exists>es. mm_events (ns_membership (drop_timed_out env p ns)) = mm_events (ns_membership ns) @ es \<and> (\<forall>q. Left q \<notin> set es)"
  "ns_leader (drop_timed_out env p ns) = ns_leader ns" "ns_events_seen (drop_timed_out env p ns) = ns_events_seen ns"
  by (auto simp: drop_timed_out_def Let_def node_event_def update_status_def mm_emit_def split: option.split)

lemma ping_tick_events:
  "(\<exists>es. mm_events (ns_membership (ping_tick env ns)) = mm_events (ns_membership ns) @ es \<and> (\<forall>q. Left q \<notin> set es))
   \<and> ns_leader (ping_tick env ns) = ns_leader ns \<and> ns_events_seen (ping_tick env ns) = ns_events_seen ns"
proof -
  have folded: "(\<exists>es. mm_events (ns_membership (fold (drop_timed_out env) ps ns)) = mm_events (ns_membership ns) @ es \<and> (\<forall>q. Left q \<notin> set es))
     \<and> ns_leader (fold (drop_timed_out env) ps ns) = ns_leader ns \<and> ns_events_seen (fold (drop_timed_out env) ps ns) = ns_events_seen ns" for ps ns
  proof (induction ps arbitrary: ns)
    case (Cons p ps)
    obtain es where "mm_events (ns_membership (drop_timed_out env p ns)) = mm_events (ns_membership ns) @ es" "\<forall>q. Left q \<notin> set es"
      using drop_timed_out_events(1) by blast
    moreover obtain fs where "mm_events (ns_membership (fold (drop_timed_out env) ps (drop_timed_out env p ns)))
        = mm_events (ns_membership (drop_timed_out env p ns)) @ fs" "\<forall>q. Left q \<notin> set fs"
      using Cons.IH by blast
    ultimately show ?case using Cons.IH [of "drop_timed_out env p ns"] drop_timed_out_events(2,3) [of env p ns]
      by (intro conjI exI [of _ "es @ fs"]) auto
  qed simp
  show ?thesis
    unfolding ping_tick_def Let_def
    using folded [of _ "announce env (Ping (current_timestamp_ms (ne_wall env 0))) ns"] by (simp add: announce_frame)
qed





text \<open>
  A timed-out peer is reported twice. Dropping a connected peer that has timed out queues a disconnected event at once, and the membership event it
  also emits makes the watcher queue the same event again.
\<close>

theorem timeout_reported_twice:
  assumes "get_peer_status (ns_membership ns) p = Some Connected" "ns_events_seen ns = length (mm_events (ns_membership ns))"
    and "cb_open (ns_callback ns)" "ne_cb env = (\<lambda>_. Sent)"
  shows "cb_queue (ns_callback (membership_watch env 0 (drop_timed_out env p ns)))
    = cb_queue (ns_callback ns) @ [PeerStatusChanged (as_str p) 1, PeerStatusChanged (as_str p) 1]"
  using assms
  by (auto simp: drop_timed_out_def membership_watch_def node_event_def send_event_def Let_def update_status_def mm_emit_def
      get_peer_status_def)

theorem timeout_reported_twice_witness:
  "let ns = (demo_node ''a'')\<lparr>ns_membership := sample_table, ns_events_seen := 2\<rparr> in
   cb_queue (ns_callback (membership_watch demo_env 0 (drop_timed_out demo_env (PeerId ''p'') ns)))
     = [PeerStatusChanged ''p'' 1, PeerStatusChanged ''p'' 1]"
  using timeout_reported_twice [of "(demo_node ''a'')\<lparr>ns_membership := sample_table, ns_events_seen := 2\<rparr>" "PeerId ''p''" demo_env]
    node_new_fields [OF demo_node_eq [of "''a''"]]
  by (simp add: get_peer_status_def sample_table_run callback_new_def demo_env_def)



end
