(* ===== verification/Node_Tasks.thy ===== *)
theory Node_Tasks
  imports Node
begin

text \<open>
  The tasks of a running node (\<^verbatim>\<open>src/lib.rs\<close>) at the granularity of their critical sections. The theory \<open>Node\<close> runs a handler, a timer
  tick or a watcher in one step; on the runtime they run concurrently, and only what happens under one lock is atomic. Here each of
  them is a \<open>task\<close>: a tree of critical sections that carries the values the code has read so far. Run without
  interruption a task does what \<open>Node\<close> says; run among others its sections may be
  separated by anything. Where the source releases a lock before it announces what it did, the announcement is a section of its own.
\<close>

section \<open>Tasks\<close>

text \<open>
  \<open>Sec u k\<close> is a critical section: it changes the node by \<open>u\<close> and goes on with what \<open>k\<close> makes of the state it found. \<open>Count k\<close> reads the
  number of connected peers from the membership table; it is a section of its own because elections depend on it.
\<close>

datatype task = Done | Sec "NetworkState \<Rightarrow> NetworkState" "NetworkState \<Rightarrow> task" | Count "nat \<Rightarrow> task"

primrec run :: "task \<Rightarrow> NetworkState \<Rightarrow> NetworkState" where
  "run Done ns = ns"
| "run (Sec u k) ns = run (k ns) (u ns)"
| "run (Count k) ns = run (k (get_connected_peer_count (ns_membership ns))) ns"

abbreviation act :: "(NetworkState \<Rightarrow> NetworkState) \<Rightarrow> task \<Rightarrow> task" where
  "act u t \<equiv> Sec u (\<lambda>_. t)"

abbreviation look :: "(NetworkState \<Rightarrow> 'a) \<Rightarrow> ('a \<Rightarrow> task) \<Rightarrow> task" where
  "look r k \<equiv> Sec (\<lambda>ns. ns) (\<lambda>ns. k (r ns))"

text \<open>
  An operation of the membership table changes it under the lock and sends its events after the lock has been released. Most operations of the election do
  the same with their notification; the ones that make the node itself leader notify under the lock.
\<close>

definition with_member :: "(MembershipManager \<Rightarrow> 'a \<times> MembershipManager) \<Rightarrow> ('a \<Rightarrow> task) \<Rightarrow> task" where
  "with_member f k =
     Sec (\<lambda>ns. ns\<lparr>ns_membership := (snd (f (ns_membership ns)))\<lparr>mm_events := mm_events (ns_membership ns)\<rparr>\<rparr>)
       (\<lambda>ns. case f (ns_membership ns) of (r, m) \<Rightarrow>
          let events = drop (length (mm_events (ns_membership ns))) (mm_events m) in
          if events = [] then k r
          else act (\<lambda>ns. ns\<lparr>ns_membership := fold mm_emit events (ns_membership ns)\<rparr>) (k r))"

definition with_leader :: "(LeaderElection \<Rightarrow> 'a \<times> LeaderElection) \<Rightarrow> ('a \<Rightarrow> task) \<Rightarrow> task" where
  "with_leader f k =
     Sec (\<lambda>ns. ns\<lparr>ns_leader := (snd (f (ns_leader ns)))\<lparr>le_notified := le_notified (ns_leader ns)\<rparr>\<rparr>)
       (\<lambda>ns. case f (ns_leader ns) of (r, le) \<Rightarrow>
          let notes = drop (length (le_notified (ns_leader ns))) (le_notified le) in
          if notes = [] then k r
          else act (\<lambda>ns. ns\<lparr>ns_leader := fold notify_leader_change notes (ns_leader ns)\<rparr>) (k r))"

abbreviation on_member :: "(MembershipManager \<Rightarrow> MembershipManager) \<Rightarrow> task \<Rightarrow> task" where
  "on_member f t \<equiv> with_member (\<lambda>m. ((), f m)) (\<lambda>_. t)"

abbreviation on_transport :: "(TransportManager \<Rightarrow> TransportManager) \<Rightarrow> task \<Rightarrow> task" where
  "on_transport f t \<equiv> act (\<lambda>ns. ns\<lparr>ns_transport := f (ns_transport ns)\<rparr>) t"

abbreviation on_leader :: "(LeaderElection \<Rightarrow> 'a \<times> LeaderElection) \<Rightarrow> ('a \<Rightarrow> task) \<Rightarrow> task" where
  "on_leader f k \<equiv> Sec (\<lambda>ns. ns\<lparr>ns_leader := snd (f (ns_leader ns))\<rparr>) (\<lambda>ns. k (fst (f (ns_leader ns))))"

section \<open>Sending\<close>

text \<open>
  A broadcast reads the table under the lock and then gives the packet to one queue after the other; by then a connection may have been removed. Disconnecting
  sends the farewell and takes the lock again to remove the connection. \<open>me\<close> and \<open>mx\<close> are the node's identifier and its message
  limit, which never change.
\<close>

fun send_each :: "send_env \<Rightarrow> RawPacket \<Rightarrow> (PeerId \<times> nat) list \<Rightarrow> task \<Rightarrow> task" where
  "send_each out p [] t = t"
| "send_each out p ((pid, tx) # ts) t = on_transport (\<lambda>tm. snd (try_send out tx p tm)) (send_each out p ts t)"

definition broadcast_task :: "send_env \<Rightarrow> RawPacket \<Rightarrow> PeerId list option \<Rightarrow> task \<Rightarrow> task" where
  "broadcast_task out p exclude t = look (\<lambda>ns. broadcast_targets p exclude (ns_transport ns)) (\<lambda>targets. send_each out p targets t)"

definition encoded :: "node_env \<Rightarrow> u32 \<Rightarrow> InternalMessage \<Rightarrow> task \<Rightarrow> (RawPacket \<Rightarrow> task) \<Rightarrow> task" where
  "encoded env mx m t k = (case encode_internal (ne_ext env) m mx of Inl _ \<Rightarrow> t | Inr p \<Rightarrow> k p)"

definition reply_task :: "node_env \<Rightarrow> u32 \<Rightarrow> PeerId \<Rightarrow> InternalMessage \<Rightarrow> task" where
  "reply_task env mx pid m = encoded env mx m Done (\<lambda>p. on_transport (\<lambda>tm. snd (send_to_peer (ne_out env) pid p tm)) Done)"

definition announce_task :: "node_env \<Rightarrow> u32 \<Rightarrow> InternalMessage \<Rightarrow> task \<Rightarrow> task" where
  "announce_task env mx m t = encoded env mx m t (\<lambda>p. broadcast_task (ne_out env) p None t)"

definition cut_connection :: "PeerId \<Rightarrow> TransportManager \<Rightarrow> TransportManager" where
  "cut_connection pid tm =
     (let tm1 = (case hm_get (tm_connections tm) pid of
                   None \<Rightarrow> tm
                 | Some conn \<Rightarrow> cancel_opt (data_cancel conn) (cancel (control_cancel conn) tm)) in
      tm1\<lparr>tm_connections := hm_remove pid (tm_connections tm1)\<rparr>)"

definition disconnect_task :: "ext \<Rightarrow> send_env \<Rightarrow> PeerId \<Rightarrow> u32 \<Rightarrow> PeerId \<Rightarrow> task \<Rightarrow> task" where
  "disconnect_task x out me mx pid t =
     (case encode_internal x (PeerLeave (as_str me)) mx of
        Inl _ \<Rightarrow> t
      | Inr leave \<Rightarrow> on_transport (\<lambda>tm. snd (send_to_peer out pid leave tm)) (on_transport (cut_connection pid) t))"

section \<open>The message handler\<close>

definition admit_task :: "node_env \<Rightarrow> PeerId \<Rightarrow> task" where
  "admit_task env pid =
     look (\<lambda>ns. get_peer_addr (ns_transport ns) pid) (\<lambda>found.
       case found of
         None \<Rightarrow> Done
       | Some addr \<Rightarrow> with_member (add_peer (ne_now env 0) pid addr) (\<lambda>r.
           case r of
             Inr _ \<Rightarrow> Done
           | Inl _ \<Rightarrow> on_member (update_status pid Connected) (on_member (update_last_seen (ne_now env 1) pid) Done)))"

fun sync_task :: "PeerId \<Rightarrow> (string \<times> string) list \<Rightarrow> task" where
  "sync_task me [] = Done"
| "sync_task me ((remote_id, addr) # peers) =
     (let pid = PeerId remote_id in
      if pid = me then sync_task me peers
      else look (\<lambda>ns. has_peer (ns_membership ns) pid) (\<lambda>known.
        if known then sync_task me peers
        else look (\<lambda>ns. tm_has_peer (ns_transport ns) pid) (\<lambda>connected.
          if connected \<or> as_str me > as_str pid then sync_task me peers
          else act (\<lambda>ns. ns\<lparr>ns_connects := ns_connects ns @ [addr]\<rparr>) (sync_task me peers))))"

definition beat_task :: "node_env \<Rightarrow> PeerId \<Rightarrow> u32 \<Rightarrow> nat \<Rightarrow> task" where
  "beat_task env me mx i = look (\<lambda>ns. le_current_term (ns_leader ns)) (\<lambda>trm.
     announce_task env mx (Heartbeat trm (as_str me) (current_timestamp_ms (ne_wall env i))) Done)"

definition packed_user :: "node_env \<Rightarrow> u32 \<Rightarrow> u16 \<Rightarrow> bytes \<Rightarrow> u8 \<Rightarrow> task \<Rightarrow> (RawPacket \<Rightarrow> task) \<Rightarrow> task" where
  "packed_user env mx mt data flags t k = look (\<lambda>ns. compression_threshold (ns_router ns)) (\<lambda>threshold.
     case encode_packet (ne_ext env) mt data flags threshold mx of Inl _ \<Rightarrow> t | Inr p \<Rightarrow> k p)"

definition forward_task :: "node_env \<Rightarrow> u32 \<Rightarrow> PeerId \<Rightarrow> ForwardTarget \<Rightarrow> u16 \<Rightarrow> u8 \<Rightarrow> bytes \<Rightarrow> task \<Rightarrow> task" where
  "forward_task env mx from_peer target mt flags payload t =
     (if mt < USER_MESSAGE_START then t
      else look (\<lambda>ns. le_is_leader (ns_leader ns)) (\<lambda>leads.
        if \<not> leads then t
        else packed_user env mx mt payload (flags AND 0xFE) t (\<lambda>p.
          case target of
            FwdToPeer pid \<Rightarrow> on_transport (\<lambda>tm. snd (send_to_peer (ne_out env) pid p tm)) t
          | FwdBroadcast \<Rightarrow> broadcast_task (ne_out env) p (Some [from_peer]) t)))"

definition forwarded_task :: "node_env \<Rightarrow> u32 \<Rightarrow> string \<Rightarrow> u16 \<Rightarrow> u8 \<Rightarrow> bytes \<Rightarrow> task" where
  "forwarded_task env mx from_id mt flags payload =
     (let user_packet = \<lparr>pkt_type = mt, pkt_flags = flags, pkt_payload = payload\<rparr>;
          data = (case decode_payload (ne_ext env) user_packet of Inl _ \<Rightarrow> payload | Inr d \<Rightarrow> d);
          deliver = act (node_event env (Received from_id data mt flags)) Done in
      look (\<lambda>ns. le_is_leader (ns_leader ns)) (\<lambda>leads.
        if \<not> leads then deliver
        else look (\<lambda>ns. is_auto_forward (ns_router ns)) (\<lambda>auto.
          if auto then forward_task env mx (PeerId from_id) FwdBroadcast mt flags payload deliver else deliver)))"

fun handle_internal_task :: "node_env \<Rightarrow> PeerId \<Rightarrow> u32 \<Rightarrow> PeerId \<Rightarrow> InternalMessage \<Rightarrow> task" where
  "handle_internal_task env me mx pid (Handshake remote_id _ _ _) = admit_task env (PeerId remote_id)"
| "handle_internal_task env me mx pid (HandshakeAck remote_id _ success _) =
     (if success then admit_task env (PeerId remote_id) else Done)"
| "handle_internal_task env me mx pid (PeerLeave leaving_id) =
     on_transport (set_should_reconnect (PeerId leaving_id) False) (on_member (remove_peer (PeerId leaving_id)) Done)"
| "handle_internal_task env me mx pid (PeerListSync peers) = sync_task me peers"
| "handle_internal_task env me mx pid (Ping ts) =
     on_member (update_last_seen (ne_now env 0) pid) (reply_task env mx pid (Pong ts))"
| "handle_internal_task env me mx pid (Pong ts) =
     on_member (handle_pong (ne_wall env 0) (ne_now env 0) pid ts)
       (on_transport (tm_update_last_seen (ne_now env 1) pid)
         (on_transport (update_rtt (ne_now env 2) pid (ucast (saturating_sub (current_timestamp_ms (ne_wall env 1)) ts))) Done))"
| "handle_internal_task env me mx pid (Heartbeat trm lid ts) =
     with_leader (handle_heartbeat trm lid) (\<lambda>_.
       on_member (update_last_seen (ne_now env 0) pid) (reply_task env mx pid (HeartbeatResponse trm ts)))"
| "handle_internal_task env me mx pid (HeartbeatResponse _ _) = on_member (update_last_seen (ne_now env 0) pid) Done"
| "handle_internal_task env me mx pid (RequestVote trm cand) =
     on_leader (handle_request_vote trm cand) (\<lambda>(resp_term, granted).
       reply_task env mx pid (VoteResponse resp_term (as_str me) granted))"
| "handle_internal_task env me mx pid (VoteResponse trm voter granted) =
     Count (\<lambda>count. on_leader (handle_vote_response trm voter granted count) (\<lambda>became_leader.
       if became_leader then beat_task env me mx 0 else Done))"
| "handle_internal_task env me mx pid (LeaderAssign trm lid assigner) =
     with_leader (\<lambda>le. ((), handle_leader_assign trm lid assigner le)) (\<lambda>_. Done)"
| "handle_internal_task env me mx pid (ForwardedUserData from_id mt flags payload) = forwarded_task env mx from_id mt flags payload"
| "handle_internal_task env me mx pid (DataChannelHandshake _) = Done"
| "handle_internal_task env me mx pid (DataChannelHandshakeAck _ _) = Done"

definition handle_message_task :: "node_env \<Rightarrow> PeerId \<Rightarrow> u32 \<Rightarrow> PeerId \<Rightarrow> RawPacket \<Rightarrow> task" where
  "handle_message_task env me mx pid packet =
     (if is_internal packet then
        (case decode_internal (ne_ext env) packet of
           Inl _ \<Rightarrow> Done
         | Inr msg \<Rightarrow> handle_internal_task env me mx pid msg)
      else
        (case decode_payload (ne_ext env) packet of
           Inl _ \<Rightarrow> Done
         | Inr data \<Rightarrow> act (node_event env (Received (as_str pid) data (pkt_type packet) (pkt_flags packet))) Done))"

section \<open>Timers and watchers\<close>

fun drop_task :: "node_env \<Rightarrow> PeerId \<Rightarrow> u32 \<Rightarrow> PeerId list \<Rightarrow> task" where
  "drop_task env me mx [] = Done"
| "drop_task env me mx (pid # pids) =
     on_member (update_status pid Disconnected)
       (act (node_event env (PeerStatusChanged (as_str pid) (as_i32 Disconnected)))
         (disconnect_task (ne_ext env) (ne_out env) me mx pid (drop_task env me mx pids)))"

definition ping_task :: "node_env \<Rightarrow> PeerId \<Rightarrow> u32 \<Rightarrow> task" where
  "ping_task env me mx =
     announce_task env mx (Ping (current_timestamp_ms (ne_wall env 0)))
       (look (\<lambda>ns. check_timeouts (ne_now env 0) (ns_membership ns)) (drop_task env me mx))"

definition heartbeat_task :: "node_env \<Rightarrow> PeerId \<Rightarrow> u32 \<Rightarrow> task" where
  "heartbeat_task env me mx = look (\<lambda>ns. le_is_leader (ns_leader ns)) (\<lambda>leads. if \<not> leads then Done else beat_task env me mx 0)"

definition election_task :: "node_env \<Rightarrow> PeerId \<Rightarrow> u32 \<Rightarrow> task" where
  "election_task env me mx =
     look (\<lambda>ns. le_is_leader (ns_leader ns)) (\<lambda>leads. if leads then Done
     else look (\<lambda>ns. is_auto_election_enabled (ns_leader ns)) (\<lambda>auto. if \<not> auto then Done
     else look (\<lambda>ns. le_leader_id (ns_leader ns)) (\<lambda>known. if known \<noteq> None then Done
     else Count (\<lambda>count. on_leader (start_election count) (\<lambda>req.
       case req of
         Some (trm, cand) \<Rightarrow> announce_task env mx (RequestVote trm cand) Done
       | None \<Rightarrow> look (\<lambda>ns. le_is_leader (ns_leader ns)) (\<lambda>leads. if leads then beat_task env me mx 0 else Done))))))"

definition leader_watch_task :: "node_env \<Rightarrow> nat \<Rightarrow> task" where
  "leader_watch_task env lost =
     Sec (\<lambda>ns. if ns_leader_seen ns + lost < length (le_notified (ns_leader ns)) then ns\<lparr>ns_leader_seen := Suc (ns_leader_seen ns + lost)\<rparr> else ns)
       (\<lambda>ns. if ns_leader_seen ns + lost < length (le_notified (ns_leader ns))
          then act (node_event env (LeaderChanged (map_option as_str (le_notified (ns_leader ns) ! (ns_leader_seen ns + lost))))) Done else Done)"

fun member_event_task :: "node_env \<Rightarrow> MembershipEvent \<Rightarrow> task" where
  "member_event_task env (Joined pid) = act (node_event env (PeerStatusChanged (as_str pid) (as_i32 Connected))) Done"
| "member_event_task env (Left pid) =
     with_leader (\<lambda>le. ((), handle_peer_left pid le)) (\<lambda>_.
       act (node_event env (PeerStatusChanged (as_str pid) (as_i32 Disconnected))) Done)"
| "member_event_task env (StatusChanged pid _ new) = act (node_event env (PeerStatusChanged (as_str pid) (as_i32 new))) Done"

definition member_watch_task :: "node_env \<Rightarrow> nat \<Rightarrow> task" where
  "member_watch_task env lag =
     Sec (\<lambda>ns. if ns_events_seen ns + lag < length (mm_events (ns_membership ns)) then ns\<lparr>ns_events_seen := Suc (ns_events_seen ns + lag)\<rparr> else ns)
       (\<lambda>ns. if ns_events_seen ns + lag < length (mm_events (ns_membership ns))
          then member_event_task env (mm_events (ns_membership ns) ! (ns_events_seen ns + lag)) else Done)"

definition reconnect_watch_task :: "node_env \<Rightarrow> nat \<Rightarrow> task" where
  "reconnect_watch_task env lost =
     Sec (\<lambda>ns. if ns_reconnect_seen ns + lost < length (tm_reconnect_events (ns_transport ns))
           then ns\<lparr>ns_reconnect_seen := Suc (ns_reconnect_seen ns + lost)\<rparr> else ns)
       (\<lambda>ns. if ns_reconnect_seen ns + lost < length (tm_reconnect_events (ns_transport ns))
          then (case tm_reconnect_events (ns_transport ns) ! (ns_reconnect_seen ns + lost) of (pid, status) \<Rightarrow>
                  act (node_event env (ReconnectStatus (as_str pid) status)) Done) else Done)"

section \<open>What the transport and the host program start\<close>

fun transport_task :: "PeerId \<Rightarrow> u32 \<Rightarrow> transport_op \<Rightarrow> task" where
  "transport_task me mx (TBroadcast out p exclude) = broadcast_task out p exclude Done"
| "transport_task me mx (TDisconnect x out pid) = disconnect_task x out me mx pid Done"
| "transport_task me mx (TLeave x out) =
     (case encode_internal x (PeerLeave (as_str me)) mx of Inl _ \<Rightarrow> Done | Inr p \<Rightarrow> broadcast_task out p None Done)"
| "transport_task me mx op = on_transport (transport_exec op) Done"

fun elect_task :: "leader_op \<Rightarrow> task" where
  "elect_task (OpStartElection n) = on_leader (start_election n) (\<lambda>_. Done)"
| "elect_task (OpRequestVote t c) = on_leader (handle_request_vote t c) (\<lambda>_. Done)"
| "elect_task (OpVoteResponse t v g n) = on_leader (handle_vote_response t v g n) (\<lambda>_. Done)"
| "elect_task op = with_leader (\<lambda>le. ((), leader_exec op le)) (\<lambda>_. Done)"

fun node_task :: "PeerId \<Rightarrow> u32 \<Rightarrow> node_op \<Rightarrow> task" where
  "node_task me mx (NMessage env pid p) = handle_message_task env me mx pid p"
| "node_task me mx (NPing env) = ping_task env me mx"
| "node_task me mx (NHeartbeat env) = heartbeat_task env me mx"
| "node_task me mx (NElection env) = election_task env me mx"
| "node_task me mx (NLeaderWatch env lost) = leader_watch_task env lost"
| "node_task me mx (NMemberWatch env lag) = member_watch_task env lag"
| "node_task me mx (NReconnectWatch env lost) = reconnect_watch_task env lost"
| "node_task me mx (NTransport op) = transport_task me mx op"
| "node_task me mx (NMember op) = on_member (membership_exec op) Done"
| "node_task me mx (NElect op) = elect_task op"
| "node_task me mx (NRouter op) = act (\<lambda>ns. ns\<lparr>ns_router := router_exec op (ns_router ns)\<rparr>) Done"

text \<open>The calls of the host program that send user data, and the manual choice of a leader.\<close>

definition route_task :: "node_env \<Rightarrow> PeerId \<Rightarrow> u32 \<Rightarrow> MessageTarget \<Rightarrow> u16 \<Rightarrow> bytes \<Rightarrow> u8 \<Rightarrow> task" where
  "route_task env me mx target mt data user_flags =
     (if mt < USER_MESSAGE_START then Done
      else
        let clean_flags = user_flags AND 0xFE;
            plain = packed_user env mx mt data clean_flags Done (\<lambda>p. broadcast_task (ne_out env) p None Done);
            send = (\<lambda>pid. packed_user env mx mt data clean_flags Done (\<lambda>p. on_transport (\<lambda>tm. snd (send_to_peer (ne_out env) pid p tm)) Done)) in
        (case target of
           Broadcast \<Rightarrow>
             look (\<lambda>ns. is_centralized (ns_router ns)) (\<lambda>central. if \<not> central then plain
             else look (\<lambda>ns. le_is_leader (ns_leader ns)) (\<lambda>leads. if leads then plain
             else look (\<lambda>ns. le_leader_id (ns_leader ns)) (\<lambda>known.
               case known of
                 None \<Rightarrow> Done
               | Some leader \<Rightarrow> encoded env mx (ForwardedUserData (as_str me) mt clean_flags data) Done (\<lambda>p.
                   on_transport (\<lambda>tm. snd (send_to_peer (ne_out env) leader p tm)) Done))))
         | ToPeer pid \<Rightarrow> send pid
         | ToLeader \<Rightarrow>
             look (\<lambda>ns. le_is_leader (ns_leader ns)) (\<lambda>leads. if leads then Done
             else look (\<lambda>ns. le_leader_id (ns_leader ns)) (\<lambda>known.
               case known of None \<Rightarrow> Done | Some leader \<Rightarrow> send leader))))"

definition send_from_leader_task :: "node_env \<Rightarrow> u32 \<Rightarrow> u16 \<Rightarrow> bytes \<Rightarrow> u8 \<Rightarrow> task" where
  "send_from_leader_task env mx mt data user_flags =
     (if mt < USER_MESSAGE_START then Done
      else look (\<lambda>ns. le_is_leader (ns_leader ns)) (\<lambda>leads.
        if \<not> leads then Done
        else packed_user env mx mt data (user_flags AND 0xFE) Done (\<lambda>p. broadcast_task (ne_out env) p None Done)))"

definition set_leader_task :: "node_env \<Rightarrow> u32 \<Rightarrow> PeerId \<Rightarrow> task" where
  "set_leader_task env mx pid = with_leader (set_leader pid) (\<lambda>(trm, lid, assigner).
     announce_task env mx (LeaderAssign trm lid assigner) Done)"

section \<open>A task that is not interrupted\<close>

text \<open>What never changes in a node, and agrees between its parts.\<close>

definition static_ok :: "PeerId \<Rightarrow> u32 \<Rightarrow> NetworkState \<Rightarrow> bool" where
  "static_ok me mx ns \<longleftrightarrow> ns_local_peer_id ns = me \<and> tm_local_peer_id (ns_transport ns) = me \<and> sr_local_peer_id (ns_router ns) = me
     \<and> cfg_max_message_size (ns_config ns) = mx \<and> cfg_max_message_size (tm_config (ns_transport ns)) = mx
     \<and> sr_max_message_size (ns_router ns) = mx"

lemma fold_emit: "fold mm_emit es m = m\<lparr>mm_events := mm_events m @ es\<rparr>"
  by (induction es arbitrary: m) (simp_all add: mm_emit_def)

lemma fold_notify: "fold notify_leader_change es le = le\<lparr>le_notified := le_notified le @ es\<rparr>"
  by (induction es arbitrary: le) (simp_all add: notify_leader_change_def)

lemma log_same: "mm_events m = es \<Longrightarrow> m\<lparr>mm_events := es\<rparr> = m" "le_notified le = ls \<Longrightarrow> le\<lparr>le_notified := ls\<rparr> = le"
  by auto

lemma run_with_member:
  assumes "\<And>m. \<exists>es. mm_events (snd (f m)) = mm_events m @ es"
  shows "run (with_member f k) ns = run (k (fst (f (ns_membership ns)))) (ns\<lparr>ns_membership := snd (f (ns_membership ns))\<rparr>)"
proof -
  obtain es where "mm_events (snd (f (ns_membership ns))) = mm_events (ns_membership ns) @ es" using assms by blast
  then show ?thesis by (cases "f (ns_membership ns)") (auto simp: with_member_def Let_def fold_emit log_same)
qed

lemma run_with_leader:
  assumes "\<And>le. \<exists>es. le_notified (snd (f le)) = le_notified le @ es"
  shows "run (with_leader f k) ns = run (k (fst (f (ns_leader ns)))) (ns\<lparr>ns_leader := snd (f (ns_leader ns))\<rparr>)"
proof -
  obtain es where "le_notified (snd (f (ns_leader ns))) = le_notified (ns_leader ns) @ es" using assms by blast
  then show ?thesis by (cases "f (ns_leader ns)") (auto simp: with_leader_def Let_def fold_notify log_same)
qed

lemma membership_appends: "\<exists>es. mm_events (membership_exec op m) = mm_events m @ es"
  by (cases op) (auto simp: membership_defs split: option.split)

lemma leader_appends: "\<exists>es. le_notified (leader_exec op le) = le_notified le @ es"
  using leader_events.exec_emits [where s = le and op = op] by blast

lemmas run_member [simp] =
  run_with_member [of "add_peer now p a" for now p a, OF membership_appends [of "MAdd now p a" for now p a, simplified]]
  run_with_member [of "\<lambda>m. ((), f m)" for f, simplified, OF membership_appends [of "MRemove p" for p, simplified]]
  run_with_member [of "\<lambda>m. ((), f m)" for f, simplified, OF membership_appends [of "MStatus p s" for p s, simplified]]
  run_with_member [of "\<lambda>m. ((), f m)" for f, simplified, OF membership_appends [of "MPong w now p t" for w now p t, simplified]]
  run_with_member [of "\<lambda>m. ((), f m)" for f, simplified, OF membership_appends [of "MSeen now p" for now p, simplified]]
  run_with_member [of "\<lambda>m. ((), f m)" for f, simplified, OF membership_appends]

lemmas run_leader [simp] =
  run_with_leader [of "handle_heartbeat t l" for t l, OF leader_appends [of "OpHeartbeat t l" for t l, simplified]]
  run_with_leader [of "set_leader p" for p, OF leader_appends [of "OpSetLeader p" for p, simplified]]
  run_with_leader [of "\<lambda>le. ((), f le)" for f, simplified, OF leader_appends [of "OpLeaderAssign t l a" for t l a, simplified]]
  run_with_leader [of "\<lambda>le. ((), f le)" for f, simplified, OF leader_appends [of "OpPeerLeft p" for p, simplified]]
  run_with_leader [of "\<lambda>le. ((), f le)" for f, simplified, OF leader_appends [of "OpHeartbeat t l" for t l, simplified]]
  run_with_leader [of "\<lambda>le. ((), f le)" for f, simplified, OF leader_appends [of "OpSetLeader p" for p, simplified]]
  run_with_leader [of "\<lambda>le. ((), f le)" for f, simplified, OF leader_appends [of "OpEnableAuto b" for b, simplified]]
  run_with_leader [of "\<lambda>le. ((), f le)" for f, simplified, OF leader_appends]

lemma run_send_each [simp]:
  "run (send_each out p ts t) ns = run t (ns\<lparr>ns_transport := snd (send_all out p ts (ns_transport ns))\<rparr>)"
  by (induction out p ts t arbitrary: ns rule: send_each.induct) (simp_all add: case_prod_beta split: option.split)

lemma run_broadcast [simp]:
  "run (broadcast_task out p ex t) ns = run t (ns\<lparr>ns_transport := snd (broadcast out p ex (ns_transport ns))\<rparr>)"
  by (simp add: broadcast_task_def broadcast_def)

lemma run_reply: "static_ok me mx ns \<Longrightarrow> run (reply_task env mx pid m) ns = reply env pid m ns"
  by (simp add: reply_task_def encoded_def reply_def static_ok_def split: sum.split)

lemma run_announce: "static_ok me mx ns \<Longrightarrow> run (announce_task env mx m t) ns = run t (announce env m ns)"
  by (simp add: announce_task_def encoded_def announce_def static_ok_def split: sum.split)

lemma cut_disconnect:
  "disconnect_peer x out pid tm = (case encode_internal x (PeerLeave (as_str (tm_local_peer_id tm))) (cfg_max_message_size (tm_config tm)) of
     Inl e \<Rightarrow> (Inl e, tm) | Inr leave \<Rightarrow> (Inr (), cut_connection pid (snd (send_to_peer out pid leave tm))))"
  by (simp add: disconnect_peer_def cut_connection_def Let_def split: sum.split option.split)

lemma run_disconnect:
  "static_ok me mx ns \<Longrightarrow> run (disconnect_task x out me mx pid t) ns
     = run t (ns\<lparr>ns_transport := snd (disconnect_peer x out pid (ns_transport ns))\<rparr>)"
  by (simp add: disconnect_task_def cut_disconnect static_ok_def split: sum.split)

lemma static_ok_upd [simp]:
  "static_ok me mx (ns\<lparr>ns_membership := m\<rparr>) \<longleftrightarrow> static_ok me mx ns" "static_ok me mx (ns\<lparr>ns_leader := le\<rparr>) \<longleftrightarrow> static_ok me mx ns"
  "static_ok me mx (ns\<lparr>ns_callback := cb\<rparr>) \<longleftrightarrow> static_ok me mx ns" "static_ok me mx (ns\<lparr>ns_connects := l\<rparr>) \<longleftrightarrow> static_ok me mx ns"
  "static_ok me mx (node_event env e ns) \<longleftrightarrow> static_ok me mx ns"
  by (simp_all add: static_ok_def node_event_def)

lemma static_ok_sends:
  "static_ok me mx ns \<Longrightarrow> static_ok me mx (ns\<lparr>ns_transport := snd (broadcast out p ex (ns_transport ns))\<rparr>)"
  "static_ok me mx ns \<Longrightarrow> static_ok me mx (announce env m ns)"
  "static_ok me mx ns \<Longrightarrow> static_ok me mx (ns\<lparr>ns_transport := snd (disconnect_peer x out pid (ns_transport ns))\<rparr>)"
  by (simp_all add: static_ok_def announce_def broadcast_eq disconnect_peer_def send_to_peer_eq Let_def split: sum.split option.split)

lemma run_admit: "run (admit_task env pid) ns = admit_peer env pid ns"
  by (simp add: admit_task_def admit_peer_def split: option.split sum.split prod.split)

lemma run_sync: "static_ok me mx ns \<Longrightarrow> run (sync_task me peers) ns = fold sync_peer peers ns"
proof (induction peers arbitrary: ns)
  case (Cons e peers)
  obtain i a where e: "e = (i, a)" by (cases e)
  have me: "ns_local_peer_id ns = me" using Cons.prems by (simp add: static_ok_def)
  have "run (sync_task me peers) (sync_peer e ns) = fold sync_peer peers (sync_peer e ns)"
    using Cons.prems by (intro Cons.IH) (simp add: sync_peer_def e Let_def)
  then show ?case by (auto simp: e sync_peer_def [of "(i, a)"] me Let_def split: if_splits)
qed simp

lemma run_beat: "static_ok me mx ns \<Longrightarrow> run (beat_task env me mx i) ns = announce env (heartbeat_msg env i ns) ns"
  by (simp add: beat_task_def heartbeat_msg_def run_announce) (simp add: static_ok_def)

lemma run_forward:
  "static_ok me mx ns \<Longrightarrow> run (forward_task env mx from_peer target mt flags payload t) ns =
     run t (ns\<lparr>ns_transport := snd (forward_message (ne_ext env) (ne_out env) (ns_router ns) (ns_leader ns) from_peer target mt flags payload (ns_transport ns))\<rparr>)"
  by (simp add: forward_task_def forward_message_def packed_user_def with_packet_def static_ok_def split: sum.split ForwardTarget.split)

lemma run_forwarded:
  "static_ok me mx ns \<Longrightarrow> run (forwarded_task env mx from_id mt flags payload) ns
     = handle_internal env pid (ForwardedUserData from_id mt flags payload) ns"
  by (simp add: forwarded_task_def handle_forwarded_user_data_def run_forward Let_def split: sum.split)

lemma run_handle_internal: "static_ok me mx ns \<Longrightarrow> run (handle_internal_task env me mx pid msg) ns = handle_internal env pid msg ns"
proof (cases msg)
  case (RequestVote t c)
  assume "static_ok me mx ns"
  with RequestVote show ?thesis
    by (simp add: run_reply static_ok_def [THEN iffD1, THEN conjunct1] split: prod.split)
next
  case (VoteResponse t v g)
  assume "static_ok me mx ns"
  with VoteResponse show ?thesis by (simp add: run_beat Let_def split: prod.split)
qed (simp_all add: run_admit run_sync run_reply run_forwarded del: handle_internal.simps(12))

lemma run_handle_message: "static_ok me mx ns \<Longrightarrow> run (handle_message_task env me mx pid p) ns = handle_message env pid p ns"
  by (simp add: handle_message_task_def handle_message_def run_handle_internal split: sum.split)

lemma run_drop: "static_ok me mx ns \<Longrightarrow> run (drop_task env me mx pids) ns = fold (drop_timed_out env) pids ns"
  by (induction env me mx pids arbitrary: ns rule: drop_task.induct)
     (simp_all add: run_disconnect drop_timed_out_def Let_def static_ok_sends)

lemma run_ping: "static_ok me mx ns \<Longrightarrow> run (ping_task env me mx) ns = ping_tick env ns"
  by (simp add: ping_task_def ping_tick_def run_announce run_drop static_ok_sends Let_def)

lemma run_election: "static_ok me mx ns \<Longrightarrow> run (election_task env me mx) ns = election_tick env ns"
  by (simp add: election_task_def election_tick_def run_announce run_beat Let_def split: prod.split option.split)

lemma run_watch:
  "run (leader_watch_task env lost) ns = leader_watch env lost ns"
  "run (member_watch_task env lag) ns = membership_watch env lag ns"
  "run (reconnect_watch_task env lost) ns = reconnect_watch env lost ns"
proof -
  have "run (member_event_task env e) ns = on_membership_event env e ns" for e ns by (cases e) simp_all
  then show "run (member_watch_task env lag) ns = membership_watch env lag ns"
    by (simp add: member_watch_task_def membership_watch_def Let_def)
qed (simp_all add: leader_watch_task_def leader_watch_def reconnect_watch_task_def reconnect_watch_def Let_def split: prod.split)

lemma run_transport:
  "static_ok me mx ns \<Longrightarrow> run (transport_task me mx op) ns = ns\<lparr>ns_transport := transport_exec op (ns_transport ns)\<rparr>"
  by (cases op) (simp_all add: run_disconnect broadcast_peer_leave_def static_ok_def split: sum.split)

lemma run_elect: "run (elect_task op) ns = ns\<lparr>ns_leader := leader_exec op (ns_leader ns)\<rparr>"
  by (cases op) simp_all

lemma run_node_task: "static_ok me mx ns \<Longrightarrow> run (node_task me mx op) ns = node_exec op ns"
  by (cases op)
     (simp_all add: run_handle_message run_ping heartbeat_task_def heartbeat_tick_def run_beat run_election run_watch run_transport run_elect)

lemma run_route:
  "static_ok me mx ns \<Longrightarrow> run (route_task env me mx target mt data flags) ns = ns\<lparr>ns_transport :=
     snd (route_message (ne_ext env) (ne_out env) (ns_router ns) (ns_leader ns) target mt data flags (ns_transport ns))\<rparr>"
  by (simp add: route_task_def route_message_def packed_user_def encoded_def with_packet_def static_ok_def Let_def split: sum.split MessageTarget.split option.split)

lemma run_from_leader:
  "static_ok me mx ns \<Longrightarrow> run (send_from_leader_task env mx mt data flags) ns = ns\<lparr>ns_transport :=
     snd (send_from_leader (ne_ext env) (ne_out env) (ns_router ns) (ns_leader ns) mt data flags (ns_transport ns))\<rparr>"
  by (simp add: send_from_leader_task_def send_from_leader_def packed_user_def with_packet_def static_ok_def split: sum.split)


section \<open>Tasks among others\<close>

text \<open>
  A logic of tasks. \<open>ok w ns\<close> is an invariant of the node that may mention a history \<open>w\<close>: \<open>fut\<close> says how the history may have grown when a section gets to
  run, \<open>own\<close> how the section itself may let it grow. A section is run in states that satisfy \<open>adm\<close>, a count is one that satisfies \<open>cnt\<close>. A task is
  safe when each of its sections, whatever has happened since the one before it, keeps the invariant and leaves a safe task.
\<close>

locale task_logic =
  fixes fut :: "'w \<Rightarrow> 'w \<Rightarrow> bool" and own :: "'w \<Rightarrow> 'w \<Rightarrow> bool" and ok :: "'w \<Rightarrow> NetworkState \<Rightarrow> bool"
    and adm :: "NetworkState \<Rightarrow> bool" and cnt :: "nat \<Rightarrow> bool"
  assumes fut_trans: "fut w w' \<Longrightarrow> fut w' w'' \<Longrightarrow> fut w w''"
    and own_fut: "own w w' \<Longrightarrow> fut w w'"
begin

primrec safe :: "task \<Rightarrow> 'w \<Rightarrow> bool" where
  "safe Done w \<longleftrightarrow> True"
| "safe (Sec u k) w \<longleftrightarrow> (\<forall>w' ns. fut w w' \<longrightarrow> ok w' ns \<longrightarrow> adm ns \<longrightarrow> (\<exists>w''. own w' w'' \<and> ok w'' (u ns) \<and> safe (k ns) w''))"
| "safe (Count k) w \<longleftrightarrow> (\<forall>n. cnt n \<longrightarrow> safe (k n) w)"

lemma safe_fut: "safe t w \<Longrightarrow> fut w w' \<Longrightarrow> safe t w'"
  by (induction t arbitrary: w w') (auto intro: fut_trans)

lemma safe_section:
  assumes "safe (Sec u k) w" "ok w ns" "adm ns" "fut w w" "\<And>t. t \<in> set ts \<Longrightarrow> safe t w"
  obtains w' where "own w w'" "ok w' (u ns)" "\<And>t. t \<in> set (ts[i := k ns]) \<Longrightarrow> safe t w'"
proof -
  obtain w' where w': "own w w'" "ok w' (u ns)" "safe (k ns) w'" using assms(1-4) by fastforce
  have "safe t w'" if "t \<in> set (ts[i := k ns])" for t
  proof -
    from that have "t = k ns \<or> t \<in> set ts" using set_update_subset_insert by fastforce
    then show ?thesis using w'(3) safe_fut [OF assms(5) own_fut [OF w'(1)]] by auto
  qed
  with w'(1,2) show ?thesis by (rule that)
qed

lemma safe_count: "(\<And>t. t \<in> set ts \<Longrightarrow> safe t w) \<Longrightarrow> safe (Count k) w \<Longrightarrow> cnt n \<Longrightarrow> t \<in> set (ts[i := k n]) \<Longrightarrow> safe t w"
  using set_update_subset_insert [of ts i "k n"] by fastforce

end

text \<open>
  A pool of tasks on one node: at any moment a task may be started, or any unfinished task may run its next section.
\<close>

inductive pool_step :: "PeerId \<Rightarrow> u32 \<Rightarrow> NetworkState \<times> task list \<Rightarrow> NetworkState \<times> task list \<Rightarrow> bool" for me mx where
  start: "foreign_op me op \<Longrightarrow> pool_step me mx (ns, ts) (ns, ts @ [node_task me mx op])"
| route: "pool_step me mx (ns, ts) (ns, ts @ [route_task env me mx target mt data flags])"
| from_leader: "pool_step me mx (ns, ts) (ns, ts @ [send_from_leader_task env mx mt data flags])"
| forward: "pool_step me mx (ns, ts) (ns, ts @ [forward_task env mx from_peer fwd mt flags data Done])"
| assign: "pool_step me mx (ns, ts) (ns, ts @ [set_leader_task env mx pid])"
| advance: "i < length ts \<Longrightarrow> ts ! i = Sec u k \<Longrightarrow> pool_step me mx (ns, ts) (u ns, ts[i := k ns])"
| count: "i < length ts \<Longrightarrow> ts ! i = Count k \<Longrightarrow>
    pool_step me mx (ns, ts) (ns, ts[i := k (get_connected_peer_count (ns_membership ns))])"

inductive_cases pool_stepE: "pool_step me mx (ns, ts) c"

definition node_at :: "PeerId \<Rightarrow> NetworkState \<Rightarrow> bool" where
  "node_at me ns \<longleftrightarrow> node_inv ns \<and> ns_local_peer_id ns = me"

interpretation pool: task_logic "\<lambda>_ _ :: unit. True" "\<lambda>_ _. True" "\<lambda>_. node_at me" "\<lambda>_. True" "\<lambda>_. True" for me
  by unfold_locales simp_all

definition keeps :: "PeerId \<Rightarrow> task \<Rightarrow> bool" where
  "keeps me t \<longleftrightarrow> pool.safe me t ()"

lemma keeps_Sec: "(\<And>ns. node_at me ns \<Longrightarrow> node_at me (u ns) \<and> keeps me (k ns)) \<Longrightarrow> keeps me (Sec u k)"
  by (auto simp: keeps_def)

lemma keeps_Done [simp]: "keeps me Done" and keeps_Count: "(\<And>n. keeps me (k n)) \<Longrightarrow> keeps me (Count k)"
  by (simp_all add: keeps_def)

lemma keeps_with_member:
  assumes "\<And>m. mpart me m \<Longrightarrow> mpart me (snd (f m))" "\<And>m. mpart me m \<Longrightarrow> keeps me (k (fst (f m)))"
  shows "keeps me (with_member f k)"
proof -
  have "mpart me (m\<lparr>mm_events := mm_events m @ drop i (mm_events (snd (f m')))\<rparr>)" if "mpart me m" "mpart me m'" for m m' i
    using that assms(1) [OF that(2)] by (auto simp: mpart_def membership_inv_def has_peer_def dest: in_set_dropD)
  moreover have "mpart me ((snd (f m))\<lparr>mm_events := mm_events m\<rparr>)" if "mpart me m" for m
    using that assms(1) [OF that] by (auto simp: mpart_def membership_inv_def has_peer_def)
  ultimately show ?thesis
    using assms(2) unfolding with_member_def
    by (auto simp: Let_def node_at_def node_inv_def fold_emit case_prod_beta intro!: keeps_Sec)
qed

lemma keeps_with_leader:
  assumes "\<And>le. lpart me le \<Longrightarrow> lpart me (snd (f le))" "\<And>le. lpart me le \<Longrightarrow> keeps me (k (fst (f le)))"
  shows "keeps me (with_leader f k)"
proof -
  have "lpart me (le\<lparr>le_notified := l\<rparr>) \<longleftrightarrow> lpart me le" for le l by (simp add: lpart_def leader_inv_def)
  then show ?thesis
    using assms unfolding with_leader_def
    by (auto simp: Let_def node_at_def node_inv_def fold_notify case_prod_beta intro!: keeps_Sec)
qed

lemma keeps_transport:
  "(\<And>tm. tpart me tm \<Longrightarrow> tpart me (f tm)) \<Longrightarrow> keeps me t \<Longrightarrow> keeps me (on_transport f t)"
  by (rule keeps_Sec) (auto simp: node_at_def node_inv_def)

lemma keeps_leader:
  "(\<And>le. lpart me le \<Longrightarrow> lpart me (snd (f le))) \<Longrightarrow> (\<And>r. keeps me (k r)) \<Longrightarrow> keeps me (on_leader f k)"
  by (rule keeps_Sec) (auto simp: node_at_def node_inv_def)

lemma keeps_look: "(\<And>ns. node_at me ns \<Longrightarrow> keeps me (k (r ns))) \<Longrightarrow> keeps me (look r k)"
  by (rule keeps_Sec) simp

lemma keeps_event: "keeps me t \<Longrightarrow> keeps me (act (node_event env e) t)"
  by (rule keeps_Sec) (simp add: node_at_def)

lemma node_at_seen [simp]:
  "node_at me (ns\<lparr>ns_events_seen := i\<rparr>) \<longleftrightarrow> node_at me ns" "node_at me (ns\<lparr>ns_leader_seen := i\<rparr>) \<longleftrightarrow> node_at me ns"
  "node_at me (ns\<lparr>ns_reconnect_seen := i\<rparr>) \<longleftrightarrow> node_at me ns" "node_at me (ns\<lparr>ns_connects := l\<rparr>) \<longleftrightarrow> node_at me ns"
  by (simp_all add: node_at_def node_inv_seen)

lemma tpart_sent: "tpart me (tm\<lparr>tm_sent := l\<rparr>) \<longleftrightarrow> tpart me tm"
  by (simp add: tpart_def transport_inv_def tm_has_peer_def)

lemma tpart_try_send: "tpart me tm \<Longrightarrow> tpart me (snd (try_send out tx p tm))"
  by (simp add: try_send_def tpart_sent split: option.split)

lemma transport_inv_cut: "transport_inv tm \<Longrightarrow> transport_inv (cut_connection pid tm)"
proof (cases "hm_get (tm_connections tm) pid")
  case None
  assume "transport_inv tm"
  with None show ?thesis by (simp add: cut_connection_def transport_inv_def hm_lookup fun_upd_idem)
next
  case (Some c)
  assume "transport_inv tm"
  then show ?thesis by (rule transport_inv_drop [OF _ Some]) (simp_all add: cut_connection_def Let_def tokens_def Some Un_ac)
qed

lemma tpart_cut: "tpart me tm \<Longrightarrow> tpart me (cut_connection pid tm)"
  using transport_inv_cut [of tm pid]
  by (auto simp: tpart_def cut_connection_def Let_def tm_has_peer_def split: option.split)

lemma keeps_send_each: "keeps me t \<Longrightarrow> keeps me (send_each out p ts t)"
  by (induction ts) (auto intro!: keeps_transport tpart_try_send)

lemma keeps_broadcast: "keeps me t \<Longrightarrow> keeps me (broadcast_task out p ex t)"
  unfolding broadcast_task_def by (rule keeps_look) (rule keeps_send_each)

lemma keeps_encoded: "keeps me t \<Longrightarrow> (\<And>p. keeps me (k p)) \<Longrightarrow> keeps me (encoded env mx m t k)"
  by (simp add: encoded_def split: sum.split)

lemma keeps_packed: "keeps me t \<Longrightarrow> (\<And>p. keeps me (k p)) \<Longrightarrow> keeps me (packed_user env mx mt data flags t k)"
  unfolding packed_user_def by (rule keeps_look) (simp split: sum.split)

lemma keeps_send: "keeps me t \<Longrightarrow> keeps me (on_transport (\<lambda>tm. snd (send_to_peer out pid p tm)) t)"
  by (rule keeps_transport) (rule tpart_ops)

lemma keeps_reply: "keeps me (reply_task env mx pid m)"
  unfolding reply_task_def by (intro keeps_encoded keeps_send) simp_all

lemma keeps_announce: "keeps me t \<Longrightarrow> keeps me (announce_task env mx m t)"
  unfolding announce_task_def by (intro keeps_encoded keeps_broadcast)

lemma keeps_disconnect: "keeps me t \<Longrightarrow> keeps me (disconnect_task x out me' mx pid t)"
  unfolding disconnect_task_def by (cases "encode_internal x (PeerLeave (as_str me')) mx")
    (auto intro!: keeps_send keeps_transport tpart_cut)

lemma keeps_beat: "keeps me (beat_task env me' mx i)"
  unfolding beat_task_def by (intro keeps_look keeps_announce) simp

lemma keeps_forward: "keeps me t \<Longrightarrow> keeps me (forward_task env mx from_peer target mt flags payload t)"
  unfolding forward_task_def
  by (auto intro!: keeps_look keeps_packed keeps_send keeps_broadcast split: ForwardTarget.split)

lemma keeps_forwarded: "keeps me (forwarded_task env mx from_id mt flags payload)"
  unfolding forwarded_task_def Let_def
  by (auto intro!: keeps_look keeps_forward keeps_event)

lemma keeps_admit: "keeps me (admit_task env pid)"
  unfolding admit_task_def
proof (rule keeps_look, split option.split, intro conjI impI allI)
  fix ns addr
  assume at: "node_at me ns" and "get_peer_addr (ns_transport ns) pid = Some addr"
  then have "pid \<noteq> me" by (auto simp: node_at_def node_inv_def tpart_def tm_has_peer_def hm_contains_def get_peer_addr_def)
  then show "keeps me (with_member (add_peer (ne_now env 0) pid addr) (\<lambda>r. case r of Inr _ \<Rightarrow> Done
      | Inl _ \<Rightarrow> on_member (update_status pid Connected) (on_member (update_last_seen (ne_now env 1) pid) Done)))"
    by (auto intro!: keeps_with_member mpart_ops split: sum.split)
qed simp

lemma keeps_sync: "keeps me (sync_task me' peers)"
  by (induction me' peers rule: sync_task.induct) (auto simp: Let_def intro!: keeps_Sec)

lemma keeps_handle_internal: "keeps me (handle_internal_task env me' mx pid msg)"
  by (cases msg)
     (auto simp: keeps_admit keeps_sync keeps_forwarded keeps_reply keeps_beat
       intro!: keeps_Count keeps_with_member keeps_with_leader keeps_transport keeps_leader mpart_ops tpart_ops lpart_ops)

lemma keeps_handle_message: "keeps me (handle_message_task env me' mx pid p)"
  unfolding handle_message_task_def
  by (auto intro!: keeps_handle_internal keeps_event split: sum.split)

lemma keeps_drop: "keeps me (drop_task env me' mx pids)"
  by (induction env me' mx pids rule: drop_task.induct)
     (auto intro!: keeps_with_member mpart_ops keeps_event keeps_disconnect)

lemma keeps_ping: "keeps me (ping_task env me' mx)"
  unfolding ping_task_def by (intro keeps_announce keeps_look keeps_drop)

lemma keeps_election: "keeps me (election_task env me' mx)"
  unfolding election_task_def
  by (auto intro!: keeps_look keeps_Count keeps_leader lpart_ops keeps_announce keeps_beat split: option.split)

lemma keeps_watch:
  "keeps me (leader_watch_task env lost)" "keeps me (member_watch_task env lag)" "keeps me (reconnect_watch_task env lost)"
proof -
  have "keeps me (member_event_task env e)" if "e \<noteq> Left me" for e
    using that by (cases e) (auto intro!: keeps_event keeps_with_leader lpart_ops)
  moreover have "mm_events (ns_membership ns) ! i \<noteq> Left me" if "node_at me ns" "i < length (mm_events (ns_membership ns))" for ns i
    using that by (metis mpart_def node_at_def node_inv_def nth_mem)
  ultimately show "keeps me (member_watch_task env lag)" unfolding member_watch_task_def by (intro keeps_Sec) auto
qed (auto simp: leader_watch_task_def reconnect_watch_task_def intro!: keeps_Sec keeps_event split: prod.split)

lemma keeps_transport_task: "(\<And>now a. op \<noteq> TRegister now me a) \<Longrightarrow> keeps me (transport_task me' mx op)"
  by (cases op) (auto intro!: keeps_broadcast keeps_disconnect keeps_transport tpart_exec simp del: transport_exec.simps split: sum.split)

lemma keeps_elect: "op \<noteq> OpPeerLeft me \<Longrightarrow> keeps me (elect_task op)"
  by (cases op) (auto intro!: keeps_leader keeps_with_leader lpart_ops lpart_exec simp del: leader_exec.simps)

lemma keeps_node_task: "foreign_op me op \<Longrightarrow> keeps me (node_task me' mx op)"
proof (cases op)
  case (NTransport t)
  assume "foreign_op me op"
  with NTransport show ?thesis by (auto intro!: keeps_transport_task)
next
  case (NMember t)
  assume "foreign_op me op"
  with NMember show ?thesis by (auto intro!: keeps_with_member mpart_exec simp del: membership_exec.simps)
next
  case (NElect t)
  assume "foreign_op me op"
  with NElect show ?thesis by (auto intro!: keeps_elect)
next
  case (NRouter t)
  then show ?thesis by (auto intro!: keeps_Sec simp: node_at_def node_inv_def)
qed (auto intro: keeps_handle_message keeps_ping keeps_election keeps_watch keeps_beat simp: heartbeat_task_def intro!: keeps_look)

lemma keeps_route: "keeps me (route_task env me' mx target mt data flags)"
  unfolding route_task_def Let_def
  by (auto intro!: keeps_look keeps_packed keeps_encoded keeps_broadcast keeps_send split: MessageTarget.split option.split)

lemma keeps_from_leader: "keeps me (send_from_leader_task env mx mt data flags)"
  unfolding send_from_leader_task_def by (auto intro!: keeps_look keeps_packed keeps_broadcast)

lemma keeps_set_leader: "keeps me (set_leader_task env mx pid)"
  unfolding set_leader_task_def
  by (rule keeps_with_leader) (auto intro!: keeps_announce lpart_exec [of me _ "OpSetLeader pid", simplified] split: prod.split)

lemma pool_step_keeps:
  assumes "pool_step me mx (ns, ts) (ns', ts')" "node_at me ns" "\<forall>t \<in> set ts. keeps me t"
  shows "node_at me ns' \<and> (\<forall>t \<in> set ts'. keeps me t)"
  using assms(1)
proof (rule pool_stepE)
  fix i u k
  assume c: "(ns', ts') = (u ns, ts[i := k ns])" "i < length ts" "ts ! i = Sec u k"
  then have "keeps me (Sec u k)" using assms(3) nth_mem by metis
  then obtain w where "node_at me (u ns)" "\<And>t. t \<in> set (ts[i := k ns]) \<Longrightarrow> pool.safe me t w"
    using pool.safe_section [of me u k "()" ns ts i] assms(2,3) unfolding keeps_def by blast
  with c(1) show ?thesis by (simp add: keeps_def)
next
  fix i k
  assume c: "(ns', ts') = (ns, ts[i := k (get_connected_peer_count (ns_membership ns))])" "i < length ts" "ts ! i = Count k"
  then have "keeps me (Count k)" using assms(3) nth_mem by metis
  with c(1) show ?thesis using pool.safe_count [of ts me "()" k] assms(2,3) unfolding keeps_def by blast
qed (use assms(2,3) keeps_node_task keeps_route keeps_from_leader keeps_forward keeps_set_leader in auto)


lemma pool_run: "i < length ts \<Longrightarrow> ts ! i = t \<Longrightarrow> (pool_step me mx)\<^sup>*\<^sup>* (ns, ts) (run t ns, ts[i := Done])"
proof (induction t arbitrary: ns ts)
  case Done
  then show ?case by (metis list_update_id rtranclp.rtrancl_refl run.simps(1))
next
  case (Sec u k)
  have "pool_step me mx (ns, ts) (u ns, ts[i := k ns])" using Sec.prems by (rule pool_step.advance)
  moreover have "(pool_step me mx)\<^sup>*\<^sup>* (u ns, ts[i := k ns]) (run (k ns) (u ns), ts[i := k ns, i := Done])"
    using Sec.prems by (intro Sec.IH) auto
  ultimately show ?case by (simp add: converse_rtranclp_into_rtranclp)
next
  case (Count k)
  let ?n = "get_connected_peer_count (ns_membership ns)"
  have "pool_step me mx (ns, ts) (ns, ts[i := k ?n])" using Count.prems by (rule pool_step.count)
  moreover have "(pool_step me mx)\<^sup>*\<^sup>* (ns, ts[i := k ?n]) (run (k ?n) ns, ts[i := k ?n, i := Done])"
    using Count.prems by (intro Count.IH) auto
  ultimately show ?case by (simp add: converse_rtranclp_into_rtranclp)
qed

text \<open>One task runs its first section, another runs from start to end, the first one finishes.\<close>

lemma pool_overtake:
  assumes "t1 = Sec u k" "\<And>ns ts. pool_step me mx (ns, ts) (ns, ts @ [t1])" "\<And>ns ts. pool_step me mx (ns, ts) (ns, ts @ [t2])"
  shows "(pool_step me mx)\<^sup>*\<^sup>* (ns, []) (run (k ns) (run t2 (u ns)), [Done, Done])"
proof -
  have "pool_step me mx (ns, []) (ns, [t1])" using assms(2) [of ns "[]"] by simp
  moreover have "pool_step me mx (ns, [t1]) (u ns, [k ns])"
    using pool_step.advance [of 0 "[t1]" u k me mx ns] assms(1) by simp
  moreover have "pool_step me mx (u ns, [k ns]) (u ns, [k ns, t2])" using assms(3) [of "u ns" "[k ns]"] by simp
  moreover have "(pool_step me mx)\<^sup>*\<^sup>* (u ns, [k ns, t2]) (run t2 (u ns), [k ns, Done])"
    using pool_run [of 1 "[k ns, t2]" t2 me mx "u ns"] by simp
  moreover have "(pool_step me mx)\<^sup>*\<^sup>* (run t2 (u ns), [k ns, Done]) (run (k ns) (run t2 (u ns)), [Done, Done])"
    using pool_run [of 0 "[k ns, Done]" "k ns" me mx "run t2 (u ns)"] by simp
  ultimately show ?thesis by (meson converse_rtranclp_into_rtranclp rtranclp_trans)
qed

text \<open>
  C37: A heartbeat for a term the node does not lead. The heartbeat timer checks that the node leads and reads the term in two critical sections. When a
  vote request of a higher term is handled in between, the node has become a follower that voted for the candidate of that term, and yet sends a heartbeat
  that claims to lead it, to every peer whose queue takes it.
\<close>

theorem heartbeat_without_leading:
  fixes env :: node_env
  assumes "static_ok me mx ns" "node_inv ns" "le_is_leader (ns_leader ns)" "le_current_term (ns_leader ns) < t"
    and "is_internal req" "decode_internal (ne_ext env) req = Inr (RequestVote t cand)"
    and "encode_internal (ne_ext env) (Heartbeat t (as_str me) (current_timestamp_ms (ne_wall env 0))) mx = Inr beat"
  shows "\<exists>ns' ts. (pool_step me mx)\<^sup>*\<^sup>* (ns, []) (ns', ts) \<and> \<not> le_is_leader (ns_leader ns')
    \<and> le_current_term (ns_leader ns') = t \<and> voted_for (le_state (ns_leader ns')) = Some (PeerId cand)
    \<and> (\<forall>q c. hm_get (tm_connections (ns_transport ns)) q = Some c \<longrightarrow> pi_status (conn_info c) = Connected \<longrightarrow>
          ne_out env (control_tx c) beat = Sent \<longrightarrow> (control_tx c, beat) \<in> set (tm_sent (ns_transport ns')))"
proof -
  let ?t1 = "heartbeat_task env me mx" and ?t2 = "handle_message_task env me mx pid req"
  let ?ns1 = "handle_message env pid req ns"
  have t1: "?t1 = Sec (\<lambda>ns. ns) (\<lambda>ns. if \<not> le_is_leader (ns_leader ns) then Done else beat_task env me mx 0)"
    by (simp add: heartbeat_task_def)
  have "pool_step me mx (s, ts) (s, ts @ [?t1])" "pool_step me mx (s, ts) (s, ts @ [?t2])" for s ts
    using pool_step.start [of me "NHeartbeat env" mx s ts] pool_step.start [of me "NMessage env pid req" mx s ts] by simp_all
  from pool_overtake [OF t1 this, of ns] assms(1,3) have path: "(pool_step me mx)\<^sup>*\<^sup>* (ns, []) (run (beat_task env me mx 0) ?ns1, [Done, Done])"
    by (simp add: run_handle_message)
  have h: "?ns1 = reply env pid (VoteResponse t (as_str (ns_local_peer_id ns)) True)
      (ns\<lparr>ns_leader := (ns_leader ns)\<lparr>le_state := (le_state (ns_leader ns))\<lparr>current_term := t, role := Follower, votes_received := {},
         voted_for := Some (PeerId cand)\<rparr>\<rparr>\<rparr>)"
    using assms(4-6) by (auto simp: handle_message_def handle_request_vote_def Let_def le_current_term_def)
  then have st: "static_ok me mx ?ns1" and le: "le_current_term (ns_leader ?ns1) = t"
    "voted_for (le_state (ns_leader ?ns1)) = Some (PeerId cand)" "\<not> le_is_leader (ns_leader ?ns1)"
    and conns: "tm_connections (ns_transport ?ns1) = tm_connections (ns_transport ns)"
    using assms(1) by (simp_all add: reply_frame le_current_term_def le_is_leader_def) (simp_all add: reply_def static_ok_def send_to_peer_eq split: sum.split option.split)
  have int: "is_internal beat" using encode_internal_type [OF assms(7)] by blast
  have "run (beat_task env me mx 0) ?ns1 = ?ns1\<lparr>ns_transport := snd (broadcast (ne_out env) beat None (ns_transport ?ns1))\<rparr>"
    using assms(7) st le(1) by (simp add: run_beat announce_def heartbeat_msg_def static_ok_def)
  moreover have "(control_tx c, beat) \<in> set (tm_sent (snd (broadcast (ne_out env) beat None (ns_transport ?ns1))))"
    if "hm_get (tm_connections (ns_transport ns)) q = Some c" "pi_status (conn_info c) = Connected" "ne_out env (control_tx c) beat = Sent" for q c
  proof -
    have "hm_wf (tm_connections (ns_transport ?ns1))" using assms(2) conns by (simp add: node_inv_def tpart_def transport_inv_def)
    with that conns int have "(q, control_tx c) \<in> set (broadcast_targets beat None (ns_transport ?ns1))"
      by (auto simp: broadcast_targets_set channel_for_def)
    with that(3) show ?thesis by (force simp: broadcast_eq)
  qed
  ultimately show ?thesis using path le by (intro exI [of _ "run (beat_task env me mx 0) ?ns1"] exI [of _ "[Done, Done]"]) simp
qed

definition race_env :: node_env where
  "race_env = demo_env\<lparr>ne_ext := table_ext [RequestVote 5 ''b'', Heartbeat 5 ''a'' 0]\<rparr>"

definition race_node :: NetworkState where
  "race_node = fold node_exec [NElect (OpStartElection 0), NTransport (TRegister 0 (PeerId ''b'') (demo_addr 1))] (demo_node ''a'')"

lemma demo_static: "static_ok (PeerId name) 262144 (demo_node name)"
  using node_new_fields [OF demo_node_eq [of name]] by (simp add: static_ok_def router_new_def config_default_def)

theorem heartbeat_without_leading_witness:
  "\<exists>ns' ts beat. (pool_step (PeerId ''a'') 262144)\<^sup>*\<^sup>* (race_node, []) (ns', ts) \<and> le_is_leader (ns_leader race_node) \<and> \<not> le_is_leader (ns_leader ns')
     \<and> encode_internal (ne_ext race_env) (Heartbeat 5 ''a'' 0) 262144 = Inr beat \<and> (tm_next (ns_transport (demo_node ''a'')), beat) \<in> set (tm_sent (ns_transport ns'))"
proof -
  note f = node_new_fields [OF demo_node_eq [of "''a''"]]
  have inv: "node_inv race_node"
    unfolding race_node_def using f by (intro node_steps.run_keeps node_inv_new [OF demo_node_eq]) auto
  have st: "static_ok (PeerId ''a'') 262144 race_node"
    using demo_static [of "''a''"] by (simp add: race_node_def static_ok_def register_connection_def spawn_def Let_def)
  have lead: "le_is_leader (ns_leader race_node)" "le_current_term (ns_leader race_node) < 5"
    using f by (simp_all add: race_node_def start_election_def leader_election_new_def Let_def become_leader_inner_def notify_leader_change_def
        majority_threshold_def le_is_leader_def le_current_term_def config_default_def)
  let ?x = "ne_ext race_env" and ?tx = "tm_next (ns_transport (demo_node ''a''))"
  obtain req beat where e: "encode_internal ?x (RequestVote 5 ''b'') 262144 = Inr req" "encode_internal ?x (Heartbeat 5 ''a'' 0) 262144 = Inr beat"
    by (simp add: encode_internal_def race_env_def table_ext_def len_u32_def)
  have "postcard_laws ?x" by (simp add: race_env_def table_ext_postcard)
  then have "is_internal req" "decode_internal ?x req = Inr (RequestVote 5 ''b'')"
    using encode_internal_type [OF e(1)] decode_encode_internal [OF _ e(1)] by simp_all
  from heartbeat_without_leading [OF st inv lead this, of beat] e(2) obtain ns' ts where
    p: "(pool_step (PeerId ''a'') 262144)\<^sup>*\<^sup>* (race_node, []) (ns', ts)" "\<not> le_is_leader (ns_leader ns')" and
    sent: "\<forall>q c. hm_get (tm_connections (ns_transport race_node)) q = Some c \<longrightarrow> pi_status (conn_info c) = Connected \<longrightarrow>
      ne_out race_env (control_tx c) beat = Sent \<longrightarrow> (control_tx c, beat) \<in> set (tm_sent (ns_transport ns'))"
    by (auto simp: race_env_def demo_env_def current_timestamp_ms_def)
  have "(?tx, beat) \<in> set (tm_sent (ns_transport ns'))"
    using sent [rule_format, of "PeerId ''b''"] f
    by (simp add: race_node_def register_connection_def spawn_def Let_def race_env_def demo_env_def hm_lookup)
  with p lead(1) e(2) show ?thesis by blast
qed





end
