(* ===== verification/Channels.thy ===== *)
theory Channels
  imports Transport
begin

text \<open>
  Which peer a send queue leads to. The transport starts the two tasks of a control or data channel together, with one cancellation token: the write task
  empties the queue onto the socket, the read task names the peer at the other end. The tasks started are on record in \<open>tm_spawned\<close>, so the peer of a
  queue is known even after its connection has been removed from the table.
\<close>

definition serves :: "TransportManager \<Rightarrow> nat \<Rightarrow> PeerId \<Rightarrow> bool" where
  "serves tm tx p \<longleftrightarrow> (\<exists>tok. ControlWrite tx tok \<in> set (tm_spawned tm) \<and> ControlRead p tok \<in> set (tm_spawned tm)
     \<or> DataWrite tx tok \<in> set (tm_spawned tm) \<and> DataRead p tok \<in> set (tm_spawned tm))"

fun handles :: "spawned_task \<Rightarrow> nat set" where
  "handles (ControlWrite tx tok) = {tx, tok}"
| "handles (ControlRead p tok) = {tok}"
| "handles (DataWrite tx tok) = {tx, tok}"
| "handles (DataRead p tok) = {tok}"
| "handles (OpenData p a) = {}"
| "handles (Reconnect p s) = {}"

definition leads_to :: "TransportManager \<Rightarrow> PeerId \<Rightarrow> PeerConnection \<Rightarrow> bool" where
  "leads_to tm p c \<longleftrightarrow> serves tm (control_tx c) p \<and> (\<forall>d. data_tx c = Some d \<longrightarrow> serves tm d p)"

definition wires_ok :: "TransportManager \<Rightarrow> bool" where
  "wires_ok tm \<longleftrightarrow> (\<Union>t \<in> set (tm_spawned tm). handles t) \<subseteq> {..<tm_next tm}
     \<and> (\<forall>tx p q. serves tm tx p \<longrightarrow> serves tm tx q \<longrightarrow> p = q)
     \<and> (\<forall>p c. hm_get (tm_connections tm) p = Some c \<longrightarrow> leads_to tm p c)"

lemma serves_below: "wires_ok tm \<Longrightarrow> serves tm tx p \<Longrightarrow> tx < tm_next tm"
  unfolding wires_ok_def serves_def by fastforce

lemma wires_ok_new: "transport_new l s cfg bound = Inr tm \<Longrightarrow> wires_ok tm"
  by (auto simp: wires_ok_def transport_new_def serves_def split: sum.splits)

text \<open>A step that starts no channel keeps what is known; so does one that starts a channel with fresh handles.\<close>

lemma wires_ok_same:
  assumes "wires_ok tm" "tm_next tm \<le> tm_next tm'"
    and "\<And>t. handles t \<noteq> {} \<Longrightarrow> t \<in> set (tm_spawned tm') \<longleftrightarrow> t \<in> set (tm_spawned tm)"
    and "\<And>p c. hm_get (tm_connections tm') p = Some c \<Longrightarrow> \<exists>c'. hm_get (tm_connections tm) p = Some c' \<and> control_tx c = control_tx c'
           \<and> (data_tx c = data_tx c' \<or> data_tx c = None)"
  shows "wires_ok tm' \<and> serves tm' = serves tm"
proof -
  have s: "serves tm' = serves tm" using assms(3) by (auto simp: serves_def fun_eq_iff)
  have "(\<Union>t \<in> set (tm_spawned tm'). handles t) \<subseteq> (\<Union>t \<in> set (tm_spawned tm). handles t)" using assms(3) by blast
  with assms(1,2) have "(\<Union>t \<in> set (tm_spawned tm'). handles t) \<subseteq> {..<tm_next tm'}" by (fastforce simp: wires_ok_def)
  moreover have "leads_to tm' p c" if "hm_get (tm_connections tm') p = Some c" for p c
    using assms(1) assms(4) [OF that] unfolding wires_ok_def leads_to_def s by (metis option.distinct(1))
  ultimately show ?thesis using assms(1) s unfolding wires_ok_def by metis
qed

lemma serves_channel:
  assumes "wires_ok tm" "set (tm_spawned tm') = set (tm_spawned tm) \<union> S"
    and "S \<subseteq> {ControlWrite n tok, ControlRead p tok, DataWrite n tok, DataRead p tok} \<union> {t. handles t = {}}" "tm_next tm \<le> n" "tm_next tm \<le> tok"
    and "serves tm' tx q"
  shows "serves tm tx q \<or> tx = n \<and> q = p"
proof -
  have "h < tm_next tm" if "t \<in> set (tm_spawned tm)" "h \<in> handles t" for t h
    using assms(1) that unfolding wires_ok_def by blast
  then have old: "ControlWrite tx' tok \<notin> set (tm_spawned tm)" "ControlRead q' tok \<notin> set (tm_spawned tm)"
    "DataWrite tx' tok \<notin> set (tm_spawned tm)" "DataRead q' tok \<notin> set (tm_spawned tm)" for tx' q'
    using assms(5) by fastforce+
  have new: "ControlWrite tx' t' \<in> S \<Longrightarrow> tx' = n \<and> t' = tok" "ControlRead q' t' \<in> S \<Longrightarrow> q' = p \<and> t' = tok"
    "DataWrite tx' t' \<in> S \<Longrightarrow> tx' = n \<and> t' = tok" "DataRead q' t' \<in> S \<Longrightarrow> q' = p \<and> t' = tok" for tx' q' t'
    using assms(3) by fastforce+
  from assms(6) obtain t where "ControlWrite tx t \<in> set (tm_spawned tm) \<union> S \<and> ControlRead q t \<in> set (tm_spawned tm) \<union> S
      \<or> DataWrite tx t \<in> set (tm_spawned tm) \<union> S \<and> DataRead q t \<in> set (tm_spawned tm) \<union> S"
    unfolding serves_def assms(2) by blast
  then show ?thesis using old new unfolding serves_def by (cases "t = tok") blast+
qed

lemma wires_ok_channel:
  assumes "wires_ok tm" "set (tm_spawned tm') = set (tm_spawned tm) \<union> S"
    and "S \<subseteq> {ControlWrite n tok, ControlRead p tok, DataWrite n tok, DataRead p tok} \<union> {t. handles t = {}}"
    and "n = tm_next tm" "tok = Suc n" "tm_next tm' = Suc tok"
    and "\<And>q c. hm_get (tm_connections tm') q = Some c \<Longrightarrow> leads_to tm q c \<or> leads_to tm' q c"
  shows "wires_ok tm'" "serves tm tx q \<Longrightarrow> serves tm' tx q" "tx < tm_next tm \<Longrightarrow> serves tm' tx q \<Longrightarrow> serves tm tx q"
proof -
  note new = serves_channel [OF assms(1-3)]
  show mono: "serves tm tx q \<Longrightarrow> serves tm' tx q" for tx q unfolding serves_def assms(2) by blast
  show "tx < tm_next tm \<Longrightarrow> serves tm' tx q \<Longrightarrow> serves tm tx q" using new [of tx q] assms(4,5) by auto
  have "(\<Union>t \<in> S. handles t) \<subseteq> {n, tok}" using assms(3) by fastforce
  moreover have "(\<Union>t \<in> set (tm_spawned tm). handles t) \<subseteq> {..<tm_next tm}" using assms(1) by (simp add: wires_ok_def)
  ultimately have "(\<Union>t \<in> set (tm_spawned tm'). handles t) \<subseteq> {..<tm_next tm'}" using assms(2,4-6) by fastforce
  moreover have "q = r" if "serves tm' tx q" "serves tm' tx r" for tx q r
    using new [OF _ _ that(1)] new [OF _ _ that(2)] serves_below [OF assms(1)] assms(1,4,5) unfolding wires_ok_def by (metis Suc_n_not_le_n le_refl less_imp_le_nat nat_neq_iff not_less_eq_eq)
  moreover have "leads_to tm' q c" if "hm_get (tm_connections tm') q = Some c" for q c
    using assms(7) [OF that] mono unfolding leads_to_def by blast
  ultimately show "wires_ok tm'" unfolding wires_ok_def by blast
qed

definition wires_kept :: "TransportManager \<Rightarrow> TransportManager \<Rightarrow> bool" where
  "wires_kept tm tm' \<longleftrightarrow> wires_ok tm' \<and> tm_next tm \<le> tm_next tm' \<and> (\<forall>tx p. tx < tm_next tm \<longrightarrow> serves tm' tx p \<longleftrightarrow> serves tm tx p)"

lemma wires_kept_refl: "wires_ok tm \<Longrightarrow> wires_kept tm tm"
  by (simp add: wires_kept_def)

lemma wires_kept_same:
  assumes "wires_ok tm" "tm_next tm' = tm_next tm" "tm_spawned tm' = tm_spawned tm"
    and "\<And>p c. hm_get (tm_connections tm') p = Some c \<Longrightarrow> \<exists>c'. hm_get (tm_connections tm) p = Some c' \<and> control_tx c = control_tx c'
           \<and> (data_tx c = data_tx c' \<or> data_tx c = None)"
  shows "wires_kept tm tm'"
  using wires_ok_same [OF assms(1), of tm'] assms by (simp add: wires_kept_def)

lemma wires_modify:
  "wires_ok tm \<Longrightarrow> (\<And>c. control_tx (f c) = control_tx c \<and> (data_tx (f c) = data_tx c \<or> data_tx (f c) = None)) \<Longrightarrow>
     wires_kept tm (tm\<lparr>tm_connections := hm_modify p f (tm_connections tm)\<rparr>)"
  by (rule wires_kept_same) (auto simp: hm_lookup split: if_splits)

lemma wires_register: "wires_ok tm \<Longrightarrow> wires_kept tm (snd (register_connection now p a tm))"
proof (cases "hm_contains (tm_connections tm) p")
  case True
  assume "wires_ok tm"
  with True show ?thesis
    using wires_ok_same [of tm "snd (register_connection now p a tm)"] by (simp add: wires_kept_def register_connection_def Let_def)
next
  case False
  assume ok: "wires_ok tm"
  let ?tm = "snd (register_connection now p a tm)" and ?n = "tm_next tm"
  let ?S = "{ControlWrite ?n (Suc ?n), ControlRead p (Suc ?n)} \<union> (if as_str (tm_local_peer_id tm) < as_str p then {OpenData p a} else {})"
  have S: "set (tm_spawned ?tm) = set (tm_spawned tm) \<union> ?S" "tm_next ?tm = Suc (Suc ?n)"
    using False by (auto simp: register_connection_def spawn_def Let_def)
  have new: "serves ?tm ?n p" unfolding serves_def S(1) by blast
  have "leads_to tm q c \<or> leads_to ?tm q c" if "hm_get (tm_connections ?tm) q = Some c" for q c
  proof (cases "q = p")
    case True
    with that False new show ?thesis by (auto simp: register_connection_def spawn_def Let_def hm_lookup leads_to_def)
  next
    case False
    with that \<open>\<not> hm_contains (tm_connections tm) p\<close> have "hm_get (tm_connections tm) q = Some c"
      by (auto simp: register_connection_def spawn_def Let_def hm_lookup split: if_splits)
    with ok show ?thesis by (simp add: wires_ok_def)
  qed
  with wires_ok_channel [OF ok S(1), of ?n "Suc ?n" p] S(2) show ?thesis by (auto simp: wires_kept_def)
qed

lemma wires_data: "wires_ok tm \<Longrightarrow> wires_kept tm (register_data_channel p tm)"
proof (cases "hm_get (tm_connections tm) p")
  case None
  assume "wires_ok tm"
  with None show ?thesis
    using wires_ok_same [of tm "register_data_channel p tm"] by (simp add: wires_kept_def register_data_channel_def Let_def)
next
  case (Some conn)
  assume ok: "wires_ok tm"
  let ?tm = "register_data_channel p tm" and ?n = "tm_next tm"
  let ?S = "{DataWrite ?n (Suc ?n), DataRead p (Suc ?n)}"
  have S: "set (tm_spawned ?tm) = set (tm_spawned tm) \<union> ?S" "tm_next ?tm = Suc (Suc ?n)"
    using Some by (auto simp: register_data_channel_def spawn_def Let_def)
  have mono: "serves tm tx q \<Longrightarrow> serves ?tm tx q" for tx q unfolding serves_def S(1) by blast
  have new: "serves ?tm ?n p" unfolding serves_def S(1) by blast
  have "leads_to tm q c \<or> leads_to ?tm q c" if c: "hm_get (tm_connections ?tm) q = Some c" for q c
  proof (cases "q = p")
    case True
    with c Some have "control_tx c = control_tx conn" "data_tx c = Some ?n" by (auto simp: register_data_channel_def spawn_def Let_def hm_lookup)
    moreover have "serves tm (control_tx conn) p" using ok Some by (simp add: wires_ok_def leads_to_def)
    ultimately show ?thesis using True new mono by (simp add: leads_to_def)
  next
    case False
    with c Some have "hm_get (tm_connections tm) q = Some c" by (auto simp: register_data_channel_def spawn_def Let_def hm_lookup)
    with ok show ?thesis by (simp add: wires_ok_def)
  qed
  with wires_ok_channel [OF ok S(1), of ?n "Suc ?n" p] S(2) show ?thesis by (auto simp: wires_kept_def)
qed

lemma wires_sent: "wires_ok tm \<Longrightarrow> wires_kept tm (tm\<lparr>tm_sent := l\<rparr>)"
  by (rule wires_kept_same) simp_all

lemma wires_control_end: "wires_ok tm \<Longrightarrow> wires_kept tm (control_read_cleanup sh shut p tm)"
proof -
  assume ok: "wires_ok tm"
  let ?tm = "control_read_cleanup sh shut p tm"
  have "wires_ok ?tm \<and> serves ?tm = serves tm"
    by (rule wires_ok_same [OF ok]) (auto simp: control_read_cleanup_def spawn_def Let_def hm_lookup split: option.splits if_splits)
  then show ?thesis by (simp add: wires_kept_def control_read_cleanup_def Let_def split: option.split)
qed

lemma cancel_all_wires [simp]: "tm_next (cancel_all cs tm) = tm_next tm" "tm_spawned (cancel_all cs tm) = tm_spawned tm"
  "tm_sent (cancel_all cs tm) = tm_sent tm"
  by (induction cs arbitrary: tm) simp_all

lemma wires_exec: "wires_ok tm \<Longrightarrow> wires_kept tm (transport_exec op tm)"
  by (cases op)
     (simp_all add: wires_register wires_data wires_control_end, 
      auto simp: data_read_cleanup_def send_to_peer_eq broadcast_eq disconnect_peer_def broadcast_peer_leave_def transport_shutdown_def
        set_should_reconnect_def set_auto_reconnect_def update_peer_status_def tm_update_last_seen_def update_rtt_def modify_info_def Let_def hm_lookup
        intro!: wires_modify wires_sent wires_kept_refl wires_kept_same split: option.splits sum.splits if_splits)

end
