(* ===== verification/Wire_Logic.thy ===== *)
theory Wire_Logic
  imports Node_Tasks Channels
begin

text \<open>
  The logic of tasks for nodes that talk to each other. A packet is allowed or not depending on the peer it is for; a node is in order when its election and its callback
  queue are and every packet it has queued is allowed for whoever reads the queue. What the handlers, timers and calls of \<open>Node_Tasks\<close> need for that is proved
  here once: for everything but the sections that change the election and the user messages that are passed on.
\<close>

section \<open>Packets and the peers they are for\<close>

definition sent_fits :: "(PeerId \<Rightarrow> RawPacket \<Rightarrow> bool) \<Rightarrow> TransportManager \<Rightarrow> bool" where
  "sent_fits pk tm \<longleftrightarrow> (\<forall>tx p. (tx, p) \<in> set (tm_sent tm) \<longrightarrow>
     (\<forall>q. pk q p) \<or> tx < tm_next tm \<and> (\<forall>q. serves tm tx q \<longrightarrow> pk q p))"

definition fits :: "('w \<Rightarrow> LeaderElection \<Rightarrow> CallbackManager \<Rightarrow> bool) \<Rightarrow> ('w \<Rightarrow> PeerId \<Rightarrow> RawPacket \<Rightarrow> bool) \<Rightarrow> 'w \<Rightarrow> NetworkState \<Rightarrow> bool" where
  "fits st pk w ns \<longleftrightarrow> st w (ns_leader ns) (ns_callback ns) \<and> wires_ok (ns_transport ns) \<and> sent_fits (pk w) (ns_transport ns)"

lemma sent_fits_mono: "sent_fits pk tm \<Longrightarrow> (\<And>q p. pk q p \<Longrightarrow> pk' q p) \<Longrightarrow> sent_fits pk' tm"
  unfolding sent_fits_def by blast

lemma sent_fits_kept: "sent_fits pk tm \<Longrightarrow> wires_kept tm tm' \<Longrightarrow> tm_sent tm' = tm_sent tm \<Longrightarrow> sent_fits pk tm'"
  unfolding sent_fits_def wires_kept_def by (metis order_less_le_trans)

lemma sent_fits_more:
  "sent_fits pk tm \<Longrightarrow> (\<forall>q. pk q p) \<or> tx < tm_next tm \<and> (\<forall>q. serves tm tx q \<longrightarrow> pk q p) \<Longrightarrow>
     sent_fits pk (tm\<lparr>tm_sent := tm_sent tm @ [(tx, p)]\<rparr>)"
  by (auto simp: sent_fits_def serves_def)

lemma sent_fits_to_peer:
  assumes "wires_ok tm" "sent_fits pk tm" "pk q p"
  shows "wires_ok (snd (send_to_peer out q p tm)) \<and> sent_fits pk (snd (send_to_peer out q p tm))"
proof (cases "hm_get (tm_connections tm) q")
  case (Some c)
  then have to: "serves tm (channel_for p c) q" using assms(1) by (auto simp: wires_ok_def leads_to_def channel_for_def split: option.splits)
  moreover have "r = q" if "serves tm (channel_for p c) r" for r using that to assms(1) unfolding wires_ok_def by blast
  ultimately have "channel_for p c < tm_next tm \<and> (\<forall>r. serves tm (channel_for p c) r \<longrightarrow> pk r p)"
    using serves_below [OF assms(1)] assms(3) by blast
  with Some assms show ?thesis
    using wires_sent [OF assms(1), unfolded wires_kept_def] by (simp add: send_to_peer_eq sent_fits_more)
qed (use assms in \<open>simp add: send_to_peer_eq\<close>)

lemma sent_fits_try:
  "wires_ok tm \<Longrightarrow> sent_fits pk tm \<Longrightarrow> (\<And>q. pk q p) \<Longrightarrow> wires_ok (snd (try_send out tx p tm)) \<and> sent_fits pk (snd (try_send out tx p tm))"
  using wires_sent [of tm] by (auto simp: try_send_def sent_fits_more wires_kept_def split: option.split)

lemma cut_kept: "wires_ok tm \<Longrightarrow> wires_kept tm (cut_connection pid tm) \<and> tm_sent (cut_connection pid tm) = tm_sent tm"
  by (auto intro!: wires_kept_same simp: cut_connection_def Let_def hm_lookup split: option.splits if_splits)

text \<open>The messages every node may send to anybody at any time, and the ones whose handling is left to the client of the logic.\<close>

fun routine :: "InternalMessage \<Rightarrow> bool" where
  "routine (RequestVote _ _) \<longleftrightarrow> False"
| "routine (VoteResponse _ _ _) \<longleftrightarrow> False"
| "routine (LeaderAssign _ _ _) \<longleftrightarrow> False"
| "routine (ForwardedUserData _ _ _ _) \<longleftrightarrow> False"
| "routine _ \<longleftrightarrow> True"

fun is_received :: "CallbackEvent \<Rightarrow> bool" where
  "is_received (Received _ _ _ _) \<longleftrightarrow> True"
| "is_received _ \<longleftrightarrow> False"

text \<open>Whom a routed message and a forwarded message may be queued for.\<close>

fun reaches :: "MessageTarget \<Rightarrow> PeerId \<Rightarrow> bool" where
  "reaches Broadcast q \<longleftrightarrow> True"
| "reaches (ToPeer pid) q \<longleftrightarrow> q = pid"
| "reaches ToLeader q \<longleftrightarrow> True"

fun fwd_target :: "ForwardTarget \<Rightarrow> MessageTarget" where
  "fwd_target FwdBroadcast = Broadcast"
| "fwd_target (FwdToPeer pid) = ToPeer pid"

text \<open>
  What a node starts of its own accord: timers, watchers, the transport's own operations, the settings of the router, and switching automatic election on or off. Packets are sent by
  handlers, timers and calls only, so plain sends are not among these; nor is the manual choice of a leader.
\<close>

fun own_op :: "ext \<Rightarrow> PeerId \<Rightarrow> node_op \<Rightarrow> bool" where
  "own_op x n (NMessage env pid p) \<longleftrightarrow> False"
| "own_op x n (NPing env) \<longleftrightarrow> ne_ext env = x"
| "own_op x n (NHeartbeat env) \<longleftrightarrow> ne_ext env = x"
| "own_op x n (NElection env) \<longleftrightarrow> ne_ext env = x"
| "own_op x n (NLeaderWatch env lost) \<longleftrightarrow> True"
| "own_op x n (NMemberWatch env lag) \<longleftrightarrow> True"
| "own_op x n (NReconnectWatch env lost) \<longleftrightarrow> True"
| "own_op x n (NTransport (TRegister now p a)) \<longleftrightarrow> p \<noteq> n"
| "own_op x n (NTransport (TSend out p pk)) \<longleftrightarrow> False"
| "own_op x n (NTransport (TBroadcast out pk ex)) \<longleftrightarrow> False"
| "own_op x n (NTransport (TDisconnect x' out p)) \<longleftrightarrow> x' = x"
| "own_op x n (NTransport (TLeave x' out)) \<longleftrightarrow> x' = x"
| "own_op x n (NTransport _) \<longleftrightarrow> True"
| "own_op x n (NMember op) \<longleftrightarrow> False"
| "own_op x n (NElect (OpEnableAuto b)) \<longleftrightarrow> True"
| "own_op x n (NElect _) \<longleftrightarrow> False"
| "own_op x n (NRouter op) \<longleftrightarrow> True"

section \<open>The logic\<close>

locale wire_logic = task_logic fut own "fits st pk" adm cnt
  for fut :: "'w \<Rightarrow> 'w \<Rightarrow> bool" and own :: "'w \<Rightarrow> 'w \<Rightarrow> bool" and st :: "'w \<Rightarrow> LeaderElection \<Rightarrow> CallbackManager \<Rightarrow> bool"
    and pk :: "'w \<Rightarrow> PeerId \<Rightarrow> RawPacket \<Rightarrow> bool" and adm :: "NetworkState \<Rightarrow> bool" and cnt :: "nat \<Rightarrow> bool" +
  fixes me :: PeerId and x :: ext and msg :: "'w \<Rightarrow> PeerId \<Rightarrow> InternalMessage \<Rightarrow> bool"
  assumes fut_own: "fut w w' \<Longrightarrow> own w' w'"
    and adm_node: "adm ns \<Longrightarrow> node_at me ns"
    and pk_fut: "fut w w' \<Longrightarrow> pk w q p \<Longrightarrow> pk w' q p"
    and pk_msg: "postcard_laws x \<Longrightarrow> encode_internal x m mx = Inr p \<Longrightarrow> msg w q m \<Longrightarrow> pk w q p"
    and msg_routine: "routine m \<Longrightarrow> msg w q m"
    and st_event: "\<not> is_received e \<Longrightarrow> st w le cb \<Longrightarrow> st w le (send_event out e cb)"
    and st_notified: "st w (le\<lparr>le_notified := ls\<rparr>) cb \<longleftrightarrow> st w le cb"
    and st_heartbeat: "st w le cb \<Longrightarrow> st w (snd (handle_heartbeat t l le)) cb"
    and st_left: "pid \<noteq> me \<Longrightarrow> st w le cb \<Longrightarrow> st w (handle_peer_left pid le) cb"
    and st_auto: "st w le cb \<Longrightarrow> st w (leader_exec (OpEnableAuto b) le) cb"
begin

text \<open>Sections that add nothing to the history.\<close>

lemma safe_quiet:
  assumes "\<And>w' ns. fut w w' \<Longrightarrow> fits st pk w' ns \<Longrightarrow> node_at me ns \<Longrightarrow> fits st pk w' (u ns)"
    and "\<And>ns. node_at me ns \<Longrightarrow> safe (k ns) w"
  shows "safe (Sec u k) w"
  using assms safe_fut fut_own adm_node unfolding safe.simps by meson

lemma safe_other:
  "(\<And>ns. ns_leader (u ns) = ns_leader ns \<and> ns_transport (u ns) = ns_transport ns \<and> ns_callback (u ns) = ns_callback ns) \<Longrightarrow>
     (\<And>ns. node_at me ns \<Longrightarrow> safe (k ns) w) \<Longrightarrow> safe (Sec u k) w"
  by (rule safe_quiet) (simp_all add: fits_def)

lemma safe_look: "(\<And>ns. node_at me ns \<Longrightarrow> safe (k (r ns)) w) \<Longrightarrow> safe (look r k) w"
  by (rule safe_other) simp_all

lemma safe_received:
  assumes "\<And>w' le cb out. fut w w' \<Longrightarrow> st w' le cb \<Longrightarrow> st w' le (send_event out e cb)" "safe t w"
  shows "safe (act (node_event env e) t) w"
  by (rule safe_quiet) (use assms in \<open>auto simp: fits_def node_event_def\<close>)

lemma safe_event: "\<not> is_received e \<Longrightarrow> safe t w \<Longrightarrow> safe (act (node_event env e) t) w"
  by (rule safe_received) (rule st_event)

lemma safe_with_member: "(\<And>m. mpart me m \<Longrightarrow> safe (k (fst (f m))) w) \<Longrightarrow> safe (with_member f k) w"
  unfolding with_member_def by (auto intro!: safe_other simp: case_prod_beta Let_def node_at_def node_inv_def simp del: safe.simps)

lemma safe_with_leader:
  assumes "\<And>w' le cb. st w' le cb \<Longrightarrow> st w' (snd (f le)) cb" "\<And>r. safe (k r) w"
  shows "safe (with_leader f k) w"
  unfolding with_leader_def using assms
  by (auto intro!: safe_quiet simp: fits_def case_prod_beta Let_def fold_notify st_notified simp del: safe.simps)

lemma safe_leader:
  assumes "\<And>w' le cb. fut w w' \<Longrightarrow> st w' le cb \<Longrightarrow> st w' (snd (f le)) cb" "\<And>r. safe (k r) w"
  shows "safe (on_leader f k) w"
  by (rule safe_quiet) (use assms in \<open>auto simp: fits_def\<close>)

text \<open>Sections of the transport.\<close>

lemma safe_transport:
  assumes "\<And>w' tm. fut w w' \<Longrightarrow> wires_ok tm \<Longrightarrow> sent_fits (pk w') tm \<Longrightarrow> wires_ok (f tm) \<and> sent_fits (pk w') (f tm)" "safe t w"
  shows "safe (on_transport f t) w"
  by (rule safe_quiet) (use assms in \<open>auto simp: fits_def\<close>)

lemma safe_silent:
  assumes "\<And>tm. wires_ok tm \<Longrightarrow> wires_kept tm (f tm) \<and> tm_sent (f tm) = tm_sent tm" "safe t w"
  shows "safe (on_transport f t) w"
proof (rule safe_transport)
  fix w' tm
  assume "wires_ok tm" "sent_fits (pk w') tm"
  with assms(1) sent_fits_kept show "wires_ok (f tm) \<and> sent_fits (pk w') (f tm)" by (metis wires_kept_def)
qed (rule assms(2))

lemma safe_send: "pk w q p \<Longrightarrow> safe t w \<Longrightarrow> safe (on_transport (\<lambda>tm. snd (send_to_peer out q p tm)) t) w"
  by (rule safe_transport) (simp_all add: sent_fits_to_peer pk_fut)

lemma safe_send_each: "(\<And>q. pk w q p) \<Longrightarrow> safe t w \<Longrightarrow> safe (send_each out p ts t) w"
proof (induction out p ts t rule: send_each.induct)
  case (2 out p pid tx ts t)
  then show ?case unfolding send_each.simps by (intro safe_transport sent_fits_try) (auto dest: pk_fut)
qed simp

lemma safe_broadcast: "(\<And>q. pk w q p) \<Longrightarrow> safe t w \<Longrightarrow> safe (broadcast_task out p ex t) w"
  unfolding broadcast_task_def by (intro safe_look safe_send_each)

lemma safe_encoded:
  "postcard_laws x \<Longrightarrow> ne_ext env = x \<Longrightarrow> safe t w \<Longrightarrow> (\<And>p. (\<And>q. msg w q m \<Longrightarrow> pk w q p) \<Longrightarrow> safe (k p) w) \<Longrightarrow> safe (encoded env mx m t k) w"
  unfolding encoded_def by (cases "encode_internal x m mx") (use pk_msg in fastforce)+

lemma safe_reply: "postcard_laws x \<Longrightarrow> ne_ext env = x \<Longrightarrow> msg w q m \<Longrightarrow> safe (reply_task env mx q m) w"
  unfolding reply_task_def by (intro safe_encoded safe_send) simp_all

lemma safe_announce:
  "postcard_laws x \<Longrightarrow> ne_ext env = x \<Longrightarrow> (\<And>q. msg w q m) \<Longrightarrow> safe t w \<Longrightarrow> safe (announce_task env mx m t) w"
  unfolding announce_task_def by (intro safe_encoded safe_broadcast) simp_all

lemma safe_beat: "postcard_laws x \<Longrightarrow> ne_ext env = x \<Longrightarrow> safe (beat_task env me' mx i) w"
  unfolding beat_task_def by (intro safe_look safe_announce) (simp_all add: msg_routine)

lemma safe_disconnect: "postcard_laws x \<Longrightarrow> safe t w \<Longrightarrow> safe (disconnect_task x out me' mx pid t) w"
  unfolding disconnect_task_def
  by (cases "encode_internal x (PeerLeave (as_str me')) mx")
     (simp_all add: safe_send [OF pk_msg [OF _ _ msg_routine]] safe_silent [where f = "cut_connection pid"] cut_kept del: safe.simps)

text \<open>User messages: it is enough that the packet a message is packed into may go where the message goes.\<close>

lemma safe_packed_user:
  "ne_ext env = x \<Longrightarrow> safe t w \<Longrightarrow> (\<And>thr p. encode_packet x mt d f thr mx = Inr p \<Longrightarrow> safe (k p) w) \<Longrightarrow> safe (packed_user env mx mt d f t k) w"
  unfolding packed_user_def by (rule safe_look) (auto split: sum.split)

lemma safe_forward:
  assumes "ne_ext env = x" "safe t w"
    and "\<And>thr p q. encode_packet x mt data (flags AND 0xFE) thr mx = Inr p \<Longrightarrow> reaches (fwd_target fwd) q \<Longrightarrow> pk w q p"
  shows "safe (forward_task env mx from_peer fwd mt flags data t) w"
  unfolding forward_task_def using assms
  by (auto intro!: safe_look safe_packed_user safe_send safe_broadcast split: ForwardTarget.split simp del: safe.simps)

lemma safe_from_leader:
  assumes "ne_ext env = x" "\<And>thr p q. encode_packet x mt data (flags AND 0xFE) thr mx = Inr p \<Longrightarrow> pk w q p"
  shows "safe (send_from_leader_task env mx mt data flags) w"
  unfolding send_from_leader_task_def using assms by (auto intro!: safe_look safe_packed_user safe_broadcast simp del: safe.simps(2))

lemma safe_route:
  assumes "postcard_laws x" "ne_ext env = x"
    and "\<And>thr p q. encode_packet x mt data (flags AND 0xFE) thr mx = Inr p \<Longrightarrow> reaches target q \<Longrightarrow> pk w q p"
    and "\<And>q. target = Broadcast \<Longrightarrow> \<not> mt < USER_MESSAGE_START \<Longrightarrow> msg w q (ForwardedUserData (as_str me') mt (flags AND 0xFE) data)"
  shows "safe (route_task env me' mx target mt data flags) w"
  unfolding route_task_def Let_def using assms
  by (auto intro!: safe_look safe_packed_user safe_encoded safe_send safe_broadcast split: MessageTarget.split option.split simp del: safe.simps(2))

text \<open>Handlers, timers and watchers.\<close>

lemma safe_admit: "safe (admit_task env pid) w"
  unfolding admit_task_def by (auto intro!: safe_look safe_with_member split: option.split sum.split simp del: safe.simps(2))

lemma safe_sync: "safe (sync_task me' peers) w"
  by (induction me' peers rule: sync_task.induct) (auto simp: Let_def intro!: safe_other simp del: safe.simps(2))

lemma safe_drop: "postcard_laws x \<Longrightarrow> ne_ext env = x \<Longrightarrow> safe (drop_task env me' mx pids) w"
  by (induction env me' mx pids rule: drop_task.induct) (simp_all add: safe_with_member safe_event safe_disconnect del: safe.simps(2))

lemma safe_ping: "postcard_laws x \<Longrightarrow> ne_ext env = x \<Longrightarrow> safe (ping_task env me' mx) w"
  unfolding ping_task_def by (intro safe_announce safe_look safe_drop) (simp_all add: msg_routine)

lemma safe_heartbeat: "postcard_laws x \<Longrightarrow> ne_ext env = x \<Longrightarrow> safe (heartbeat_task env me' mx) w"
  unfolding heartbeat_task_def by (auto intro!: safe_look safe_beat simp del: safe.simps(2))

lemma safe_watch: "safe (leader_watch_task env lost) w" "safe (member_watch_task env lag) w" "safe (reconnect_watch_task env lost) w"
proof -
  have "safe (member_event_task env e) w" if "e \<noteq> Left me" for e
    using that by (cases e) (auto intro!: safe_event safe_with_leader st_left simp del: safe.simps(2))
  moreover have "mm_events (ns_membership ns) ! i \<noteq> Left me" if "node_at me ns" "i < length (mm_events (ns_membership ns))" for ns i
    using that by (metis mpart_def node_at_def node_inv_def nth_mem)
  ultimately show "safe (member_watch_task env lag) w" unfolding member_watch_task_def by (intro safe_other) auto
qed (auto simp: leader_watch_task_def reconnect_watch_task_def intro!: safe_other safe_event split: prod.split simp del: safe.simps(2))

lemma safe_handle_internal:
  assumes "postcard_laws x" "ne_ext env = x" "routine m"
  shows "safe (handle_internal_task env me' mx q m) w"
proof (cases m)
  case (PeerLeave i)
  then show ?thesis
    by (auto intro!: safe_silent safe_with_member wires_modify simp: set_should_reconnect_def modify_info_def simp del: safe.simps(2))
next
  case (Pong ts)
  then show ?thesis
    by (auto intro!: safe_silent safe_with_member wires_modify simp: tm_update_last_seen_def update_rtt_def modify_info_def simp del: safe.simps(2))
qed (use assms in \<open>auto intro!: safe_admit safe_sync safe_with_member safe_reply safe_with_leader st_heartbeat msg_routine simp del: safe.simps(2)\<close>)

lemma safe_transport_task:
  assumes "postcard_laws x" "own_op x me (NTransport op)"
  shows "safe (transport_task me' mx op) w"
proof (cases op)
  case (TLeave x' out)
  with assms have "safe (broadcast_task out p None Done) w" if "encode_internal x (PeerLeave (as_str me')) mx = Inr p" for p
    using that by (intro safe_broadcast pk_msg [OF _ that] msg_routine) simp_all
  with TLeave assms show ?thesis by (simp split: sum.split)
next
  case (TDisconnect x' out p)
  with assms show ?thesis by (simp add: safe_disconnect)
qed (use assms wires_exec [of _ op] in \<open>auto intro!: safe_silent simp: register_connection_def control_read_cleanup_def register_data_channel_def
   data_read_cleanup_def transport_shutdown_def set_should_reconnect_def set_auto_reconnect_def update_peer_status_def tm_update_last_seen_def
   update_rtt_def modify_info_def spawn_def Let_def split: option.split simp del: safe.simps(2)\<close>)

lemma safe_own:
  assumes "postcard_laws x" "own_op x me op" "\<And>env. op = NElection env \<Longrightarrow> safe (election_task env me' mx) w"
  shows "safe (node_task me' mx op) w"
proof (cases op)
  case (NTransport t)
  with assms safe_transport_task show ?thesis by simp
next
  case (NElect e)
  with assms(2) obtain b where "op = NElect (OpEnableAuto b)" by (cases e) auto
  then show ?thesis using st_auto by (auto intro!: safe_with_leader simp del: safe.simps(2))
next
  case (NRouter r)
  then show ?thesis by (auto intro!: safe_other simp del: safe.simps(2))
qed (use assms in \<open>auto intro!: safe_ping safe_heartbeat safe_watch\<close>)

end

end
