(* ===== verification/Cluster.thy ===== *)
theory Cluster
  imports Leader
begin

text \<open>
  Several nodes running the election of \<^verbatim>\<open>src/leader.rs\<close> over a network that may delay,
  reorder, duplicate and lose messages. A step is one node running one handler, the way
  \<^verbatim>\<open>handle_message\<close> and the election timer of \<^verbatim>\<open>src/lib.rs\<close> call it: vote requests, vote
  responses and heartbeats that have been sent stay in \<open>soup\<close> and may be delivered any
  number of times. \<open>ballots\<close> is a history variable: which node has voted for whom in which
  term. Manual assignment (\<^verbatim>\<open>SetLeader\<close>) is not among the steps; it is a separate mode that
  resets votes.
\<close>

section \<open>Definitions\<close>

datatype election_msg =
    MReq u64 string
  | MResp PeerId u64 string bool
  | MBeat u64 string

record cluster =
  nodes :: "PeerId \<Rightarrow> LeaderElection"
  soup :: "election_msg set"
  ballots :: "(u64 \<times> PeerId \<times> PeerId) set"

definition cluster_init :: "(PeerId \<Rightarrow> bool) \<Rightarrow> ManualOverrideRecovery \<Rightarrow> cluster" where
  "cluster_init auto rec =
     \<lparr>nodes = (\<lambda>n. leader_election_new n (auto n) rec), soup = {}, ballots = {}\<rparr>"

definition term_of :: "cluster \<Rightarrow> PeerId \<Rightarrow> u64" where
  "term_of c n = current_term (le_state (nodes c n))"

definition role_of :: "cluster \<Rightarrow> PeerId \<Rightarrow> Role" where
  "role_of c n = role (le_state (nodes c n))"

abbreviation put_node :: "PeerId \<Rightarrow> LeaderElection \<Rightarrow> cluster \<Rightarrow> cluster" where
  "put_node n le c \<equiv> c\<lparr>nodes := (nodes c)(n := le)\<rparr>"

text \<open>
  The heartbeat the election timer and the vote-response handler broadcast when the node has
  become leader.
\<close>

definition beat :: "LeaderElection \<Rightarrow> election_msg set" where
  "beat le = (if le_is_leader le then {MBeat (le_current_term le) (as_str (le_local_peer_id le))} else {})"

text \<open>The handlers on the cluster: the node runs, its message and its vote are recorded.\<close>

definition on_timeout :: "PeerId \<Rightarrow> nat \<Rightarrow> cluster \<Rightarrow> cluster" where
  "on_timeout n k c = (case start_election k (nodes c n) of (req, le) \<Rightarrow>
     put_node n le c\<lparr>soup := soup c \<union> (case req of None \<Rightarrow> {} | Some (t, i) \<Rightarrow> {MReq t i}) \<union> beat le,
       ballots := ballots c \<union> (if current_term (le_state le) = term_of c n then {}
                               else {(current_term (le_state le), n, n)})\<rparr>)"

definition on_request :: "PeerId \<Rightarrow> u64 \<Rightarrow> string \<Rightarrow> cluster \<Rightarrow> cluster" where
  "on_request n t i c = (case handle_request_vote t i (nodes c n) of ((t', granted), le) \<Rightarrow>
     put_node n le c\<lparr>soup := insert (MResp (PeerId i) t' (as_str n) granted) (soup c),
       ballots := ballots c \<union> (if granted then {(t', n, PeerId i)} else {})\<rparr>)"

definition on_response :: "PeerId \<Rightarrow> u64 \<Rightarrow> string \<Rightarrow> bool \<Rightarrow> nat \<Rightarrow> cluster \<Rightarrow> cluster" where
  "on_response n t v granted k c = (case handle_vote_response t v granted k (nodes c n) of (won, le) \<Rightarrow>
     put_node n le c\<lparr>soup := soup c \<union> (if won then beat le else {})\<rparr>)"

text \<open>
  \<open>k\<close> is the number of connected peers the handler passes to the threshold. The premise
  \<open>card P \<le> Suc k\<close> says the node sees at least all other members as connected. The
  election timer only calls \<^verbatim>\<open>start_election\<close> on a node that is not leader and knows none; the
  step below allows it at any time.
\<close>

inductive cluster_step :: "PeerId set \<Rightarrow> cluster \<Rightarrow> cluster \<Rightarrow> bool" for P where
  timeout:
    "n \<in> P \<Longrightarrow> term_of c n \<noteq> - 1 \<Longrightarrow> card P \<le> Suc k \<Longrightarrow> cluster_step P c (on_timeout n k c)"
| request:
    "n \<in> P \<Longrightarrow> MReq t i \<in> soup c \<Longrightarrow> cluster_step P c (on_request n t i c)"
| response:
    "n \<in> P \<Longrightarrow> MResp n t v granted \<in> soup c \<Longrightarrow> card P \<le> Suc k \<Longrightarrow>
     cluster_step P c (on_response n t v granted k c)"
| heartbeat:
    "n \<in> P \<Longrightarrow> MBeat t i \<in> soup c \<Longrightarrow>
     cluster_step P c (put_node n (snd (handle_heartbeat t i (nodes c n))) c)"
| periodic:
    "n \<in> P \<Longrightarrow> cluster_step P c (c\<lparr>soup := soup c \<union> beat (nodes c n)\<rparr>)"
| peer_left:
    "n \<in> P \<Longrightarrow> p \<noteq> n \<Longrightarrow> cluster_step P c (put_node n (handle_peer_left p (nodes c n)) c)"
| set_auto:
    "n \<in> P \<Longrightarrow> cluster_step P c (put_node n (enable_auto_election b (nodes c n)) c)"

inductive cluster_reachable :: "PeerId set \<Rightarrow> cluster \<Rightarrow> bool" for P where
  init: "cluster_reachable P (cluster_init auto rec)"
| step: "cluster_reachable P c \<Longrightarrow> cluster_step P c c' \<Longrightarrow> cluster_reachable P c'"

text \<open>A run of three nodes.\<close>

definition trio :: "PeerId set" where
  "trio = {PeerId ''a'', PeerId ''b'', PeerId ''c''}"

definition trio_start :: cluster where
  "trio_start = on_timeout (PeerId ''a'') 2 (cluster_init (\<lambda>_. True) AutoElect)"

definition trio_voted :: cluster where
  "trio_voted = on_request (PeerId ''b'') 1 ''a'' trio_start"

definition trio_won :: cluster where
  "trio_won = on_response (PeerId ''a'') 1 ''b'' True 2 trio_voted"

section \<open>What one handler does to term and vote\<close>

text \<open>
  A node's vote is sticky: its term never falls, and while the term stays the same a vote
  once cast is kept. A run of such steps never votes for two candidates in one term.
\<close>

locale sticky_votes =
  fixes step :: "'s \<Rightarrow> 's \<Rightarrow> bool"
    and trm :: "'s \<Rightarrow> 't::linorder"
    and vote :: "'s \<Rightarrow> 'c option"
  assumes term_grows: "step s s' \<Longrightarrow> trm s \<le> trm s'"
    and vote_kept: "step s s' \<Longrightarrow> trm s' = trm s \<Longrightarrow> vote s = Some x \<Longrightarrow> vote s' = Some x"
begin

lemma run_keeps_vote:
  assumes "step\<^sup>*\<^sup>* s s'"
  shows "trm s \<le> trm s' \<and> (trm s' = trm s \<longrightarrow> vote s = Some x \<longrightarrow> vote s' = Some x)"
  using assms
proof (induction rule: rtranclp_induct)
  case base
  show ?case by simp
next
  case (step u w)
  then show ?case
    using term_grows [of u w] vote_kept [of u w x] by auto
qed

lemma one_vote_per_term:
  "step\<^sup>*\<^sup>* s s' \<Longrightarrow> trm s = trm s' \<Longrightarrow> vote s = Some x \<Longrightarrow> vote s' = Some y \<Longrightarrow> x = y"
  using run_keeps_vote [of s s' x] by simp

end

text \<open>One election step of a node, manual assignment excluded, below the wrap of the term.\<close>

definition election_step :: "LeaderElection \<Rightarrow> LeaderElection \<Rightarrow> bool" where
  "election_step le le' \<longleftrightarrow>
     current_term (le_state le) \<noteq> - 1 \<and>
     (\<exists>op. le' = leader_exec op le \<and> (\<forall>t l a. op \<noteq> OpLeaderAssign t l a) \<and> (\<forall>p. op \<noteq> OpSetLeader p))"

lemma election_step_vote_kept:
  assumes "election_step le le'" "current_term (le_state le') = current_term (le_state le)"
    and "voted_for (le_state le) = Some x"
  shows "voted_for (le_state le') = Some x"
proof -
  from assms(1) obtain op where nw: "current_term (le_state le) \<noteq> - 1" and le': "le' = leader_exec op le"
    and ops: "\<And>t l a. op \<noteq> OpLeaderAssign t l a" "\<And>p. op \<noteq> OpSetLeader p"
    by (auto simp: election_step_def)
  from nw have "current_term (le_state le) + 1 \<noteq> current_term (le_state le)"
    using less_plus_one by fastforce
  with assms(2,3) ops show ?thesis unfolding le'
    by (cases op) (auto simp: leader_defs intro: PeerId.expand split: option.splits if_splits ManualOverrideRecovery.splits)
qed

interpretation node_votes:
  sticky_votes election_step "\<lambda>le. current_term (le_state le)" "\<lambda>le. voted_for (le_state le)"
proof unfold_locales
  fix le le' assume "election_step le le'"
  then show "current_term (le_state le) \<le> current_term (le_state le')"
    unfolding election_step_def using leader_exec_term by blast
qed (rule election_step_vote_kept)

section \<open>The invariant of the cluster\<close>

definition quorum_for :: "PeerId set \<Rightarrow> (u64 \<times> PeerId \<times> PeerId) set \<Rightarrow> u64 \<Rightarrow> PeerId \<Rightarrow> bool" where
  "quorum_for P B t n \<longleftrightarrow> (\<exists>Q \<subseteq> P. card P < 2 * card Q \<and> (\<forall>v \<in> Q. (t, v, n) \<in> B))"

definition node_ok :: "PeerId set \<Rightarrow> (u64 \<times> PeerId \<times> PeerId) set \<Rightarrow> PeerId \<Rightarrow> LeaderElection \<Rightarrow> bool" where
  "node_ok P B n le \<longleftrightarrow>
     le_local_peer_id le = n \<and> leader_inv le
   \<and> (\<forall>t x. (t, n, x) \<in> B \<longrightarrow>
        t \<le> current_term (le_state le) \<and> (t = current_term (le_state le) \<longrightarrow> voted_for (le_state le) = Some x))
   \<and> (role (le_state le) = Candidate \<longrightarrow>
        (\<forall>v \<in> votes_received (le_state le). (current_term (le_state le), v, n) \<in> B))
   \<and> (role (le_state le) = Leader \<longrightarrow> quorum_for P B (current_term (le_state le)) n)"

definition ballots_ok :: "PeerId set \<Rightarrow> (u64 \<times> PeerId \<times> PeerId) set \<Rightarrow> bool" where
  "ballots_ok P B \<longleftrightarrow>
     (\<forall>t v x. (t, v, x) \<in> B \<longrightarrow> v \<in> P) \<and> (\<forall>t v x y. (t, v, x) \<in> B \<longrightarrow> (t, v, y) \<in> B \<longrightarrow> x = y)"

definition soup_ok :: "(u64 \<times> PeerId \<times> PeerId) set \<Rightarrow> election_msg set \<Rightarrow> bool" where
  "soup_ok B S \<longleftrightarrow> (\<forall>n t v. MResp n t v True \<in> S \<longrightarrow> (t, PeerId v, n) \<in> B)"

definition cluster_inv :: "PeerId set \<Rightarrow> cluster \<Rightarrow> bool" where
  "cluster_inv P c \<longleftrightarrow>
     (\<forall>n \<in> P. node_ok P (ballots c) n (nodes c n)) \<and> ballots_ok P (ballots c) \<and> soup_ok (ballots c) (soup c)"

lemma quorum_mono: "quorum_for P B t n \<Longrightarrow> B \<subseteq> B' \<Longrightarrow> quorum_for P B' t n"
  by (force simp: quorum_for_def)

lemma quorums_agree:
  assumes "finite P" "ballots_ok P B" "quorum_for P B t a" "quorum_for P B t b"
  shows "a = b"
proof -
  from assms(3,4) obtain Q R where Q: "Q \<subseteq> P" "card P < 2 * card Q" "\<forall>v \<in> Q. (t, v, a) \<in> B"
    and R: "R \<subseteq> P" "card P < 2 * card R" "\<forall>v \<in> R. (t, v, b) \<in> B"
    by (auto simp: quorum_for_def)
  have fin: "finite Q" "finite R" using Q(1) R(1) assms(1) by (auto intro: finite_subset)
  have "Q \<inter> R \<noteq> {}"
  proof
    assume "Q \<inter> R = {}"
    then have "card Q + card R = card (Q \<union> R)"
      using fin by (simp add: card_Un_disjoint)
    also have "\<dots> \<le> card P" using assms(1) Q(1) R(1) by (simp add: card_mono)
    finally show False using Q(2) R(2) by simp
  qed
  then obtain v where "v \<in> Q" "v \<in> R" by blast
  with Q(3) R(3) assms(2) show ?thesis unfolding ballots_ok_def by blast
qed

lemma majority_is_quorum:
  "3 \<le> card P \<Longrightarrow> card P \<le> Suc k \<Longrightarrow> majority_threshold (1 + k) \<le> m \<Longrightarrow> card P < 2 * m \<and> 2 \<le> m"
  by (auto simp: majority_threshold_def)

text \<open>Ballots of other nodes do not concern a node.\<close>

lemma node_ok_mono:
  "node_ok P B n le \<Longrightarrow> B \<subseteq> B' \<Longrightarrow> (\<And>t x. (t, n, x) \<in> B' \<Longrightarrow> (t, n, x) \<in> B) \<Longrightarrow> node_ok P B' n le"
  unfolding node_ok_def using quorum_mono by blast

lemma node_ok_start:
  assumes ok: "node_ok P B n le" and nw: "current_term (le_state le) \<noteq> - 1"
    and P: "3 \<le> card P" "card P \<le> Suc k" and st: "start_election k le = (req, le')"
    and B': "B' = B \<union> (if current_term (le_state le') = current_term (le_state le) then {}
                        else {(current_term (le_state le'), n, n)})"
  shows "node_ok P B' n le'"
proof (cases "auto_election_enabled (le_state le) \<and> \<not> manual_override (le_state le)")
  case False
  with st have "le' = le" by (auto simp: start_election_def Let_def)
  with ok B' show ?thesis by simp
next
  case True
  have "\<not> majority_threshold (1 + k) \<le> 1"
    using majority_is_quorum [OF P, of 1] by auto
  with True st have le': "le' = le\<lparr>le_state := (le_state le)\<lparr>current_term := current_term (le_state le) + 1,
      role := Candidate, voted_for := Some (le_local_peer_id le), votes_received := {le_local_peer_id le}\<rparr>\<rparr>"
    by (auto simp: start_election_def Let_def)
  have new: "current_term (le_state le) < current_term (le_state le) + 1"
    using nw by (rule less_plus_one)
  then have "B' = insert (current_term (le_state le) + 1, n, n) B"
    by (simp add: B' le' less_imp_neq [symmetric])
  moreover have "leader_inv le'"
    using ok leader_inv_start [of le k] st by (simp add: node_ok_def)
  moreover have "t < current_term (le_state le) + 1" if "(t, n, x) \<in> B" for t x
    using that ok new by (force simp: node_ok_def)
  ultimately show ?thesis
    using ok by (auto simp: node_ok_def le' less_imp_le dest: less_imp_neq)
qed

lemma request_vote_outcome:
  assumes rv: "handle_request_vote t i le = ((t', granted), le')"
  shows "t' = current_term (le_state le')"
    and "granted \<Longrightarrow> voted_for (le_state le') = Some (PeerId i)"
    and "granted \<Longrightarrow> t' = t"
    and "current_term (le_state le) \<le> t'"
    and "current_term (le_state le) = t' \<Longrightarrow> voted_for (le_state le) = Some x \<Longrightarrow>
           voted_for (le_state le') = Some x"
    and "role (le_state le') = role (le_state le) \<and> votes_received (le_state le') = votes_received (le_state le)
           \<and> t' = current_term (le_state le) \<or> role (le_state le') = Follower \<and> votes_received (le_state le') = {}"
  using rv by (auto simp: handle_request_vote_def Let_def intro: PeerId.expand split: if_splits option.splits)

lemma node_ok_request:
  assumes ok: "node_ok P B n le" and rv: "handle_request_vote t i le = ((t', granted), le')"
    and B': "B' = B \<union> (if granted then {(t', n, PeerId i)} else {})"
  shows "node_ok P B' n le'" and "granted \<Longrightarrow> (t', n, x) \<in> B \<Longrightarrow> x = PeerId i"
proof -
  note out = request_vote_outcome [OF rv]
  have inv: "leader_inv le'" "le_local_peer_id le' = n"
    using leader_inv_request [of le t i] leader_exec_local(1) [of "OpRequestVote t i" le] ok rv
    by (simp_all add: node_ok_def)
  have old: "u \<le> t' \<and> (u = t' \<longrightarrow> voted_for (le_state le') = Some y)" if "(u, n, y) \<in> B" for u y
  proof -
    from that ok have u: "u \<le> current_term (le_state le)"
      and v: "u = current_term (le_state le) \<Longrightarrow> voted_for (le_state le) = Some y"
      unfolding node_ok_def by blast+
    show ?thesis
      using u v out(4) out(5) [of y] by (metis order_antisym order_trans)
  qed
  show agree: "granted \<Longrightarrow> (t', n, x) \<in> B \<Longrightarrow> x = PeerId i"
    using old [of t' x] out(2) by auto
  have sub: "B \<subseteq> B'" by (simp add: B')
  have new: "(u, n, y) \<in> B' \<Longrightarrow> u \<le> t' \<and> (u = t' \<longrightarrow> voted_for (le_state le') = Some y)" for u y
    using old [of u y] out(2) by (auto simp: B' split: if_splits)
  show "node_ok P B' n le'"
    unfolding node_ok_def out(1) [symmetric]
    using inv new out(6) ok sub quorum_mono [OF _ sub] by (auto simp: node_ok_def)
qed

lemma node_ok_counted:
  assumes ok: "node_ok P B n le" and vr: "handle_vote_response t v granted k le = (won, le')"
    and P: "3 \<le> card P" "card P \<le> Suc k" "ballots_ok P B" and g: "granted \<Longrightarrow> (t, PeerId v, n) \<in> B"
    and count: "t = current_term (le_state le)" "role (le_state le) = Candidate" and inv: "leader_inv le'" "le_local_peer_id le' = n"
  shows "node_ok P B n le'"
proof -
  let ?st = "le_state le"
  let ?votes = "if granted then insert (PeerId v) (votes_received ?st) else votes_received ?st"
  have backed: "\<forall>w \<in> ?votes. (current_term ?st, w, n) \<in> B"
    using ok count g by (auto simp: node_ok_def)
  have kept: "current_term (le_state le') = current_term ?st" "voted_for (le_state le') = voted_for ?st"
    using vr count by (auto simp: handle_vote_response_def Let_def become_leader_inner_def notify_leader_change_def
        split: if_splits)
  have leads: "role (le_state le') = Leader \<Longrightarrow> majority_threshold (1 + k) \<le> card ?votes"
    and stays: "role (le_state le') = Candidate \<Longrightarrow> votes_received (le_state le') = ?votes"
    using vr count by (auto simp: handle_vote_response_def Let_def become_leader_inner_def notify_leader_change_def
        split: if_splits)
  have "quorum_for P B (current_term ?st) n" if "role (le_state le') = Leader"
  proof -
    from backed P(3) have "?votes \<subseteq> P" unfolding ballots_ok_def by blast
    with backed majority_is_quorum [OF P(1,2) leads [OF that]] show ?thesis
      unfolding quorum_for_def by blast
  qed
  then show ?thesis
    using ok inv kept backed stays by (auto simp: node_ok_def)
qed

lemma node_ok_response:
  assumes ok: "node_ok P B n le" and vr: "handle_vote_response t v granted k le = (won, le')"
    and P: "3 \<le> card P" "card P \<le> Suc k" "ballots_ok P B" and g: "granted \<Longrightarrow> (t, PeerId v, n) \<in> B"
  shows "node_ok P B n le'"
proof -
  let ?st = "le_state le"
  have inv: "leader_inv le'" "le_local_peer_id le' = n"
    using leader_inv_response [of le t v granted k] leader_exec_local(1) [of "OpVoteResponse t v granted k" le] ok vr
    by (simp_all add: node_ok_def)
  consider (higher) "t > current_term ?st" | (ignored) "\<not> t > current_term ?st" "role ?st \<noteq> Candidate \<or> t \<noteq> current_term ?st"
    | (count) "t = current_term ?st" "role ?st = Candidate"
    by auto
  then show ?thesis
  proof cases
    case higher
    with vr have "le' = le\<lparr>le_state := ?st\<lparr>current_term := t, voted_for := None, role := Follower, votes_received := {}\<rparr>\<rparr>"
      by (auto simp: handle_vote_response_def Let_def)
    with ok inv higher show ?thesis by (fastforce simp: node_ok_def)
  next
    case ignored
    with vr ok show ?thesis by (auto simp: handle_vote_response_def Let_def)
  next
    case count
    show ?thesis by (rule node_ok_counted [OF ok vr P g count inv])
  qed
qed

text \<open>Steps that cast no ballot: the vote of the current term stays, a leader is never made.\<close>

lemma node_ok_quiet:
  assumes ok: "node_ok P B n le" and inv: "leader_inv le'" "le_local_peer_id le' = n"
    and t: "current_term (le_state le) \<le> current_term (le_state le')"
    and v: "current_term (le_state le') = current_term (le_state le) \<Longrightarrow> voted_for (le_state le') = voted_for (le_state le)"
    and r: "role (le_state le') = Follower \<or> role (le_state le') = role (le_state le)
              \<and> votes_received (le_state le') = votes_received (le_state le)
              \<and> current_term (le_state le') = current_term (le_state le)"
  shows "node_ok P B n le'"
proof -
  have "u \<le> current_term (le_state le') \<and> (u = current_term (le_state le') \<longrightarrow> voted_for (le_state le') = Some y)"
    if "(u, n, y) \<in> B" for u y
  proof -
    from that ok have "u \<le> current_term (le_state le)"
      and "u = current_term (le_state le) \<Longrightarrow> voted_for (le_state le) = Some y"
      unfolding node_ok_def by blast+
    with t v show ?thesis by (metis order_antisym order_trans)
  qed
  with ok inv r show ?thesis by (auto simp: node_ok_def)
qed

definition quiet :: "ElectionState \<Rightarrow> ElectionState \<Rightarrow> bool" where
  "quiet st st' \<longleftrightarrow>
     current_term st \<le> current_term st'
   \<and> (current_term st' = current_term st \<longrightarrow> voted_for st' = voted_for st)
   \<and> (role st' = Follower \<or> role st' = role st \<and> votes_received st' = votes_received st
                          \<and> current_term st' = current_term st)"

text \<open>
  A heartbeat that reaches a leader with a higher term makes it step down, so no node leads a
  term it has not won.
\<close>

lemma quiet_heartbeat: "quiet (le_state le) (le_state (snd (handle_heartbeat t i le)))"
  by (cases "current_term (le_state le)" t rule: linorder_cases)
     (simp_all add: quiet_def handle_heartbeat_def Let_def step_down_inner_def notify_leader_change_def
       less_imp_le less_imp_neq [THEN not_sym])

lemma quiet_left: "quiet (le_state le) (le_state (handle_peer_left p le))"
  by (simp add: quiet_def handle_peer_left_def Let_def notify_leader_change_def split: ManualOverrideRecovery.split)

lemma quiet_auto: "quiet (le_state le) (le_state (enable_auto_election b le))"
  by (simp add: quiet_def enable_auto_election_def Let_def)

lemma node_ok_exec:
  assumes "node_ok P B n le" "quiet (le_state le) (le_state (leader_exec op le))" "op \<noteq> OpPeerLeft n"
  shows "node_ok P B n (leader_exec op le)"
  using assms(1)
proof (rule node_ok_quiet)
  show "leader_inv (leader_exec op le)" "le_local_peer_id (leader_exec op le) = n"
    using assms by (auto simp: node_ok_def leader_inv_exec)
qed (use assms(2) in \<open>simp_all add: quiet_def\<close>)

lemmas node_ok_heartbeat = node_ok_exec [where op = "OpHeartbeat t i" for t i, simplified, OF _ quiet_heartbeat]
lemmas node_ok_left = node_ok_exec [where op = "OpPeerLeft p" for p, simplified, OF _ quiet_left]
lemmas node_ok_auto = node_ok_exec [where op = "OpEnableAuto b" for b, simplified, OF _ quiet_auto]

section \<open>Every step keeps the invariant\<close>

lemma cluster_invI:
  assumes "cluster_inv P c" "node_ok P B' n le" "ballots_ok P B'" "soup_ok B' S'"
    and "ballots c \<subseteq> B'" "\<And>m t x. m \<noteq> n \<Longrightarrow> (t, m, x) \<in> B' \<Longrightarrow> (t, m, x) \<in> ballots c"
  shows "cluster_inv P (put_node n le c\<lparr>soup := S', ballots := B'\<rparr>)"
proof -
  have "node_ok P B' m (nodes c m)" if "m \<in> P" "m \<noteq> n" for m
    using assms(1) that(1) by (intro node_ok_mono [OF _ assms(5) assms(6) [OF that(2)]]) (auto simp: cluster_inv_def)
  with assms(2-4) show ?thesis by (auto simp: cluster_inv_def)
qed

lemma soup_ok_mono: "soup_ok B S \<Longrightarrow> B \<subseteq> B' \<Longrightarrow> soup_ok B' S"
  unfolding soup_ok_def by blast

lemma soup_ok_Un [simp]: "soup_ok B (S \<union> T) \<longleftrightarrow> soup_ok B S \<and> soup_ok B T"
  by (auto simp: soup_ok_def)

lemma soup_ok_quiet [simp]:
  "soup_ok B (beat le)" "soup_ok B {MReq t i}" "soup_ok B {}" "soup_ok B (case r of None \<Rightarrow> {} | Some (t, i) \<Rightarrow> {MReq t i})"
  by (auto simp: soup_ok_def beat_def split: option.splits)

text \<open>The voting node's own record vouches for a ballot cast in its current term.\<close>

lemma ballots_ok_vote:
  assumes "ballots_ok P B" "node_ok P B' n le" "n \<in> P"
    and "B' = B \<union> (if q then {(current_term (le_state le), n, x)} else {})"
  shows "ballots_ok P B'"
proof -
  have "y = z" if "(current_term (le_state le), n, y) \<in> B'" "(current_term (le_state le), n, z) \<in> B'" for y z
    using assms(2) that unfolding node_ok_def by (metis option.inject)
  then show ?thesis
    using assms(1,3,4) unfolding ballots_ok_def by (auto split: if_splits)
qed

lemma cluster_inv_timeout:
  assumes "cluster_inv P c" "3 \<le> card P" "n \<in> P" "term_of c n \<noteq> - 1" "card P \<le> Suc k"
  shows "cluster_inv P (on_timeout n k c)"
proof -
  obtain req le where st: "start_election k (nodes c n) = (req, le)" by fastforce
  let ?B = "ballots c \<union> (if current_term (le_state le) = term_of c n then {} else {(current_term (le_state le), n, n)})"
  have ok: "node_ok P (ballots c) n (nodes c n)" using assms(1) assms(3) by (simp add: cluster_inv_def)
  have new: "node_ok P ?B n le"
    using assms(4) by (intro node_ok_start [OF ok _ assms(2,5) st]) (simp_all add: term_of_def)
  have "ballots_ok P ?B"
    using assms(1) assms(3)
    by (intro ballots_ok_vote [OF _ new, of "ballots c" "current_term (le_state le) \<noteq> term_of c n" n])
       (simp_all add: cluster_inv_def)
  then have "cluster_inv P (put_node n le c\<lparr>soup := soup c \<union> (case req of None \<Rightarrow> {} | Some (t, i) \<Rightarrow> {MReq t i})
      \<union> beat le, ballots := ?B\<rparr>)"
    using assms(1) new
    by (intro cluster_invI) (auto simp: cluster_inv_def intro: soup_ok_mono split: if_splits)
  then show ?thesis by (simp only: on_timeout_def st prod.case)
qed

lemma cluster_inv_request:
  assumes "cluster_inv P c" "n \<in> P"
  shows "cluster_inv P (on_request n t i c)"
proof -
  obtain t' granted le where rv: "handle_request_vote t i (nodes c n) = ((t', granted), le)"
    by (metis surj_pair)
  let ?B = "ballots c \<union> (if granted then {(t', n, PeerId i)} else {})"
  have ok: "node_ok P (ballots c) n (nodes c n)" using assms(1) assms(2) by (simp add: cluster_inv_def)
  have new: "node_ok P ?B n le" by (rule node_ok_request(1) [OF ok rv refl])
  have "t' = current_term (le_state le)" by (rule request_vote_outcome(1) [OF rv])
  then have "ballots_ok P ?B"
    using assms(1) assms(2)
    by (intro ballots_ok_vote [OF _ new, of "ballots c" granted "PeerId i"]) (simp_all add: cluster_inv_def)
  moreover have "soup_ok ?B (insert (MResp (PeerId i) t' (as_str n) granted) (soup c))"
    using assms(1) by (auto simp: cluster_inv_def soup_ok_def)
  ultimately have "cluster_inv P (put_node n le c\<lparr>soup := insert (MResp (PeerId i) t' (as_str n) granted) (soup c),
      ballots := ?B\<rparr>)"
    using assms(1) new by (intro cluster_invI) (auto split: if_splits)
  then show ?thesis by (simp only: on_request_def rv prod.case)
qed

lemma cluster_inv_response:
  assumes "cluster_inv P c" "3 \<le> card P" "n \<in> P" "MResp n t v granted \<in> soup c" "card P \<le> Suc k"
  shows "cluster_inv P (on_response n t v granted k c)"
proof -
  obtain won le where vr: "handle_vote_response t v granted k (nodes c n) = (won, le)" by fastforce
  have "node_ok P (ballots c) n le"
    using assms by (intro node_ok_response [OF _ vr]) (auto simp: cluster_inv_def soup_ok_def)
  then show ?thesis
    using assms(1) by (auto simp: on_response_def vr cluster_inv_def)
qed

lemma cluster_inv_step:
  "cluster_step P c c' \<Longrightarrow> cluster_inv P c \<Longrightarrow> 3 \<le> card P \<Longrightarrow> cluster_inv P c'"
  by (induction rule: cluster_step.induct)
     (simp_all add: cluster_inv_timeout cluster_inv_request cluster_inv_response,
      simp_all add: cluster_inv_def node_ok_heartbeat node_ok_left node_ok_auto)

lemma cluster_inv_init: "cluster_inv P (cluster_init auto rec)"
  by (simp add: cluster_inv_def cluster_init_def node_ok_def leader_inv_new ballots_ok_def soup_ok_def
        leader_election_new_def [THEN arg_cong [where f = le_state]])
     (simp add: leader_election_new_def)

lemma cluster_reachable_inv:
  "cluster_reachable P c \<Longrightarrow> 3 \<le> card P \<Longrightarrow> cluster_inv P c"
  by (induction rule: cluster_reachable.induct) (auto intro: cluster_inv_init cluster_inv_step)


lemmas trio_run = trio_start_def on_timeout_def cluster_init_def leader_election_new_def term_of_def beat_def
  start_election_def Let_def majority_threshold_def become_leader_inner_def notify_leader_change_def
  le_is_leader_def le_current_term_def

lemma trio_card [simp]: "card trio = 3" "finite trio"
  by (simp_all add: trio_def)

lemma trio_reachable: "cluster_reachable trio trio_won"
proof -
  have "cluster_reachable trio trio_start"
    unfolding trio_start_def
    by (rule cluster_reachable.step [OF cluster_reachable.init cluster_step.timeout])
       (simp_all add: trio_def term_of_def cluster_init_def leader_election_new_def)
  then have "cluster_reachable trio trio_voted"
    unfolding trio_voted_def
    by (rule cluster_reachable.step [OF _ cluster_step.request]) (simp_all add: trio_def trio_run)
  then show ?thesis
    unfolding trio_won_def
    by (rule cluster_reachable.step [OF _ cluster_step.response])
       (simp_all add: trio_def trio_voted_def on_request_def handle_request_vote_def trio_run)
qed


text \<open>
  One vote per term. Along any run of election steps of one node (manual assignment excluded) the term never falls, and
  if the node has a vote on record at two moments of the same term it is the same vote.
\<close>

theorem one_vote_in_a_term:
  assumes "election_step\<^sup>*\<^sup>* le le'"
  shows "current_term (le_state le) \<le> current_term (le_state le')
   \<and> (current_term (le_state le) = current_term (le_state le') \<longrightarrow> voted_for (le_state le) = Some x \<longrightarrow>
      voted_for (le_state le') = Some y \<longrightarrow> x = y)"
  using node_votes.run_keeps_vote [OF assms, of x] node_votes.one_vote_per_term [OF assms, of x y] by blast

theorem one_vote_in_a_term_witness:
  "let le = leader_exec (OpRequestVote 1 ''b'') (leader_election_new peer_a True Hold);
       le' = leader_exec (OpRequestVote 1 ''c'') le in
   voted_for (le_state le') = Some peer_b \<and> current_term (le_state le') = 1"
proof -
  let ?le = "leader_exec (OpRequestVote 1 ''b'') (leader_election_new peer_a True Hold)"
  let ?le' = "leader_exec (OpRequestVote 1 ''c'') ?le"
  have le: "voted_for (le_state ?le) = Some peer_b" "current_term (le_state ?le) = 1"
    and le': "current_term (le_state ?le') = 1" "\<exists>y. voted_for (le_state ?le') = Some y"
    by (simp_all add: handle_request_vote_def leader_election_new_def Let_def peer_b_def)
  have "election_step ?le ?le'" unfolding election_step_def using le(2) by force
  then have "election_step\<^sup>*\<^sup>* ?le ?le'" by blast
  from one_vote_in_a_term [OF this, of peer_b] le le' show ?thesis by (auto simp: Let_def)
qed

text \<open>
  With two nodes a majority is one vote: both nodes may lead the same term. Two nodes that start an
  election at the same time, each connected to the other, are both leader of term 1 before any message is delivered.
\<close>

theorem two_nodes_both_lead:
  "\<exists>c. (cluster_step {peer_a, peer_b})\<^sup>*\<^sup>* (cluster_init (\<lambda>_. True) rec) c
     \<and> role_of c peer_a = Leader \<and> role_of c peer_b = Leader \<and> term_of c peer_a = 1 \<and> term_of c peer_b = 1"
proof -
  let ?c0 = "cluster_init (\<lambda>_. True) rec"
  let ?c1 = "on_timeout peer_a 1 ?c0"
  let ?c2 = "on_timeout peer_b 1 ?c1"
  have ab: "peer_a \<noteq> peer_b" by (simp add: peer_a_def peer_b_def)
  have "cluster_step {peer_a, peer_b} ?c0 ?c1"
    by (rule cluster_step.timeout) (simp_all add: ab term_of_def cluster_init_def leader_election_new_def)
  moreover have "cluster_step {peer_a, peer_b} ?c1 ?c2"
    using ab by (intro cluster_step.timeout) (simp_all add: trio_run)
  moreover have "role_of ?c2 peer_a = Leader" "role_of ?c2 peer_b = Leader" "term_of ?c2 peer_a = 1" "term_of ?c2 peer_b = 1"
    using ab by (simp_all add: trio_run role_of_def)
  ultimately show ?thesis by (meson rtranclp.rtrancl_into_rtrancl rtranclp.rtrancl_refl)
qed

end
