(* ===== verification/System.thy ===== *)
theory System
  imports Wire_Logic Cluster
begin

text \<open>
  Several complete nodes. Each node has its state and its unfinished tasks; a step starts a task or runs one critical section of one task of one node. A message handler is started for a packet that
  another node has put on a queue that leads here, under that node's name; packets may be delivered late, repeatedly, out of order or never. The election
  that \<open>Cluster\<close> shows to be safe for single operations is shown here to be safe for the whole program.
\<close>

section \<open>Definitions\<close>

record system =
  sys_node :: "PeerId \<Rightarrow> NetworkState"
  sys_tasks :: "PeerId \<Rightarrow> task list"

definition sys_start :: "PeerId set \<Rightarrow> system \<Rightarrow> bool" where
  "sys_start P s \<longleftrightarrow> (\<forall>n \<in> P. sys_tasks s n = []
     \<and> (\<exists>session cfg bound d h c r. node_new (as_str n) session cfg bound d h c r = Inr (sys_node s n)))"

definition handshake_notice :: "ext \<Rightarrow> RawPacket \<Rightarrow> bool" where
  "handshake_notice x p \<longleftrightarrow> is_internal p \<and> (case decode_internal x p of Inr (Handshake _ _ _ _) \<Rightarrow> True | Inr (HandshakeAck _ _ _ _) \<Rightarrow> True | _ \<Rightarrow> False)"

inductive starts :: "ext \<Rightarrow> PeerId set \<Rightarrow> system \<Rightarrow> PeerId \<Rightarrow> task \<Rightarrow> bool" for x P s n where
  deliver: "a \<in> P \<Longrightarrow> (tx, p) \<in> set (tm_sent (ns_transport (sys_node s a))) \<Longrightarrow> serves (ns_transport (sys_node s a)) tx n \<Longrightarrow>
    ne_ext env = x \<Longrightarrow> starts x P s n (handle_message_task env n mx a p)"
| notice: "handshake_notice x p \<Longrightarrow> ne_ext env = x \<Longrightarrow> starts x P s n (handle_message_task env n mx q p)"
| own: "own_op x n op \<Longrightarrow> starts x P s n (node_task n mx op)"
| route: "ne_ext env = x \<Longrightarrow> starts x P s n (route_task env n mx target mt data flags)"
| from_leader: "ne_ext env = x \<Longrightarrow> starts x P s n (send_from_leader_task env mx mt data flags)"
| forward: "ne_ext env = x \<Longrightarrow> starts x P s n (forward_task env mx from_peer fwd mt flags data Done)"

text \<open>
  The premise of \<open>count\<close> says that a node that counts its peers for an election sees at least all other members as connected.
\<close>

inductive sys_step :: "ext \<Rightarrow> PeerId set \<Rightarrow> system \<Rightarrow> system \<Rightarrow> bool" for x P where
  start: "n \<in> P \<Longrightarrow> starts x P s n t \<Longrightarrow> sys_step x P s (s\<lparr>sys_tasks := (sys_tasks s)(n := sys_tasks s n @ [t])\<rparr>)"
| advance: "n \<in> P \<Longrightarrow> i < length (sys_tasks s n) \<Longrightarrow> sys_tasks s n ! i = Sec u k \<Longrightarrow> le_current_term (ns_leader (sys_node s n)) \<noteq> - 1 \<Longrightarrow>
    sys_step x P s (s\<lparr>sys_node := (sys_node s)(n := u (sys_node s n)), sys_tasks := (sys_tasks s)(n := (sys_tasks s n)[i := k (sys_node s n)])\<rparr>)"
| count: "n \<in> P \<Longrightarrow> i < length (sys_tasks s n) \<Longrightarrow> sys_tasks s n ! i = Count k \<Longrightarrow>
    c = get_connected_peer_count (ns_membership (sys_node s n)) \<Longrightarrow> card P \<le> Suc c \<Longrightarrow>
    sys_step x P s (s\<lparr>sys_tasks := (sys_tasks s)(n := (sys_tasks s n)[i := k c])\<rparr>)"

section \<open>What the election relies on\<close>

text \<open>
  What a packet from \<open>n\<close> to \<open>q\<close> may say, given the ballots cast so far: a granted vote is a ballot for the addressee, a vote request names its sender, and no leader is assigned.
\<close>

fun msg_ok :: "(u64 \<times> PeerId \<times> PeerId) set \<Rightarrow> PeerId \<Rightarrow> PeerId \<Rightarrow> InternalMessage \<Rightarrow> bool" where
  "msg_ok B n q (VoteResponse t v granted) \<longleftrightarrow> (granted \<longrightarrow> (t, PeerId v, q) \<in> B)"
| "msg_ok B n q (RequestVote t i) \<longleftrightarrow> PeerId i = n"
| "msg_ok B n q (LeaderAssign t l a) \<longleftrightarrow> False"
| "msg_ok B n q _ \<longleftrightarrow> True"

definition packet_ok :: "ext \<Rightarrow> (u64 \<times> PeerId \<times> PeerId) set \<Rightarrow> PeerId \<Rightarrow> PeerId \<Rightarrow> RawPacket \<Rightarrow> bool" where
  "packet_ok x B n q p \<longleftrightarrow> (is_internal p \<longrightarrow> (\<forall>m. decode_internal x p = Inr m \<longrightarrow> msg_ok B n q m))"

abbreviation lawful_state :: "ext \<Rightarrow> PeerId set \<Rightarrow> PeerId \<Rightarrow> (u64 \<times> PeerId \<times> PeerId) set \<Rightarrow> NetworkState \<Rightarrow> bool" where
  "lawful_state x P n \<equiv> fits (\<lambda>B le cb. node_ok P B n le) (\<lambda>B. packet_ok x B n)"

definition grows :: "PeerId set \<Rightarrow> (u64 \<times> PeerId \<times> PeerId) set \<Rightarrow> (u64 \<times> PeerId \<times> PeerId) set \<Rightarrow> bool" where
  "grows P B B' \<longleftrightarrow> B \<subseteq> B' \<and> ballots_ok P B'"

definition own_ballots :: "PeerId set \<Rightarrow> PeerId \<Rightarrow> (u64 \<times> PeerId \<times> PeerId) set \<Rightarrow> (u64 \<times> PeerId \<times> PeerId) set \<Rightarrow> bool" where
  "own_ballots P n B B' \<longleftrightarrow> grows P B B' \<and> (\<forall>t m y. m \<noteq> n \<longrightarrow> (t, m, y) \<in> B' \<longrightarrow> (t, m, y) \<in> B)"

lemma packet_ok_mono: "packet_ok x B n q p \<Longrightarrow> B \<subseteq> B' \<Longrightarrow> packet_ok x B' n q p"
proof -
  have "msg_ok B n q m \<Longrightarrow> B \<subseteq> B' \<Longrightarrow> msg_ok B' n q m" for m by (cases m) auto
  then show "packet_ok x B n q p \<Longrightarrow> B \<subseteq> B' \<Longrightarrow> packet_ok x B' n q p" unfolding packet_ok_def by blast
qed

lemma routine_ok: "routine m \<Longrightarrow> msg_ok B n q m"
  by (cases m) auto

lemma encoded_ok: "postcard_laws x \<Longrightarrow> encode_internal x m mx = Inr p \<Longrightarrow> msg_ok B n q m \<Longrightarrow> packet_ok x B n q p"
  by (auto simp: packet_ok_def dest: decode_encode_internal)

lemma user_packet_ok: "encode_packet x mt d f t mx = Inr p \<Longrightarrow> packet_ok x B n q p"
  by (auto simp: packet_ok_def dest: encode_packet_type)

lemma node_ok_notified: "node_ok P B n (le\<lparr>le_notified := l\<rparr>) \<longleftrightarrow> node_ok P B n le"
  by (simp add: node_ok_def leader_inv_def)

interpretation election: wire_logic "grows P" "own_ballots P n" "\<lambda>B le cb. node_ok P B n le" "\<lambda>B. packet_ok x B n"
  "\<lambda>ns. node_at n ns \<and> le_current_term (ns_leader ns) \<noteq> - 1" "\<lambda>k. card P \<le> Suc k" n x "\<lambda>B. msg_ok B n" for x P n
  by unfold_locales
     (auto simp: grows_def own_ballots_def node_ok_notified routine_ok
       intro: packet_ok_mono encoded_ok node_ok_heartbeat node_ok_left node_ok_auto)

section \<open>Every task is lawful\<close>

definition lawful :: "ext \<Rightarrow> PeerId set \<Rightarrow> PeerId \<Rightarrow> (u64 \<times> PeerId \<times> PeerId) set \<Rightarrow> task \<Rightarrow> bool" where
  "lawful x P n B t \<longleftrightarrow> election.safe P n x t B"

lemma lawful_Sec:
  assumes "\<And>B' ns. grows P B B' \<Longrightarrow> lawful_state x P n B' ns \<Longrightarrow> node_at n ns \<Longrightarrow> le_current_term (ns_leader ns) \<noteq> - 1 \<Longrightarrow>
    \<exists>B''. own_ballots P n B' B'' \<and> lawful_state x P n B'' (u ns) \<and> lawful x P n B'' (k ns)"
  shows "lawful x P n B (Sec u k)"
  using assms unfolding lawful_def by auto

lemma lawful_Done [simp]: "lawful x P n B Done" and lawful_Count: "(\<And>k. card P \<le> Suc k \<Longrightarrow> lawful x P n B (f k)) \<Longrightarrow> lawful x P n B (Count f)"
  by (simp_all add: lawful_def)

lemmas lawful_mono = election.safe_fut [folded lawful_def]
lemmas lawful_look = election.safe_look [folded lawful_def]
lemmas lawful_leader = election.safe_leader [folded lawful_def]
lemmas lawful_received = election.safe_received [folded lawful_def]
lemmas lawful_reply = election.safe_reply [folded lawful_def]
lemmas lawful_announce = election.safe_announce [folded lawful_def]
lemmas lawful_beat = election.safe_beat [folded lawful_def]
lemmas lawful_forward = election.safe_forward [folded lawful_def, OF _ _ user_packet_ok]
lemmas lawful_from_leader = election.safe_from_leader [folded lawful_def, OF _ user_packet_ok]
lemmas lawful_route = election.safe_route [folded lawful_def, OF _ _ user_packet_ok]
lemmas lawful_routine = election.safe_handle_internal [folded lawful_def]
lemmas lawful_own = election.safe_own [folded lawful_def]

lemma lawful_forwarded: "ne_ext env = x \<Longrightarrow> lawful x P n B (forwarded_task env mx from_id mt flags data)"
  unfolding forwarded_task_def Let_def by (auto intro!: lawful_look lawful_forward lawful_received)

text \<open>The sections that cast or count a ballot.\<close>

lemma lawful_request:
  assumes x: "postcard_laws x" "ne_ext env = x" and n: "n \<in> P"
  shows "lawful x P n B (on_leader (handle_request_vote t c) (\<lambda>(t', g). reply_task env mx (PeerId c) (VoteResponse t' (as_str n) g)))"
proof (rule lawful_Sec)
  fix B' ns
  assume B': "grows P B B'" and ok: "lawful_state x P n B' ns"
  obtain t' g le where rv: "handle_request_vote t c (ns_leader ns) = ((t', g), le)" by (metis surj_pair)
  let ?B = "B' \<union> (if g then {(t', n, PeerId c)} else {})"
  have le: "node_ok P ?B n le" using ok by (intro node_ok_request(1) [OF _ rv refl]) (simp add: fits_def)
  have "t' = current_term (le_state le)" by (rule request_vote_outcome(1) [OF rv])
  then have "ballots_ok P ?B"
    using B' n by (intro ballots_ok_vote [OF _ le, of B' g "PeerId c"]) (simp_all add: grows_def)
  then have "own_ballots P n B' ?B" by (auto simp: own_ballots_def grows_def)
  moreover have "lawful_state x P n ?B (ns\<lparr>ns_leader := le\<rparr>)"
    using ok le by (auto simp: fits_def intro: sent_fits_mono packet_ok_mono)
  moreover have "lawful x P n ?B (reply_task env mx (PeerId c) (VoteResponse t' (as_str n) g))"
    using x by (intro lawful_reply) auto
  ultimately show "\<exists>B''. own_ballots P n B' B'' \<and> lawful_state x P n B'' (ns\<lparr>ns_leader := snd (handle_request_vote t c (ns_leader ns))\<rparr>)
      \<and> lawful x P n B'' (case fst (handle_request_vote t c (ns_leader ns)) of (t', g) \<Rightarrow> reply_task env mx (PeerId c) (VoteResponse t' (as_str n) g))"
    unfolding rv by auto
qed

lemma lawful_response:
  assumes "postcard_laws x" "ne_ext env = x" "3 \<le> card P" "card P \<le> Suc k" "granted \<longrightarrow> (t, PeerId v, n) \<in> B"
  shows "lawful x P n B (on_leader (handle_vote_response t v granted k) (\<lambda>won. if won then beat_task env me mx 0 else Done))"
proof (rule lawful_leader)
  fix B' le
  assume B': "grows P B B'" and ok: "node_ok P B' n le"
  obtain won le' where vr: "handle_vote_response t v granted k le = (won, le')" by fastforce
  with ok assms(5) B' show "node_ok P B' n (snd (handle_vote_response t v granted k le))"
    using node_ok_response [OF ok vr assms(3,4)] by (auto simp: grows_def)
qed (simp add: lawful_beat assms)

lemma lawful_start:
  assumes x: "postcard_laws x" "ne_ext env = x" and P: "3 \<le> card P" "card P \<le> Suc k" "n \<in> P"
  shows "lawful x P n B (on_leader (start_election k) (\<lambda>req. case req of
     Some (trm, cand) \<Rightarrow> announce_task env mx (RequestVote trm cand) Done
   | None \<Rightarrow> look (\<lambda>ns. le_is_leader (ns_leader ns)) (\<lambda>leads. if leads then beat_task env me mx 0 else Done)))"
    (is "lawful x P n B (Sec ?u (\<lambda>ns. ?k (fst (start_election k (ns_leader ns)))))")
proof (rule lawful_Sec)
  fix B' ns
  assume B': "grows P B B'" and ok: "lawful_state x P n B' ns" and nw: "le_current_term (ns_leader ns) \<noteq> - 1"
  obtain req le where st: "start_election k (ns_leader ns) = (req, le)" by fastforce
  let ?new = "current_term (le_state le) \<noteq> current_term (le_state (ns_leader ns))"
  let ?B = "B' \<union> (if ?new then {(current_term (le_state le), n, n)} else {})"
  have le: "node_ok P ?B n le"
    using ok nw by (intro node_ok_start [OF _ _ P(1,2) st]) (auto simp: fits_def le_current_term_def)
  have "ballots_ok P ?B"
    using B' P(3) by (intro ballots_ok_vote [OF _ le, of B' ?new n]) (simp_all add: grows_def)
  then have "own_ballots P n B' ?B" by (auto simp: own_ballots_def grows_def)
  moreover have "lawful_state x P n ?B (?u ns)" using ok le st by (auto simp: fits_def intro: sent_fits_mono packet_ok_mono)
  moreover have "PeerId c = n" if "req = Some (t, c)" for t c
    using that st ok by (auto simp: start_election_def Let_def fits_def node_ok_def split: if_splits)
  then have "lawful x P n ?B (?k req)"
    using x by (auto intro!: lawful_announce lawful_look lawful_beat split: option.split)
  ultimately show "\<exists>B''. own_ballots P n B' B'' \<and> lawful_state x P n B'' (?u ns) \<and> lawful x P n B'' (?k (fst (start_election k (ns_leader ns))))"
    unfolding st by auto
qed

lemma lawful_handle_internal:
  assumes x: "postcard_laws x" "ne_ext env = x" and P: "3 \<le> card P" "n \<in> P" and m: "msg_ok B a n msg"
  shows "lawful x P n B (handle_internal_task env n mx a msg)"
proof (cases msg)
  case (RequestVote t c)
  with m lawful_request [OF x P(2), of B t c mx] show ?thesis by simp
next
  case (VoteResponse t v g)
  with m show ?thesis by (auto intro!: lawful_Count lawful_response x P)
next
  case (ForwardedUserData from_id mt flags data)
  with x show ?thesis by (simp add: lawful_forwarded)
qed (use m x lawful_routine [OF x, of msg] in auto)

lemma lawful_handle_message:
  assumes "postcard_laws x" "ne_ext env = x" "3 \<le> card P" "n \<in> P" "packet_ok x B a n p"
  shows "lawful x P n B (handle_message_task env n mx a p)"
  using assms unfolding handle_message_task_def packet_ok_def
  by (auto intro!: lawful_handle_internal lawful_received split: sum.split)

lemma lawful_node_task:
  assumes x: "postcard_laws x" and P: "3 \<le> card P" "n \<in> P" and op: "own_op x n op"
  shows "lawful x P n B (node_task n mx op)"
  using x op
proof (rule lawful_own)
  fix env
  assume "op = NElection env"
  with op x P show "lawful x P n B (election_task env n mx)" by (auto simp: election_task_def intro!: lawful_look lawful_Count lawful_start)
qed

text \<open>The tasks a node may start are lawful once what the other nodes have sent is.\<close>

lemma starts_lawful:
  assumes x: "postcard_laws x" and P: "3 \<le> card P" "n \<in> P" and t: "starts x P s n t"
    and sent: "\<And>a. a \<in> P \<Longrightarrow> sent_fits (packet_ok x B a) (ns_transport (sys_node s a))"
  shows "lawful x P n B t \<and> keeps n t"
  using t
proof (cases rule: starts.cases)
  case (deliver a tx p env mx)
  then have "packet_ok x B a n p" using sent unfolding sent_fits_def by blast
  with deliver x P show ?thesis by (simp add: lawful_handle_message keeps_handle_message)
next
  case (notice p env mx q)
  then have "msg_ok B q n m" if "decode_internal x p = Inr m" for m using that by (cases m) (simp_all add: handshake_notice_def)
  then have "packet_ok x B q n p" by (simp add: packet_ok_def)
  with notice x P show ?thesis by (simp add: lawful_handle_message keeps_handle_message)
next
  case (own op mx)
  have "foreign_op n op"
    using own(2) by (cases "(x, n, op)" rule: own_op.cases) auto
  with own x P show ?thesis by (simp add: lawful_node_task keeps_node_task)
qed (use x in \<open>simp_all add: lawful_route keeps_route lawful_from_leader keeps_from_leader lawful_forward keeps_forward\<close>)

definition sys_inv :: "ext \<Rightarrow> PeerId set \<Rightarrow> (u64 \<times> PeerId \<times> PeerId) set \<Rightarrow> system \<Rightarrow> bool" where
  "sys_inv x P B s \<longleftrightarrow> ballots_ok P B \<and> (\<forall>n \<in> P. node_at n (sys_node s n) \<and> lawful_state x P n B (sys_node s n)
     \<and> (\<forall>t \<in> set (sys_tasks s n). lawful x P n B t \<and> keeps n t))"

lemma node_new_transport:
  "node_new name session cfg bound d h c r = Inr ns \<Longrightarrow> wires_ok (ns_transport ns) \<and> tm_sent (ns_transport ns) = []"
  using wires_ok_new [of "PeerId name" session cfg bound "ns_transport ns"]
  by (auto simp: node_new_def Let_def transport_new_def split: sum.splits)

lemma sys_inv_start: "sys_start P s \<Longrightarrow> sys_inv x P {} s"
proof -
  assume s: "sys_start P s"
  have "node_at n (sys_node s n) \<and> lawful_state x P n {} (sys_node s n) \<and> sys_tasks s n = []" if n: "n \<in> P" for n
  proof -
    from s n obtain session cfg bound d h c r where new: "node_new (as_str n) session cfg bound d h c r = Inr (sys_node s n)"
      and t: "sys_tasks s n = []" unfolding sys_start_def by blast
    note f = node_new_fields [OF new]
    have "wires_ok (ns_transport (sys_node s n))" "tm_sent (ns_transport (sys_node s n)) = []"
      using node_new_transport [OF new] by simp_all
    then show ?thesis
      using f node_inv_new [OF new] t leader_inv_new
      by (simp add: node_at_def fits_def sent_fits_def node_ok_def) (simp add: leader_election_new_def)
  qed
  then show ?thesis by (simp add: sys_inv_def ballots_ok_def)
qed

text \<open>The step of one node: the others notice only that ballots may have been cast.\<close>

lemma lawful_state_others:
  "lawful_state x P m B ns \<Longrightarrow> own_ballots P n B B' \<Longrightarrow> m \<noteq> n \<Longrightarrow> lawful_state x P m B' ns"
  unfolding fits_def own_ballots_def grows_def by (meson node_ok_mono packet_ok_mono sent_fits_mono)

lemma sys_inv_put:
  assumes "sys_inv x P B s" "own_ballots P n B B'" "node_at n ns" "lawful_state x P n B' ns" "\<And>t. t \<in> set ts \<Longrightarrow> lawful x P n B' t \<and> keeps n t"
  shows "sys_inv x P B' (s\<lparr>sys_node := (sys_node s)(n := ns), sys_tasks := (sys_tasks s)(n := ts)\<rparr>)"
proof -
  have "grows P B B'" using assms(2) by (simp add: own_ballots_def)
  with assms show ?thesis
    unfolding sys_inv_def by (auto simp: grows_def intro: lawful_state_others lawful_mono [OF _ \<open>grows P B B'\<close>])
qed

lemma sys_inv_step: "sys_step x P s s' \<Longrightarrow> sys_inv x P B s \<Longrightarrow> postcard_laws x \<Longrightarrow> 3 \<le> card P \<Longrightarrow> \<exists>B'. sys_inv x P B' s'"
proof (induction rule: sys_step.induct)
  case (start n s t)
  have "sent_fits (packet_ok x B a) (ns_transport (sys_node s a))" if "a \<in> P" for a using start.prems(1) that by (simp add: sys_inv_def fits_def)
  then have "lawful x P n B t \<and> keeps n t" using start by (intro starts_lawful) auto
  with start.prems(1) have "sys_inv x P B (s\<lparr>sys_tasks := (sys_tasks s)(n := sys_tasks s n @ [t])\<rparr>)" by (auto simp: sys_inv_def)
  then show ?case by blast
next
  case (advance n i s u k)
  let ?ns = "sys_node s n" and ?ts = "sys_tasks s n"
  from advance.prems(1) advance.hyps(1) have n: "node_at n ?ns" "lawful_state x P n B ?ns" "ballots_ok P B"
    and ts: "\<And>t. t \<in> set ?ts \<Longrightarrow> lawful x P n B t" "\<forall>t \<in> set ?ts. keeps n t" by (auto simp: sys_inv_def)
  have "Sec u k \<in> set ?ts" using advance.hyps(2,3) nth_mem by metis
  then have "lawful x P n B (Sec u k)" by (rule ts(1))
  then obtain B' where B': "own_ballots P n B B'" "lawful_state x P n B' (u ?ns)" "\<And>t. t \<in> set (?ts[i := k ?ns]) \<Longrightarrow> lawful x P n B' t"
    using election.safe_section [of P n x u k B ?ns ?ts i] n advance.hyps(4) ts(1) unfolding lawful_def grows_def by blast
  have "node_at n (u ?ns) \<and> (\<forall>t \<in> set (?ts[i := k ?ns]). keeps n t)"
    using pool_step_keeps [OF pool_step.advance [OF advance.hyps(2,3)] n(1) ts(2)] .
  then show ?case using sys_inv_put [OF advance.prems(1) B'(1) _ B'(2)] B'(3) by blast
next
  case (count n i s k c)
  let ?ts = "sys_tasks s n"
  have "Count k \<in> set ?ts" using count.hyps(2,3) nth_mem by metis
  then have "lawful x P n B (Count k)" "keeps n (Count k)" using count.prems(1) count.hyps(1) by (auto simp: sys_inv_def)
  then have "lawful x P n B (k c) \<and> keeps n (k c)" using count.hyps(5) by (simp add: lawful_def keeps_def)
  then have "\<forall>t \<in> set (?ts[i := k c]). lawful x P n B t \<and> keeps n t"
    using count.prems(1) count.hyps(1) set_update_subset_insert [of ?ts i "k c"] by (auto simp: sys_inv_def)
  then have "sys_inv x P B (s\<lparr>sys_tasks := (sys_tasks s)(n := ?ts[i := k c])\<rparr>)"
    using count.prems(1) by (simp add: sys_inv_def)
  then show ?case by blast
qed

section \<open>Properties\<close>


text \<open>A task that is started and runs to its end without interruption, in states where its sections may run.\<close>

primrec runs :: "PeerId set \<Rightarrow> task \<Rightarrow> NetworkState \<Rightarrow> bool" where
  "runs P Done ns \<longleftrightarrow> True"
| "runs P (Sec u k) ns \<longleftrightarrow> le_current_term (ns_leader ns) \<noteq> - 1 \<and> runs P (k ns) (u ns)"
| "runs P (Count k) ns \<longleftrightarrow> card P \<le> Suc (get_connected_peer_count (ns_membership ns)) \<and> runs P (k (get_connected_peer_count (ns_membership ns))) ns"

lemma sys_run:
  "n \<in> P \<Longrightarrow> i < length (sys_tasks s n) \<Longrightarrow> sys_tasks s n ! i = t \<Longrightarrow> runs P t (sys_node s n) \<Longrightarrow>
     (sys_step x P)\<^sup>*\<^sup>* s (s\<lparr>sys_node := (sys_node s)(n := run t (sys_node s n)), sys_tasks := (sys_tasks s)(n := (sys_tasks s n)[i := Done])\<rparr>)"
proof (induction t arbitrary: s)
  case Done
  then have "s\<lparr>sys_node := (sys_node s)(n := run Done (sys_node s n)), sys_tasks := (sys_tasks s)(n := (sys_tasks s n)[i := Done])\<rparr> = s"
    by (simp add: list_update_same_conv [THEN iffD2])
  then show ?case by (simp only: rtranclp.rtrancl_refl)
next
  case (Sec u k)
  let ?s = "s\<lparr>sys_node := (sys_node s)(n := u (sys_node s n)), sys_tasks := (sys_tasks s)(n := (sys_tasks s n)[i := k (sys_node s n)])\<rparr>"
  have "sys_step x P s ?s" using Sec.prems by (intro sys_step.advance) simp_all
  with Sec.IH [of "k (sys_node s n)" ?s] Sec.prems show ?case by (simp add: converse_rtranclp_into_rtranclp cong: if_cong)
next
  case (Count k)
  let ?c = "get_connected_peer_count (ns_membership (sys_node s n))"
  let ?s = "s\<lparr>sys_tasks := (sys_tasks s)(n := (sys_tasks s n)[i := k ?c])\<rparr>"
  have "sys_step x P s ?s" using Count.prems by (intro sys_step.count [OF _ _ _ refl]) simp_all
  with Count.IH [of "k ?c" ?s] Count.prems show ?case by (simp add: converse_rtranclp_into_rtranclp cong: if_cong)
qed

definition sys_do :: "PeerId \<Rightarrow> task \<Rightarrow> system \<Rightarrow> system" where
  "sys_do n t s = s\<lparr>sys_node := (sys_node s)(n := run t (sys_node s n)), sys_tasks := (sys_tasks s)(n := sys_tasks s n @ [Done])\<rparr>"

lemma sys_do_steps: "n \<in> P \<Longrightarrow> starts x P s n t \<Longrightarrow> runs P t (sys_node s n) \<Longrightarrow> (sys_step x P)\<^sup>*\<^sup>* s (sys_do n t s)"
proof -
  assume n: "n \<in> P" "starts x P s n t" "runs P t (sys_node s n)"
  let ?s = "s\<lparr>sys_tasks := (sys_tasks s)(n := sys_tasks s n @ [t])\<rparr>"
  have "sys_step x P s ?s" using n(1,2) by (rule sys_step.start)
  moreover have "(sys_step x P)\<^sup>*\<^sup>* ?s (sys_do n t s)"
    using sys_run [of n P "length (sys_tasks s n)" ?s t x] n by (simp add: sys_do_def)
  ultimately show ?thesis by (rule converse_rtranclp_into_rtranclp)
qed

definition trio_ext :: ext where
  "trio_ext = table_ext [RequestVote 1 ''a'', VoteResponse 1 ''b'' True, Handshake ''b'' 0 1 ''s'', Handshake ''c'' 0 1 ''s'', Heartbeat 1 ''a'' 0]"

definition trio_env :: node_env where
  "trio_env = demo_env\<lparr>ne_ext := trio_ext\<rparr>"

definition trio_packet :: "u16 \<Rightarrow> u8 \<Rightarrow> RawPacket" where
  "trio_packet t i = \<lparr>pkt_type = t, pkt_flags = 0, pkt_payload = [i]\<rparr>"

definition trio_tasks :: "(PeerId \<times> task) list" where
  "trio_tasks =
     [(PeerId ''a'', node_task (PeerId ''a'') 262144 (NTransport (TRegister 0 (PeerId ''b'') (demo_addr 1)))),
      (PeerId ''a'', node_task (PeerId ''a'') 262144 (NTransport (TRegister 0 (PeerId ''c'') (demo_addr 2)))),
      (PeerId ''b'', node_task (PeerId ''b'') 262144 (NTransport (TRegister 0 (PeerId ''a'') (demo_addr 3)))),
      (PeerId ''a'', handle_message_task trio_env (PeerId ''a'') 262144 (PeerId ''b'') (trio_packet HANDSHAKE 2)),
      (PeerId ''a'', handle_message_task trio_env (PeerId ''a'') 262144 (PeerId ''c'') (trio_packet HANDSHAKE 3)),
      (PeerId ''a'', node_task (PeerId ''a'') 262144 (NElection trio_env)),
      (PeerId ''b'', handle_message_task trio_env (PeerId ''b'') 262144 (PeerId ''a'') (trio_packet REQUEST_VOTE 0)),
      (PeerId ''a'', handle_message_task trio_env (PeerId ''a'') 262144 (PeerId ''b'') (trio_packet VOTE_RESPONSE 1))]"

definition trio_node :: "string \<Rightarrow> NetworkState" where
  "trio_node name = (case node_new name ''s'' config_default (Inr (demo_addr 4000)) (Some ''no mDNS'') None (\<lambda>_. None) (\<lambda>_. None) of Inr ns \<Rightarrow> ns)"

definition trio_system :: "nat \<Rightarrow> system" where
  "trio_system k = fold (\<lambda>(n, t). sys_do n t) (take k trio_tasks) \<lparr>sys_node = (\<lambda>n. trio_node (as_str n)), sys_tasks = (\<lambda>_. [])\<rparr>"


lemmas trio_start_eval = trio_system_def trio_tasks_def sys_do_def trio_node_def node_new_def transport_new_def Let_def discovery_new_def register_connection_def spawn_def hm_insert_def
lemmas trio_message_eval = handle_message_task_def is_internal_def trio_packet_def decode_internal_def trio_env_def trio_ext_def table_ext_def demo_env_def
  HANDSHAKE_def REQUEST_VOTE_def VOTE_RESPONSE_def USER_MESSAGE_START_def
lemmas trio_join_eval = admit_task_def get_peer_addr_def with_member_def add_peer_def membership_new_def mm_emit_def hm_contains_def hm_get_def
lemmas trio_vote_eval = election_task_def start_election_def leader_election_new_def le_is_leader_def is_auto_election_enabled_def le_leader_id_def config_default_def
  get_connected_peer_count_def peer_info_new_def majority_threshold_def announce_task_def encoded_def encode_internal_def len_u32_def broadcast_task_def
  broadcast_targets_def channel_for_def try_send_def try_send_error_def handle_request_vote_def reply_task_def send_to_peer_def
lemmas trio_win_eval = handle_vote_response_def become_leader_inner_def notify_leader_change_def beat_task_def le_current_term_def current_timestamp_ms_def
lemmas trio_eval = trio_start_eval trio_message_eval trio_join_eval trio_vote_eval trio_win_eval

text \<open>Every task of the list may be started where it stands in it, and runs to its end.\<close>

lemma trio_starts:
  "starts trio_ext trio (trio_system 0) (PeerId ''a'') (snd (trio_tasks ! 0))" "starts trio_ext trio (trio_system 1) (PeerId ''a'') (snd (trio_tasks ! 1))"
  "starts trio_ext trio (trio_system 2) (PeerId ''b'') (snd (trio_tasks ! 2))" "starts trio_ext trio (trio_system 3) (PeerId ''a'') (snd (trio_tasks ! 3))"
  "starts trio_ext trio (trio_system 4) (PeerId ''a'') (snd (trio_tasks ! 4))" "starts trio_ext trio (trio_system 5) (PeerId ''a'') (snd (trio_tasks ! 5))"
  unfolding trio_tasks_def
  by (auto intro!: starts.own starts.notice simp del: node_task.simps simp: trio_env_def handshake_notice_def is_internal_def HANDSHAKE_def USER_MESSAGE_START_def decode_internal_def trio_packet_def trio_ext_def table_ext_def)

lemma trio_delivers:
  "starts trio_ext trio (trio_system 6) (PeerId ''b'') (snd (trio_tasks ! 6))" "starts trio_ext trio (trio_system 7) (PeerId ''a'') (snd (trio_tasks ! 7))"
proof -
  have "(0, trio_packet REQUEST_VOTE 0) \<in> set (tm_sent (ns_transport (sys_node (trio_system 6) (PeerId ''a''))))"
    "serves (ns_transport (sys_node (trio_system 6) (PeerId ''a''))) 0 (PeerId ''b'')"
    "(0, trio_packet VOTE_RESPONSE 1) \<in> set (tm_sent (ns_transport (sys_node (trio_system 7) (PeerId ''b''))))"
    "serves (ns_transport (sys_node (trio_system 7) (PeerId ''b''))) 0 (PeerId ''a'')"
    by (simp_all add: trio_eval serves_def)
  then show "starts trio_ext trio (trio_system 6) (PeerId ''b'') (snd (trio_tasks ! 6))" "starts trio_ext trio (trio_system 7) (PeerId ''a'') (snd (trio_tasks ! 7))"
    by (auto simp: trio_tasks_def trio_env_def trio_def intro!: starts.deliver)
qed

lemma trio_runs:
  "runs trio (snd (trio_tasks ! 0)) (sys_node (trio_system 0) (PeerId ''a''))" "runs trio (snd (trio_tasks ! 1)) (sys_node (trio_system 1) (PeerId ''a''))"
  "runs trio (snd (trio_tasks ! 2)) (sys_node (trio_system 2) (PeerId ''b''))" "runs trio (snd (trio_tasks ! 3)) (sys_node (trio_system 3) (PeerId ''a''))"
  "runs trio (snd (trio_tasks ! 4)) (sys_node (trio_system 4) (PeerId ''a''))" "runs trio (snd (trio_tasks ! 5)) (sys_node (trio_system 5) (PeerId ''a''))"
  "runs trio (snd (trio_tasks ! 6)) (sys_node (trio_system 6) (PeerId ''b''))" "runs trio (snd (trio_tasks ! 7)) (sys_node (trio_system 7) (PeerId ''a''))"
  by (simp_all add: trio_eval)

lemma trio_next: "k < 8 \<Longrightarrow> trio_system (Suc k) = sys_do (fst (trio_tasks ! k)) (snd (trio_tasks ! k)) (trio_system k)"
proof -
  assume "k < 8"
  then have "take (Suc k) trio_tasks = take k trio_tasks @ [trio_tasks ! k]" by (intro take_Suc_conv_app_nth) (simp add: trio_tasks_def)
  then show ?thesis by (simp add: trio_system_def case_prod_beta)
qed

lemma trio_steps: "k \<le> 8 \<Longrightarrow> (sys_step trio_ext trio)\<^sup>*\<^sup>* (trio_system 0) (trio_system k)"
proof (induction k)
  case (Suc k)
  let ?n = "fst (trio_tasks ! k)" and ?t = "snd (trio_tasks ! k)"
  from Suc.prems have "k \<in> {0, 1, 2, 3, 4, 5, 6, 7}" by auto
  then have n: "fst (trio_tasks ! k) \<in> trio \<and> starts trio_ext trio (trio_system k) ?n ?t \<and> runs trio ?t (sys_node (trio_system k) ?n)"
    by (elim insertE emptyE; hypsubst; insert trio_starts trio_delivers trio_runs; simp add: trio_tasks_def trio_def del: node_task.simps)
  then have "(sys_step trio_ext trio)\<^sup>*\<^sup>* (trio_system k) (trio_system (Suc k))"
    using sys_do_steps trio_next Suc.prems by simp
  with Suc show ?case by (meson Suc_leD rtranclp_trans)
qed simp

lemma trio_starts_fresh: "sys_start trio (trio_system 0)"
proof -
  have "\<exists>ns. node_new n ''s'' config_default (Inr (demo_addr 4000)) (Some ''no mDNS'') None (\<lambda>_. None) (\<lambda>_. None) = Inr ns" if "n \<in> {''a'', ''b'', ''c''}" for n
    using that by (auto simp: trio_start_eval split: prod.split)
  then have "node_new n ''s'' config_default (Inr (demo_addr 4000)) (Some ''no mDNS'') None (\<lambda>_. None) (\<lambda>_. None) = Inr (trio_node n)" if "n \<in> {''a'', ''b'', ''c''}" for n
    using that by (fastforce simp: trio_node_def)
  then show ?thesis unfolding sys_start_def trio_def trio_system_def by fastforce
qed

lemma trio_elected:
  "le_is_leader (ns_leader (sys_node (trio_system 8) (PeerId ''a'')))" "le_current_term (ns_leader (sys_node (trio_system 8) (PeerId ''a''))) = 1"
  by (simp_all add: trio_eval)


end
