(* ===== verification/Authenticity.thy ===== *)
theory Authenticity
  imports System
begin

text \<open>
  Where the messages a host program receives come from. The nodes of \<open>System\<close> run without any of the conditions an election needs: leaders may be chosen by hand, any number of peers
  may be connected, terms may wrap around, and the thread that makes the callbacks runs too. The run keeps a log of the messages the host programs hand over and of the packets
  whose handling was started. Every call of a receive callback is traced back through that log to the call that handed the message over.
\<close>

section \<open>Definitions\<close>

datatype net_event =
    Submit PeerId MessageTarget u16 u8 bytes
  | Handle PeerId PeerId RawPacket

text \<open>The tasks a node may start in a state, with what the log gains.\<close>

inductive launches :: "ext \<Rightarrow> PeerId set \<Rightarrow> system \<Rightarrow> PeerId \<Rightarrow> net_event list \<Rightarrow> task \<Rightarrow> bool" for x P s n where
  deliver: "a \<in> P \<Longrightarrow> (tx, p) \<in> set (tm_sent (ns_transport (sys_node s a))) \<Longrightarrow> serves (ns_transport (sys_node s a)) tx n \<Longrightarrow>
    ne_ext env = x \<Longrightarrow> launches x P s n [Handle n a p] (handle_message_task env n mx a p)"
| notice: "handshake_notice x p \<Longrightarrow> ne_ext env = x \<Longrightarrow> launches x P s n [] (handle_message_task env n mx q p)"
| own: "own_op x n op \<Longrightarrow> launches x P s n [] (node_task n mx op)"
| assign: "ne_ext env = x \<Longrightarrow> launches x P s n [] (set_leader_task env mx pid)"
| route: "ne_ext env = x \<Longrightarrow> launches x P s n [Submit n target mt flags data] (route_task env n mx target mt data flags)"
| from_leader: "ne_ext env = x \<Longrightarrow> launches x P s n [Submit n Broadcast mt flags data] (send_from_leader_task env mx mt data flags)"
| forward: "ne_ext env = x \<Longrightarrow> launches x P s n [Submit n (fwd_target fwd) mt flags data] (forward_task env mx from_peer fwd mt flags data Done)"

inductive net_step :: "ext \<Rightarrow> PeerId set \<Rightarrow> net_event list \<times> system \<Rightarrow> net_event list \<times> system \<Rightarrow> bool" for x P where
  start: "n \<in> P \<Longrightarrow> launches x P s n es t \<Longrightarrow> net_step x P (l, s) (l @ es, s\<lparr>sys_tasks := (sys_tasks s)(n := sys_tasks s n @ [t])\<rparr>)"
| advance: "n \<in> P \<Longrightarrow> i < length (sys_tasks s n) \<Longrightarrow> sys_tasks s n ! i = Sec u k \<Longrightarrow>
    net_step x P (l, s) (l, s\<lparr>sys_node := (sys_node s)(n := u (sys_node s n)), sys_tasks := (sys_tasks s)(n := (sys_tasks s n)[i := k (sys_node s n)])\<rparr>)"
| count: "n \<in> P \<Longrightarrow> i < length (sys_tasks s n) \<Longrightarrow> sys_tasks s n ! i = Count k \<Longrightarrow>
    net_step x P (l, s) (l, s\<lparr>sys_tasks := (sys_tasks s)(n := (sys_tasks s n)[i := k (get_connected_peer_count (ns_membership (sys_node s n)))])\<rparr>)"
| dispatch: "n \<in> P \<Longrightarrow> ns = sys_node s n \<Longrightarrow>
    net_step x P (l, s) (l, s\<lparr>sys_node := (sys_node s)(n := ns\<lparr>ns_callback := callback_step (ns_callback ns)\<rparr>)\<rparr>)"
| listen: "n \<in> P \<Longrightarrow> ns = sys_node s n \<Longrightarrow>
    net_step x P (l, s) (l, s\<lparr>sys_node := (sys_node s)(n := ns\<lparr>ns_callback := register_receive_callback cb (ns_callback ns)\<rparr>)\<rparr>)"

text \<open>
  A message with these user flags was handed over by the host of \<open>origin\<close>; \<open>leader\<close> handled a request to forward it for \<open>origin\<close>; \<open>a\<close> may hand it to \<open>n\<close>, because
  its own host addressed it so or because it forwards a broadcast.
\<close>

definition submitted :: "net_event list \<Rightarrow> PeerId \<Rightarrow> MessageTarget \<Rightarrow> u16 \<Rightarrow> u8 \<Rightarrow> bytes \<Rightarrow> bool" where
  "submitted l origin target mt flags data \<longleftrightarrow> (\<exists>f. Submit origin target mt f data \<in> set l \<and> f AND 0xFE = flags AND 0xFE)"

definition relayed :: "ext \<Rightarrow> net_event list \<Rightarrow> PeerId \<Rightarrow> PeerId \<Rightarrow> u16 \<Rightarrow> bytes \<Rightarrow> bool" where
  "relayed x l leader origin mt data \<longleftrightarrow> (\<exists>q p f. Handle leader q p \<in> set l \<and> decode_internal x p = Inr (ForwardedUserData (as_str origin) mt f data))"

definition vouched :: "ext \<Rightarrow> net_event list \<Rightarrow> PeerId \<Rightarrow> PeerId \<Rightarrow> u16 \<Rightarrow> u8 \<Rightarrow> bytes \<Rightarrow> bool" where
  "vouched x l a n mt flags data \<longleftrightarrow> (\<exists>origin target. submitted l origin target mt flags data \<and> reaches target n
     \<and> (origin = a \<or> target = Broadcast \<and> relayed x l a origin mt data))"

text \<open>What a node's messages, packets and callbacks may say.\<close>

fun honest :: "net_event list \<Rightarrow> InternalMessage \<Rightarrow> bool" where
  "honest l (ForwardedUserData from_id mt flags data) \<longleftrightarrow> flags AND 0x01 = 0 \<and> submitted l (PeerId from_id) Broadcast mt flags data"
| "honest l _ \<longleftrightarrow> True"

definition genuine :: "ext \<Rightarrow> net_event list \<Rightarrow> PeerId \<Rightarrow> PeerId \<Rightarrow> RawPacket \<Rightarrow> bool" where
  "genuine x l a n p \<longleftrightarrow>
     (if is_internal p then \<forall>m. decode_internal x p = Inr m \<longrightarrow> honest l m
      else \<forall>d. decode_payload x p = Inr d \<longrightarrow> vouched x l a n (pkt_type p) (pkt_flags p) d)"

definition heard :: "ext \<Rightarrow> PeerId \<Rightarrow> net_event list \<Rightarrow> CallbackManager \<Rightarrow> bool" where
  "heard x n l cb \<longleftrightarrow>
     (\<forall>name d mt f. Received name d mt f \<in> set (cb_queue cb) \<longrightarrow> vouched x l (PeerId name) n mt f d)
   \<and> (\<forall>c name d i mt f. CallReceive c name d i mt f \<in> set (cb_calls cb) \<longrightarrow> i = len_i32 d \<and> vouched x l (PeerId name) n mt f d)"

section \<open>Every task is honest\<close>

lemma vouched_mono: "vouched x l a n mt f d \<Longrightarrow> set l \<subseteq> set l' \<Longrightarrow> vouched x l' a n mt f d"
  unfolding vouched_def submitted_def relayed_def by blast

lemma honest_mono: "honest l m \<Longrightarrow> set l \<subseteq> set l' \<Longrightarrow> honest l' m"
  by (cases m) (auto simp: submitted_def)

lemma genuine_mono: "genuine x l a n p \<Longrightarrow> set l \<subseteq> set l' \<Longrightarrow> genuine x l' a n p"
  unfolding genuine_def using honest_mono vouched_mono by (metis (full_types))

lemma heard_mono: "heard x n l cb \<Longrightarrow> set l \<subseteq> set l' \<Longrightarrow> heard x n l' cb"
  unfolding heard_def by (blast intro: vouched_mono)

lemma heard_event: "(is_received e \<Longrightarrow> \<exists>name d mt f. e = Received name d mt f \<and> vouched x l (PeerId name) n mt f d) \<Longrightarrow>
    heard x n l cb \<Longrightarrow> heard x n l (send_event out e cb)"
  by (cases e) (auto simp: heard_def send_event_def)

lemma heard_dispatch: "heard x n l cb \<Longrightarrow> heard x n l (dispatch_event e (cb\<lparr>cb_queue := q\<rparr>))" if "cb_queue cb = e # q"
  using that by (cases e) (auto simp: heard_def call_for_def cstring_new_def split: option.splits bind_splits if_splits)

lemma heard_thread: "heard x n l cb \<Longrightarrow> heard x n l (callback_step cb)"
proof -
  have frame: "heard x n l (cb\<lparr>cb_thread := t\<rparr>) \<longleftrightarrow> heard x n l cb" for cb t by (simp add: heard_def)
  assume "heard x n l cb"
  then show ?thesis using heard_dispatch [of cb] by (simp add: callback_step_def frame split: thread_state.split list.split)
qed

interpretation delivery: wire_logic "\<lambda>l l'. set l \<subseteq> set l'" "(=)" "\<lambda>l le. heard x n l" "\<lambda>l. genuine x l n" "node_at n" "\<lambda>_. True" n x "\<lambda>l q. honest l" for x n
proof unfold_locales
  fix m and l :: "net_event list"
  show "routine m \<Longrightarrow> honest l m" by (cases m) auto
qed (auto simp: genuine_def dest: decode_encode_internal encode_internal_type intro: heard_event honest_mono vouched_mono)

definition truthful :: "ext \<Rightarrow> PeerId \<Rightarrow> net_event list \<Rightarrow> task \<Rightarrow> bool" where
  "truthful x n l t \<longleftrightarrow> delivery.safe x n t l"

lemma truthful_Done [simp]: "truthful x n l Done" and truthful_Count: "(\<And>k. truthful x n l (f k)) \<Longrightarrow> truthful x n l (Count f)"
  by (simp_all add: truthful_def)

lemmas truthful_mono = delivery.safe_fut [folded truthful_def]
lemmas truthful_look = delivery.safe_look [folded truthful_def]
lemmas truthful_leader = delivery.safe_leader [folded truthful_def]
lemmas truthful_with_leader = delivery.safe_with_leader [folded truthful_def]
lemmas truthful_received = delivery.safe_received [folded truthful_def]
lemmas truthful_reply = delivery.safe_reply [folded truthful_def]
lemmas truthful_announce = delivery.safe_announce [folded truthful_def]
lemmas truthful_beat = delivery.safe_beat [folded truthful_def]
lemmas truthful_forward = delivery.safe_forward [folded truthful_def]
lemmas truthful_from_leader = delivery.safe_from_leader [folded truthful_def]
lemmas truthful_route = delivery.safe_route [folded truthful_def]
lemmas truthful_routine = delivery.safe_handle_internal [folded truthful_def]
lemmas truthful_own = delivery.safe_own [folded truthful_def]

text \<open>A packed message is genuine when the message may be handed over.\<close>

lemma packed_genuine:
  assumes "lz4_laws x" "encode_packet x mt d (flags AND 0xFE) thr mx = Inr p" "vouched x l n q mt flags d"
  shows "genuine x l n q p"
proof -
  have "pkt_flags p AND 0xFE = flags AND 0xFE" using encode_packet_flags [OF assms(2)] by (simp add: user_flags_kept)
  then have "vouched x l n q mt (pkt_flags p) d" using assms(3) by (simp add: vouched_def submitted_def)
  then show ?thesis
    using encode_packet_type [OF assms(2)] decode_encode_packet [OF assms(1,2)] by (simp add: genuine_def)
qed

lemma submit_vouched: "Submit n target mt flags d \<in> set l \<Longrightarrow> reaches target q \<Longrightarrow> vouched x l n q mt flags d"
  unfolding vouched_def submitted_def by blast

lemma truthful_deliver:
  "vouched x l (PeerId name) n mt f d \<Longrightarrow> truthful x n l (act (node_event env (Received name d mt f)) Done)"
  by (rule truthful_received) (auto intro!: heard_event intro: vouched_mono)

lemma truthful_forwarded:
  assumes "lz4_laws x" "ne_ext env = x" "honest l (ForwardedUserData from_id mt flags d)" "relayed x l n (PeerId from_id) mt d"
  shows "truthful x n l (forwarded_task env mx from_id mt flags d)"
proof -
  from assms(3) have sub: "submitted l (PeerId from_id) Broadcast mt flags d"
    and plain: "decode_payload x \<lparr>pkt_type = mt, pkt_flags = flags, pkt_payload = d\<rparr> = Inr d"
    by (simp_all add: decode_payload_def is_compressed_def)
  have "vouched x l (PeerId from_id) n mt flags d" "\<And>q. vouched x l n q mt flags d"
    using sub assms(4) unfolding vouched_def by (metis reaches.simps(1))+
  then show ?thesis
    unfolding forwarded_task_def Let_def using assms(1,2) plain
    by (auto intro!: truthful_look truthful_forward truthful_deliver packed_genuine)
qed

lemma truthful_handle_message:
  assumes x: "lz4_laws x" "postcard_laws x" "ne_ext env = x" and p: "genuine x l a n p" "Handle n a p \<in> set l \<or> handshake_notice x p"
  shows "truthful x n l (handle_message_task env n mx a p)"
proof -
  have "truthful x n l (handle_internal_task env n mx a m)" if m: "is_internal p" "decode_internal x p = Inr m" for m
  proof (cases m)
    case (ForwardedUserData from_id mt flags d)
    with m p have "honest l m" "relayed x l n (PeerId from_id) mt d" by (auto simp: genuine_def relayed_def handshake_notice_def)
    with ForwardedUserData show ?thesis using truthful_forwarded [OF x(1,3)] by simp
  qed (use x truthful_routine [OF x(2,3), of m] in
      \<open>auto intro!: truthful_leader truthful_with_leader truthful_reply truthful_Count truthful_beat split: prod.split\<close>)
  then show ?thesis
    unfolding handle_message_task_def using x(3) p(1) by (auto simp: genuine_def intro!: truthful_deliver split: sum.split)
qed

lemma truthful_own_op:
  assumes "postcard_laws x" "own_op x n op"
  shows "truthful x n l (node_task n mx op)"
  using assms
proof (rule truthful_own)
  fix env
  assume "op = NElection env"
  with assms show "truthful x n l (election_task env n mx)"
    unfolding election_task_def
    by (auto intro!: truthful_look truthful_Count truthful_leader truthful_announce truthful_beat split: option.split)
qed

lemma truthful_set_leader: "postcard_laws x \<Longrightarrow> ne_ext env = x \<Longrightarrow> truthful x n l (set_leader_task env mx pid)"
  unfolding set_leader_task_def by (auto intro!: truthful_with_leader truthful_announce split: prod.split)

text \<open>The tasks a node may start are truthful, given the log with the event of their start.\<close>

lemma launches_truthful:
  assumes x: "lz4_laws x" "postcard_laws x" and t: "launches x P s n es t"
    and sent: "\<And>a. a \<in> P \<Longrightarrow> sent_fits (genuine x l a) (ns_transport (sys_node s a))"
  shows "truthful x n (l @ es) t \<and> keeps n t"
  using t
proof (cases rule: launches.cases)
  case (deliver a tx p env mx)
  then have "genuine x l a n p" using sent unfolding sent_fits_def by blast
  then have "genuine x (l @ es) a n p" by (rule genuine_mono) simp
  with deliver x show ?thesis by (simp add: truthful_handle_message keeps_handle_message)
next
  case (notice p env mx q)
  then have "honest l m" if "decode_internal x p = Inr m" for m using that by (cases m) (simp_all add: handshake_notice_def)
  then have "genuine x l q n p" using notice by (simp add: genuine_def handshake_notice_def)
  with notice x show ?thesis by (simp add: truthful_handle_message keeps_handle_message)
next
  case (own op mx)
  have "foreign_op n op" using own(3) by (cases "(x, n, op)" rule: own_op.cases) auto
  with own x show ?thesis by (simp add: truthful_own_op keeps_node_task)
next
  case (assign env mx pid)
  with x show ?thesis by (simp add: truthful_set_leader keeps_set_leader)
next
  case (route env target mt flags data mx)
  with x show ?thesis
    by (auto intro!: truthful_route packed_genuine submit_vouched keeps_route simp: submitted_def user_flags_kept)
next
  case (from_leader env mt flags data mx)
  with x show ?thesis by (auto intro!: truthful_from_leader packed_genuine submit_vouched keeps_from_leader)
next
  case (forward env fwd mt flags data mx from_peer)
  with x show ?thesis by (auto intro!: truthful_forward packed_genuine submit_vouched keeps_forward)
qed

section \<open>All nodes together\<close>

abbreviation credible :: "ext \<Rightarrow> PeerId \<Rightarrow> net_event list \<Rightarrow> NetworkState \<Rightarrow> bool" where
  "credible x n \<equiv> fits (\<lambda>l le. heard x n l) (\<lambda>l. genuine x l n)"

definition net_inv :: "ext \<Rightarrow> PeerId set \<Rightarrow> net_event list \<times> system \<Rightarrow> bool" where
  "net_inv x P c \<longleftrightarrow> (case c of (l, s) \<Rightarrow>
     (\<forall>n \<in> P. node_at n (sys_node s n) \<and> credible x n l (sys_node s n) \<and> (\<forall>t \<in> set (sys_tasks s n). truthful x n l t \<and> keeps n t))
   \<and> (\<forall>origin target mt f d. Submit origin target mt f d \<in> set l \<longrightarrow> origin \<in> P))"

lemma credible_mono: "credible x n l ns \<Longrightarrow> set l \<subseteq> set l' \<Longrightarrow> credible x n l' ns"
  unfolding fits_def by (meson heard_mono genuine_mono sent_fits_mono)

lemma net_inv_start:
  assumes "sys_start P s"
  shows "net_inv x P ([], s)"
proof -
  have "node_at n (sys_node s n) \<and> credible x n [] (sys_node s n) \<and> sys_tasks s n = []" if n: "n \<in> P" for n
  proof -
    from assms n obtain session cfg bound d h c r where new: "node_new (as_str n) session cfg bound d h c r = Inr (sys_node s n)"
      and t: "sys_tasks s n = []" unfolding sys_start_def by blast
    show ?thesis
      using node_new_fields [OF new] node_inv_new [OF new] node_new_transport [OF new] t
      by (simp add: node_at_def fits_def sent_fits_def heard_def callback_new_def)
  qed
  then show ?thesis by (simp add: net_inv_def)
qed

lemma net_inv_put:
  assumes "net_inv x P (l, s)" "node_at n ns" "credible x n l ns" "\<And>t. t \<in> set ts \<Longrightarrow> truthful x n l t \<and> keeps n t"
  shows "net_inv x P (l, s\<lparr>sys_node := (sys_node s)(n := ns), sys_tasks := (sys_tasks s)(n := ts)\<rparr>)"
  using assms by (simp add: net_inv_def)

lemma net_inv_step: "net_step x P c c' \<Longrightarrow> net_inv x P c \<Longrightarrow> lz4_laws x \<Longrightarrow> postcard_laws x \<Longrightarrow> net_inv x P c'"
proof (induction rule: net_step.induct)
  case (start n s es t l)
  have "sent_fits (genuine x l a) (ns_transport (sys_node s a))" if "a \<in> P" for a
    using start.prems(1) that by (simp add: net_inv_def fits_def)
  then have t: "truthful x n (l @ es) t \<and> keeps n t" using start by (intro launches_truthful) auto
  have "origin = n" if "Submit origin target mt f d \<in> set es" for origin target mt f d
    using start.hyps(2) that by (cases rule: launches.cases) auto
  moreover have "truthful x m (l @ es) t'" if "truthful x m l t'" for m t' using that by (rule truthful_mono) simp
  moreover have "credible x m (l @ es) ns" if "credible x m l ns" for m ns using that by (rule credible_mono) simp
  ultimately show ?case using t start.hyps(1) start.prems(1) by (fastforce simp: net_inv_def)
next
  case (advance n i s u k l)
  let ?ns = "sys_node s n" and ?ts = "sys_tasks s n"
  from advance.prems(1) advance.hyps(1) have n: "node_at n ?ns" "credible x n l ?ns"
    and ts: "\<And>t. t \<in> set ?ts \<Longrightarrow> truthful x n l t" "\<forall>t \<in> set ?ts. keeps n t" by (auto simp: net_inv_def)
  have "truthful x n l (Sec u k)" using ts(1) advance.hyps(2,3) nth_mem by metis
  then obtain l' where "l = l'" "credible x n l' (u ?ns)" "\<And>t. t \<in> set (?ts[i := k ?ns]) \<Longrightarrow> truthful x n l' t"
    using delivery.safe_section [of x n u k l ?ns ?ts i] n ts(1) unfolding truthful_def by blast
  moreover have "node_at n (u ?ns) \<and> (\<forall>t \<in> set (?ts[i := k ?ns]). keeps n t)"
    using pool_step_keeps [OF pool_step.advance [OF advance.hyps(2,3)] n(1) ts(2)] .
  ultimately show ?case using net_inv_put [OF advance.prems(1)] by blast
next
  case (count n i s k l)
  let ?ts = "sys_tasks s n" and ?c = "get_connected_peer_count (ns_membership (sys_node s n))"
  have "Count k \<in> set ?ts" using count.hyps(2,3) nth_mem by metis
  then have "truthful x n l (k ?c) \<and> keeps n (k ?c)" using count.prems(1) count.hyps(1) by (force simp: net_inv_def truthful_def keeps_def)
  then have "\<forall>t \<in> set (?ts[i := k ?c]). truthful x n l t \<and> keeps n t"
    using count.prems(1) count.hyps(1) set_update_subset_insert [of ?ts i "k ?c"] by (auto simp: net_inv_def)
  then show ?case using count.prems(1) by (simp add: net_inv_def)
next
  case (dispatch n ns s l)
  then show ?case by (auto simp: net_inv_def fits_def node_at_def node_inv_def heard_thread)
next
  case (listen n ns s l cb)
  then show ?case by (auto simp: net_inv_def fits_def node_at_def node_inv_def heard_def register_receive_callback_def)
qed

text \<open>Every run of \<open>System\<close> is a run here, so that what follows holds of it too.\<close>

lemma sys_step_net_step: "sys_step x P s s' \<Longrightarrow> \<exists>l'. net_step x P (l, s) (l', s')"
proof (induction rule: sys_step.induct)
  case (start n s t)
  from start(2) have "\<exists>es. launches x P s n es t" by (cases rule: starts.cases) (blast intro: launches.intros)+
  with start(1) show ?case by (blast intro: net_step.start)
qed (blast intro: net_step.intros)+

section \<open>Properties\<close>

text \<open>
  C2: No message is invented or misdirected. Let any number of complete nodes run, their handlers, timers, watchers, transport tasks, callback threads and host calls interleaved in
  any order, over a network that delays, reorders, repeats and loses packets. Whenever a node calls its receive callback, some host program has handed over exactly this message
  before: the same bytes and type, the same flags but for the reserved bit, addressed to everybody, to the leader or to this very node, never to another one. The name reported is the
  node it was handed to, or, for a broadcast, the node that handled a request of that node to forward it. The length reported is the length of the bytes.
\<close>

theorem no_message_invented:
  assumes "lz4_laws x" "postcard_laws x" "sys_start P s0" "(net_step x P)\<^sup>*\<^sup>* ([], s0) (l, s)" "n \<in> P"
    and "CallReceive cb name data len mt flags \<in> set (cb_calls (ns_callback (sys_node s n)))"
  shows "\<exists>origin \<in> P. \<exists>target f. Submit origin target mt f data \<in> set l \<and> f AND 0xFE = flags AND 0xFE
    \<and> (\<forall>q. target = ToPeer q \<longrightarrow> q = n) \<and> len = len_i32 data
    \<and> (name = as_str origin \<or> target = Broadcast \<and> (\<exists>q p f'. Handle (PeerId name) q p \<in> set l
         \<and> decode_internal x p = Inr (ForwardedUserData (as_str origin) mt f' data)))"
proof -
  have inv: "net_inv x P (l, s)"
    using assms(4)
  proof (induction "(l, s)" arbitrary: l s rule: rtranclp_induct)
    case base
    then show ?case using net_inv_start [OF assms(3)] by simp
  next
    case (step c l s)
    obtain l0 s0 where "c = (l0, s0)" by fastforce
    with step net_inv_step [OF step.hyps(2)] assms(1,2) show ?case by blast
  qed
  then have "vouched x l (PeerId name) n mt flags data" "len = len_i32 data"
    using assms(5,6) unfolding net_inv_def fits_def heard_def by blast+
  moreover have "reaches target n \<Longrightarrow> target = ToPeer q \<Longrightarrow> q = n" for target q by simp
  moreover have "origin \<in> P" if "Submit origin target mt f data \<in> set l" for origin target f using inv that by (fastforce simp: net_inv_def)
  ultimately show ?thesis unfolding vouched_def submitted_def relayed_def by (metis PeerId.sel)
qed


text \<open>A task that runs to its end without interruption.\<close>

lemma net_run:
  "n \<in> P \<Longrightarrow> i < length (sys_tasks s n) \<Longrightarrow> sys_tasks s n ! i = t \<Longrightarrow>
     (net_step x P)\<^sup>*\<^sup>* (l, s) (l, s\<lparr>sys_node := (sys_node s)(n := run t (sys_node s n)), sys_tasks := (sys_tasks s)(n := (sys_tasks s n)[i := Done])\<rparr>)"
proof (induction t arbitrary: s)
  case Done
  then have "s\<lparr>sys_node := (sys_node s)(n := run Done (sys_node s n)), sys_tasks := (sys_tasks s)(n := (sys_tasks s n)[i := Done])\<rparr> = s"
    by (simp add: list_update_same_conv [THEN iffD2])
  then show ?case by (simp only: rtranclp.rtrancl_refl)
next
  case (Sec u k)
  let ?s = "s\<lparr>sys_node := (sys_node s)(n := u (sys_node s n)), sys_tasks := (sys_tasks s)(n := (sys_tasks s n)[i := k (sys_node s n)])\<rparr>"
  have "net_step x P (l, s) (l, ?s)" using Sec.prems by (intro net_step.advance) simp_all
  with Sec.IH [of "k (sys_node s n)" ?s] Sec.prems show ?case by (simp add: converse_rtranclp_into_rtranclp cong: if_cong)
next
  case (Count k)
  let ?c = "get_connected_peer_count (ns_membership (sys_node s n))"
  let ?s = "s\<lparr>sys_tasks := (sys_tasks s)(n := (sys_tasks s n)[i := k ?c])\<rparr>"
  have "net_step x P (l, s) (l, ?s)" using Count.prems by (intro net_step.count) simp_all
  with Count.IH [of "k ?c" ?s] Count.prems show ?case by (simp add: converse_rtranclp_into_rtranclp cong: if_cong)
qed

lemma net_do_steps: "n \<in> P \<Longrightarrow> launches x P s n es t \<Longrightarrow> (net_step x P)\<^sup>*\<^sup>* (l, s) (l @ es, sys_do n t s)"
proof -
  assume n: "n \<in> P" "launches x P s n es t"
  let ?s = "s\<lparr>sys_tasks := (sys_tasks s)(n := sys_tasks s n @ [t])\<rparr>"
  have "net_step x P (l, s) (l @ es, ?s)" using n by (rule net_step.start)
  moreover have "(net_step x P)\<^sup>*\<^sup>* (l @ es, ?s) (l @ es, sys_do n t s)"
    using net_run [of n P "length (sys_tasks s n)" ?s t x "l @ es"] n by (simp add: sys_do_def)
  ultimately show ?thesis by (rule converse_rtranclp_into_rtranclp)
qed

text \<open>
  Three nodes in centralized mode: a is connected to b and takes it for the leader, b leads and is connected to c. The host of a broadcasts a message, b forwards
  it, c receives it under the name of b.
\<close>

definition relay_ext :: ext where
  "relay_ext = table_ext [ForwardedUserData ''a'' 0x0100 4 [7, 8]]"

definition relay_env :: node_env where
  "relay_env = demo_env\<lparr>ne_ext := relay_ext\<rparr>"

definition relay_request :: RawPacket where
  "relay_request = \<lparr>pkt_type = FORWARDED_USER_DATA, pkt_flags = 0, pkt_payload = [0]\<rparr>"

definition relay_packet :: RawPacket where
  "relay_packet = \<lparr>pkt_type = 0x0100, pkt_flags = 4, pkt_payload = [7, 8]\<rparr>"

definition relay_tasks :: "(PeerId \<times> net_event list \<times> task) list" where
  "relay_tasks =
     [(PeerId ''a'', [], node_task (PeerId ''a'') 262144 (NTransport (TRegister 0 (PeerId ''b'') (demo_addr 1)))),
      (PeerId ''b'', [], node_task (PeerId ''b'') 262144 (NTransport (TRegister 0 (PeerId ''c'') (demo_addr 2)))),
      (PeerId ''a'', [], node_task (PeerId ''a'') 262144 (NRouter (RCentralized True))),
      (PeerId ''a'', [], set_leader_task relay_env 262144 (PeerId ''b'')),
      (PeerId ''b'', [], set_leader_task relay_env 262144 (PeerId ''b'')),
      (PeerId ''a'', [Submit (PeerId ''a'') Broadcast 0x0100 5 [7, 8]], route_task relay_env (PeerId ''a'') 262144 Broadcast 0x0100 [7, 8] 5),
      (PeerId ''b'', [Handle (PeerId ''b'') (PeerId ''a'') relay_request], handle_message_task relay_env (PeerId ''b'') 262144 (PeerId ''a'') relay_request),
      (PeerId ''c'', [Handle (PeerId ''c'') (PeerId ''b'') relay_packet], handle_message_task relay_env (PeerId ''c'') 262144 (PeerId ''b'') relay_packet)]"

definition relay_system :: "nat \<Rightarrow> system" where
  "relay_system k = fold (\<lambda>(n, es, t). sys_do n t) (take k relay_tasks) (trio_system 0)"

definition relay_log :: "nat \<Rightarrow> net_event list" where
  "relay_log k = concat (map (fst \<circ> snd) (take k relay_tasks))"

lemmas relay_eval = relay_system_def relay_tasks_def relay_env_def relay_ext_def relay_request_def relay_packet_def trio_eval set_leader_task_def with_leader_def
  set_leader_def assign_leader_def route_task_def packed_user_def encode_packet_def compression_threshold_def set_centralized_def is_centralized_def router_new_def
  forwarded_task_def forward_task_def is_auto_forward_def decode_payload_def is_compressed_def FORWARDED_USER_DATA_def node_event_def send_event_def callback_new_def

lemma relay_sent:
  "(0, relay_request) \<in> set (tm_sent (ns_transport (sys_node (relay_system 6) (PeerId ''a''))))"
  "serves (ns_transport (sys_node (relay_system 6) (PeerId ''a''))) 0 (PeerId ''b'')"
  "(0, relay_packet) \<in> set (tm_sent (ns_transport (sys_node (relay_system 7) (PeerId ''b''))))"
  "serves (ns_transport (sys_node (relay_system 7) (PeerId ''b''))) 0 (PeerId ''c'')"
  by (simp_all add: relay_eval serves_def)

lemma relay_received: "cb_queue (ns_callback (sys_node (relay_system 8) (PeerId ''c''))) = [Received ''b'' [7, 8] 0x0100 4]"
   "cb_thread (ns_callback (sys_node (relay_system 8) (PeerId ''c''))) = AtFlag" "\<not> cb_shutdown (ns_callback (sys_node (relay_system 8) (PeerId ''c'')))"
  by (simp_all add: relay_eval)

lemma relay_launches:
  "k < 8 \<Longrightarrow> launches relay_ext trio (relay_system k) (fst (relay_tasks ! k)) (fst (snd (relay_tasks ! k))) (snd (snd (relay_tasks ! k)))"
proof -
  assume "k < 8"
  then have "k \<in> {0, 1, 2, 3, 4, 5, 6, 7}" by auto
  then show ?thesis
    using relay_sent unfolding relay_tasks_def
    by (elim insertE emptyE; hypsubst; simp only: nth_Cons_0 nth_Cons_numeral diff_numeral_special fst_conv snd_conv nth_Cons' split: if_split)
       (auto simp: relay_env_def trio_def simp del: node_task.simps intro: launches.intros)
qed

lemma relay_steps: "k \<le> 8 \<Longrightarrow> (net_step relay_ext trio)\<^sup>*\<^sup>* ([], trio_system 0) (relay_log k, relay_system k)"
proof (induction k)
  case 0
  then show ?case by (simp add: relay_log_def relay_system_def)
next
  case (Suc k)
  let ?n = "fst (relay_tasks ! k)" and ?es = "fst (snd (relay_tasks ! k))" and ?t = "snd (snd (relay_tasks ! k))"
  have "take (Suc k) relay_tasks = take k relay_tasks @ [relay_tasks ! k]" using Suc.prems by (intro take_Suc_conv_app_nth) (simp add: relay_tasks_def)
  then have nxt: "relay_log (Suc k) = relay_log k @ ?es" "relay_system (Suc k) = sys_do ?n ?t (relay_system k)"
    by (simp_all add: relay_log_def relay_system_def case_prod_beta)
  have "fst e \<in> trio" if "e \<in> set relay_tasks" for e using that by (auto simp: relay_tasks_def trio_def)
  moreover have "relay_tasks ! k \<in> set relay_tasks" using Suc.prems by (intro nth_mem) (simp add: relay_tasks_def)
  ultimately have "?n \<in> trio" by blast
  then have "(net_step relay_ext trio)\<^sup>*\<^sup>* (relay_log k, relay_system k) (relay_log (Suc k), relay_system (Suc k))"
    unfolding nxt using relay_launches [of k] Suc.prems by (intro net_do_steps) simp_all
  with Suc show ?case by (meson Suc_leD rtranclp_trans)
qed

definition relay_final :: system where
  "relay_final = (let ns = sys_node (relay_system 8) (PeerId ''c'') in (relay_system 8)\<lparr>sys_node := (sys_node (relay_system 8))(PeerId ''c'' :=
     ns\<lparr>ns_callback := callback_step (callback_step (register_receive_callback (Some 9) (ns_callback ns)))\<rparr>)\<rparr>)"

lemma relay_final_steps: "(net_step relay_ext trio)\<^sup>*\<^sup>* ([], trio_system 0) (relay_log 8, relay_final)"
proof -
  let ?s = "relay_system 8" and ?l = "relay_log 8" and ?c = "PeerId ''c''"
  let ?put = "\<lambda>cb. ?s\<lparr>sys_node := (sys_node ?s)(?c := (sys_node ?s ?c)\<lparr>ns_callback := cb\<rparr>)\<rparr>"
  have c: "?c \<in> trio" by (simp add: trio_def)
  have "net_step relay_ext trio (?l, ?s) (?l, ?put (register_receive_callback (Some 9) (ns_callback (sys_node ?s ?c))))"
    by (rule net_step.listen [OF c refl])
  moreover have "net_step relay_ext trio (?l, ?put cb) (?l, ?put (callback_step cb))" for cb
    using net_step.dispatch [OF c refl, of relay_ext ?l "?put cb"] by simp
  ultimately show ?thesis
    unfolding relay_final_def Let_def by (meson relay_steps order_refl rtranclp.rtrancl_into_rtrancl)
qed

theorem no_message_invented_witness:
  "CallReceive 9 ''b'' [7, 8] 2 0x0100 4 \<in> set (cb_calls (ns_callback (sys_node relay_final (PeerId ''c''))))
   \<and> (\<exists>target f. Submit (PeerId ''a'') target 0x0100 f [7, 8] \<in> set (relay_log 8))"
proof -
  have call: "CallReceive 9 ''b'' [7, 8] 2 0x0100 4 \<in> set (cb_calls (ns_callback (sys_node relay_final (PeerId ''c''))))"
    using relay_received
    by (simp add: relay_final_def Let_def callback_step_def register_receive_callback_def dispatch_event_def call_for_def cstring_new_def len_i32_def)
  have "lz4_laws relay_ext" "postcard_laws relay_ext" "PeerId ''c'' \<in> trio"
    by (simp_all add: relay_ext_def table_ext_lz4 table_ext_postcard trio_def)
  from no_message_invented [OF this(1,2) trio_starts_fresh relay_final_steps this(3) call]
  obtain origin target f where "Submit origin target 0x0100 f [7, 8] \<in> set (relay_log 8)" by blast
  with call show ?thesis by (auto simp: relay_log_def relay_tasks_def)
qed

end
