(* ===== verification/Election_Progress.thy ===== *)
theory Election_Progress
  imports Cluster
begin

text \<open>
  An election that nobody disturbs succeeds. \<open>Cluster\<close> shows that at most one node leads a term; here one node's election timer fires
  and from then on messages are delivered, in any order, any number of times, old ones among them, until another timer fires. The
  theorem says what every such run has achieved, depending on what has been delivered.
\<close>

section \<open>Definitions\<close>

fun msg_term :: "election_msg \<Rightarrow> u64" where
  "msg_term (MReq t i) = t"
| "msg_term (MResp q t v g) = t"
| "msg_term (MBeat t i) = t"

text \<open>One message handled by one node; a vote response is handled by the candidate it was sent to. \<open>k\<close> is the number of peers the node sees as connected.\<close>

fun deliver :: "nat \<Rightarrow> PeerId \<Rightarrow> election_msg \<Rightarrow> cluster \<Rightarrow> cluster" where
  "deliver k q (MReq t i) c = on_request q t i c"
| "deliver k q (MResp r t v g) c = (if r = q then on_response q t v g k c else c)"
| "deliver k q (MBeat t i) c = put_node q (snd (handle_heartbeat t i (nodes c q))) c"

text \<open>A run without further timeouts, with the messages delivered in it: \<open>calm k c ds c'\<close>.\<close>

inductive calm :: "(PeerId \<Rightarrow> nat) \<Rightarrow> cluster \<Rightarrow> (PeerId \<times> election_msg) list \<Rightarrow> cluster \<Rightarrow> bool" for k c where
  still: "calm k c [] c"
| handled: "calm k c ds c' \<Longrightarrow> m \<in> soup c' \<Longrightarrow> calm k c (ds @ [(q, m)]) (deliver (k q) q m c')"
| periodic: "calm k c ds c' \<Longrightarrow> calm k c ds (c'\<lparr>soup := soup c' \<union> beat (nodes c' q)\<rparr>)"

section \<open>The invariant of a calm run\<close>

text \<open>A node other than the candidate: not beyond the candidate's term, and in that term neither running nor bound to another vote.\<close>

definition follows :: "PeerId \<Rightarrow> u64 \<Rightarrow> LeaderElection \<Rightarrow> bool" where
  "follows n t le \<longleftrightarrow> current_term (le_state le) \<le> t \<and> \<not> manual_override (le_state le) \<and>
     (current_term (le_state le) = t \<longrightarrow> role (le_state le) = Follower \<and> (voted_for (le_state le) = None \<or> voted_for (le_state le) = Some n))"

text \<open>The candidate: leading, or still short of votes but with everything that was answered counted.\<close>

definition stands :: "nat \<Rightarrow> PeerId \<Rightarrow> u64 \<Rightarrow> PeerId set \<Rightarrow> LeaderElection \<Rightarrow> bool" where
  "stands thr n t A le \<longleftrightarrow> le_local_peer_id le = n \<and> current_term (le_state le) = t \<and> voted_for (le_state le) = Some n \<and> \<not> manual_override (le_state le) \<and>
     (role (le_state le) = Leader \<or> role (le_state le) = Candidate \<and> finite (votes_received (le_state le)) \<and>
       insert n A \<subseteq> votes_received (le_state le) \<and> card (votes_received (le_state le)) < thr)"

fun calm_msg :: "PeerId \<Rightarrow> u64 \<Rightarrow> election_msg \<Rightarrow> bool" where
  "calm_msg n t (MReq t' i) \<longleftrightarrow> t' < t \<or> t' = t \<and> i = as_str n"
| "calm_msg n t (MResp q t' v g) \<longleftrightarrow> t' < t \<or> t' = t \<and> (g \<longrightarrow> q = n)"
| "calm_msg n t (MBeat t' i) \<longleftrightarrow> t' < t \<or> t' = t \<and> i = as_str n"

definition answered :: "PeerId \<Rightarrow> u64 \<Rightarrow> (PeerId \<times> election_msg) list \<Rightarrow> PeerId set" where
  "answered n t ds = {v. (n, MResp n t (as_str v) True) \<in> set ds}"

definition calm_inv :: "nat \<Rightarrow> PeerId \<Rightarrow> u64 \<Rightarrow> (PeerId \<times> election_msg) list \<Rightarrow> cluster \<Rightarrow> bool" where
  "calm_inv thr n t ds c \<longleftrightarrow> stands thr n t (answered n t ds) (nodes c n)
   \<and> (\<forall>m. m \<noteq> n \<longrightarrow> le_local_peer_id (nodes c m) = m \<and> follows n t (nodes c m))
   \<and> (\<forall>m \<in> soup c. calm_msg n t m)
   \<and> (MBeat t (as_str n) \<in> soup c \<longleftrightarrow> role_of c n = Leader)
   \<and> (\<forall>m. (m, MReq t (as_str n)) \<in> set ds \<longrightarrow> MResp n t (as_str m) True \<in> soup c)
   \<and> (\<forall>m. m \<noteq> n \<longrightarrow> (m, MBeat t (as_str n)) \<in> set ds \<longrightarrow> term_of c m = t \<and> leader_id (le_state (nodes c m)) = Some n)"

lemma follows_request:
  "follows n t le \<Longrightarrow> calm_msg n t (MReq t' i) \<Longrightarrow> handle_request_vote t' i le = ((t'', g), le') \<Longrightarrow>
     follows n t le' \<and> t'' \<le> t \<and> (t'' = t \<longrightarrow> g \<longrightarrow> i = as_str n) \<and> (t' = t \<longrightarrow> t'' = t \<and> g)
     \<and> current_term (le_state le) \<le> current_term (le_state le') \<and> leader_id (le_state le') = leader_id (le_state le)"
  by (auto simp: follows_def handle_request_vote_def Let_def intro: PeerId.expand split: if_splits option.splits)

lemma follows_response:
  "follows n t le \<Longrightarrow> calm_msg n t (MResp q t' v g) \<Longrightarrow> handle_vote_response t' v g k le = (won, le') \<Longrightarrow> le_local_peer_id le \<noteq> n \<Longrightarrow>
     follows n t le' \<and> (won \<longrightarrow> current_term (le_state le') < t)
     \<and> current_term (le_state le) \<le> current_term (le_state le') \<and> (current_term (le_state le) = t \<longrightarrow> leader_id (le_state le') = leader_id (le_state le))"
  by (auto simp: follows_def handle_vote_response_def become_leader_inner_def notify_leader_change_def Let_def split: if_splits)

text \<open>A follower of the beat: what it knows afterwards, whether it accepts the beat or not.\<close>

lemma heartbeat_state:
  "\<not> manual_override (le_state le) \<Longrightarrow> role (le_state le) = Leader \<longrightarrow> current_term (le_state le) < t' \<Longrightarrow> \<not> t' < current_term (le_state le) \<Longrightarrow>
     le_state (snd (handle_heartbeat t' i le)) = (le_state le)\<lparr>current_term := t', voted_for := (if current_term (le_state le) < t' then None else voted_for (le_state le)),
       role := Follower, votes_received := (if role (le_state le) = Follower then votes_received (le_state le) else {}), leader_id := Some (PeerId i)\<rparr>"
  by (cases "role (le_state le)"; cases "current_term (le_state le) < t'")
     (simp_all add: handle_heartbeat_def step_down_inner_def notify_leader_change_def Let_def not_less)

lemma heartbeat_term:
  "current_term (le_state (snd (handle_heartbeat t' i le))) = current_term (le_state le) \<or> current_term (le_state (snd (handle_heartbeat t' i le))) = t'"
  "manual_override (le_state (snd (handle_heartbeat t' i le))) = manual_override (le_state le)"
  by (simp_all add: handle_heartbeat_def step_down_inner_def notify_leader_change_def Let_def)

lemma heartbeat_stale: "t' < current_term (le_state le) \<Longrightarrow> handle_heartbeat t' i le = (False, le)"
  by (simp add: handle_heartbeat_def Let_def)

lemma follows_heartbeat:
  assumes "follows n t le" "calm_msg n t (MBeat t' i)"
  shows "follows n t (snd (handle_heartbeat t' i le))"
    and "t' = t \<or> current_term (le_state le) = t \<and> leader_id (le_state le) = Some n \<Longrightarrow>
      current_term (le_state (snd (handle_heartbeat t' i le))) = t \<and> leader_id (le_state (snd (handle_heartbeat t' i le))) = Some n"
proof -
  let ?le = "snd (handle_heartbeat t' i le)"
  consider "t' = t" "i = as_str n" | "t' < t" "current_term (le_state le) = t" | "t' < t" "current_term (le_state le) < t"
    using assms by (fastforce simp: follows_def)
  note cs = this
  have "\<not> manual_override (le_state le)" "role (le_state le) = Leader \<longrightarrow> current_term (le_state le) < t'" "\<not> t' < current_term (le_state le)" if "t' = t"
    using assms(1) that by (auto simp: follows_def less_le)
  note led = heartbeat_state [OF this, of i]
  from cs show "follows n t ?le"
  proof cases
    case 1
    then show ?thesis using assms(1) led by (auto simp: follows_def)
  next
    case 3
    then have "current_term (le_state ?le) < t" using heartbeat_term(1) [of t' i le] by auto
    then show ?thesis using assms(1) heartbeat_term(2) [of t' i le] by (auto simp: follows_def)
  qed (use assms(1) in \<open>simp add: heartbeat_stale\<close>)
  assume hyp: "t' = t \<or> current_term (le_state le) = t \<and> leader_id (le_state le) = Some n"
  from cs show "current_term (le_state ?le) = t \<and> leader_id (le_state ?le) = Some n"
  proof cases
    case 1
    then show ?thesis using assms(1) led by (auto simp: follows_def)
  qed (use assms(1) hyp in \<open>auto simp: heartbeat_stale\<close>)
qed

lemma stands_request:
  "stands thr n t A le \<Longrightarrow> calm_msg n t (MReq t' i) \<Longrightarrow> handle_request_vote t' i le = ((t'', g), le') \<Longrightarrow>
     stands thr n t A le' \<and> role (le_state le') = role (le_state le) \<and> t'' = t \<and> (g \<longrightarrow> i = as_str n) \<and> (t' = t \<longrightarrow> g)"
  by (auto simp: stands_def handle_request_vote_def Let_def split: if_splits option.splits)

lemma stands_response:
  "stands (majority_threshold (1 + k)) n t A le \<Longrightarrow> t' \<le> t \<Longrightarrow> handle_vote_response t' v g k le = (won, le') \<Longrightarrow>
     stands (majority_threshold (1 + k)) n t (if t' = t \<and> g then insert (PeerId v) A else A) le'
     \<and> (role (le_state le') = Leader \<longleftrightarrow> role (le_state le) = Leader \<or> won)"
  by (auto simp: stands_def handle_vote_response_def become_leader_inner_def notify_leader_change_def Let_def split: if_splits)

lemma stands_heartbeat:
  "stands thr n t A le \<Longrightarrow> calm_msg n t (MBeat t' i) \<Longrightarrow> t' = t \<longrightarrow> role (le_state le) = Leader \<Longrightarrow>
     stands thr n t A (snd (handle_heartbeat t' i le)) \<and> role (le_state (snd (handle_heartbeat t' i le))) = role (le_state le)"
  by (auto simp: stands_def handle_heartbeat_def Let_def split: if_splits option.splits)

text \<open>One delivery, by the kind of message and by who handles it.\<close>

lemma answered_snoc [simp]:
  "answered n t (ds @ [(q, m)]) = (if q = n \<and> (\<exists>v. m = MResp n t v True) then insert (PeerId (case m of MResp q t v g \<Rightarrow> v)) (answered n t ds) else answered n t ds)"
  by (auto simp: answered_def intro: PeerId.expand)

lemma calm_put:
  assumes "calm_inv thr n t ds c" "nodes c' = (nodes c)(q := le)" "soup c \<subseteq> soup c'"
    and "q = n \<Longrightarrow> stands thr n t (answered n t (ds @ [(q, m)])) le" "q \<noteq> n \<Longrightarrow> le_local_peer_id le = q \<and> follows n t le"
    and "\<And>x. x \<in> soup c' \<Longrightarrow> x \<notin> soup c \<Longrightarrow> calm_msg n t x"
    and "MBeat t (as_str n) \<in> soup c' \<longleftrightarrow> role_of c' n = Leader"
    and "m = MReq t (as_str n) \<Longrightarrow> MResp n t (as_str q) True \<in> soup c'"
    and "q \<noteq> n \<Longrightarrow> m = MBeat t (as_str n) \<or> term_of c q = t \<and> leader_id (le_state (nodes c q)) = Some n \<Longrightarrow>
      current_term (le_state le) = t \<and> leader_id (le_state le) = Some n"
  shows "calm_inv thr n t (ds @ [(q, m)]) c'"
proof -
  from assms(1) have c: "stands thr n t (answered n t ds) (nodes c n)" "\<And>m. m \<noteq> n \<Longrightarrow> le_local_peer_id (nodes c m) = m \<and> follows n t (nodes c m)"
    "\<And>m. m \<in> soup c \<Longrightarrow> calm_msg n t m" "\<And>m. (m, MReq t (as_str n)) \<in> set ds \<Longrightarrow> MResp n t (as_str m) True \<in> soup c"
    "\<And>m. m \<noteq> n \<Longrightarrow> (m, MBeat t (as_str n)) \<in> set ds \<Longrightarrow> term_of c m = t \<and> leader_id (le_state (nodes c m)) = Some n"
    by (auto simp: calm_inv_def)
  have "stands thr n t (answered n t (ds @ [(q, m)])) (nodes c' n)" using assms(2,4) c(1) by (cases "q = n") auto
  moreover have "le_local_peer_id (nodes c' r) = r \<and> follows n t (nodes c' r)" if "r \<noteq> n" for r
    using assms(2,5) c(2) [OF that] that by auto
  moreover have "calm_msg n t x" if "x \<in> soup c'" for x using assms(6) c(3) that by blast
  moreover have "MResp n t (as_str r) True \<in> soup c'" if "(r, MReq t (as_str n)) \<in> set (ds @ [(q, m)])" for r
    using that assms(3,8) c(4) by auto
  moreover have "term_of c' r = t \<and> leader_id (le_state (nodes c' r)) = Some n" if "r \<noteq> n" "(r, MBeat t (as_str n)) \<in> set (ds @ [(q, m)])" for r
    using that assms(2,9) c(5) [of r] by (auto simp: term_of_def)
  ultimately show ?thesis using assms(7) unfolding calm_inv_def by blast
qed

lemma calm_request:
  assumes "calm_inv thr n t ds c" "MReq t' i \<in> soup c"
  shows "calm_inv thr n t (ds @ [(q, MReq t' i)]) (on_request q t' i c)"
proof -
  have m: "calm_msg n t (MReq t' i)" and b: "MBeat t (as_str n) \<in> soup c \<longleftrightarrow> role_of c n = Leader" using assms by (auto simp: calm_inv_def)
  obtain t'' g le where r: "handle_request_vote t' i (nodes c q) = ((t'', g), le)" by (metis surj_pair)
  have me: "le_local_peer_id le = le_local_peer_id (nodes c q)" using leader_exec_local(1) [of "OpRequestVote t' i" "nodes c q"] r by simp
  define d where "d = on_request q t' i c"
  have c': "nodes d = (nodes c)(q := le)" "soup d = insert (MResp (PeerId i) t'' (as_str q) g) (soup c)"
    by (simp_all add: d_def on_request_def r)
  have "calm_inv thr n t (ds @ [(q, MReq t' i)]) d"
  proof (cases "q = n")
    case True
    then have "stands thr n t (answered n t ds) (nodes c q)" using assms(1) by (simp add: calm_inv_def)
    note s = stands_request [OF this m r]
    then have role: "role_of d n = role_of c n" using True unfolding role_of_def c' by simp
    show ?thesis
      by (rule calm_put [OF assms(1) c'(1)]) (use True s b role in \<open>auto simp: c'\<close>)
  next
    case False
    then have q: "le_local_peer_id (nodes c q) = q" "follows n t (nodes c q)" using assms(1) by (auto simp: calm_inv_def)
    note f = follows_request [OF q(2) m r]
    have role: "role_of d n = role_of c n" using False by (simp add: role_of_def c')
    have up: "current_term (le_state le) = t" if "term_of c q = t"
      using f that by (auto simp: term_of_def follows_def)
    show ?thesis
      by (rule calm_put [OF assms(1) c'(1)]) (use False f me q(1) b role up in \<open>auto simp: c'\<close>)
  qed
  then show ?thesis by (simp add: d_def)
qed

lemma calm_response:
  assumes "calm_inv (majority_threshold (1 + k n)) n t ds c" "MResp q t' v g \<in> soup c"
  shows "calm_inv (majority_threshold (1 + k n)) n t (ds @ [(q, MResp q t' v g)]) (on_response q t' v g (k q) c)"
proof -
  have m: "calm_msg n t (MResp q t' v g)" and b: "MBeat t (as_str n) \<in> soup c \<longleftrightarrow> role_of c n = Leader" using assms by (auto simp: calm_inv_def)
  obtain won le where r: "handle_vote_response t' v g (k q) (nodes c q) = (won, le)" by fastforce
  have me: "le_local_peer_id le = le_local_peer_id (nodes c q)" using leader_exec_local(1) [of "OpVoteResponse t' v g (k q)" "nodes c q"] r by simp
  define d where "d = on_response q t' v g (k q) c"
  have c': "nodes d = (nodes c)(q := le)" "soup d = soup c \<union> (if won then beat le else {})"
    by (simp_all add: d_def on_response_def r)
  have "calm_inv (majority_threshold (1 + k n)) n t (ds @ [(q, MResp q t' v g)]) d"
  proof (cases "q = n")
    case True
    then have "stands (majority_threshold (1 + k q)) n t (answered n t ds) (nodes c q)" using assms(1) by (simp add: calm_inv_def)
    moreover have "t' \<le> t" using m by auto
    ultimately have s: "stands (majority_threshold (1 + k q)) n t (if t' = t \<and> g then insert (PeerId v) (answered n t ds) else answered n t ds) le"
      and lead: "role (le_state le) = Leader \<longleftrightarrow> role (le_state (nodes c q)) = Leader \<or> won"
      using stands_response r by blast+
    from s have "won \<Longrightarrow> beat le = {MBeat t (as_str n)}" using lead by (simp add: beat_def stands_def le_is_leader_def le_current_term_def)
    moreover have "role_of d n = Leader \<longleftrightarrow> role_of c n = Leader \<or> won" using True lead unfolding role_of_def c' by simp
    ultimately show ?thesis
      by (intro calm_put [OF assms(1) c'(1)]) (use True s b in \<open>auto simp: c' split: if_splits\<close>)
  next
    case False
    then have q: "le_local_peer_id (nodes c q) = q" "follows n t (nodes c q)" using assms(1) by (auto simp: calm_inv_def)
    note f = follows_response [OF q(2) m r]
    have role: "role_of d n = role_of c n" using False by (simp add: role_of_def c')
    have up: "current_term (le_state le) = t" if "term_of c q = t" using f that q(1) False by (auto simp: term_of_def follows_def)
    have "calm_msg n t x \<and> x \<noteq> MBeat t (as_str n)" if "won" "x \<in> beat le" for x
      using that f q(1) False by (auto simp: beat_def le_current_term_def split: if_splits)
    then show ?thesis
      by (intro calm_put [OF assms(1) c'(1)]) (use False f me q(1) b role up in \<open>auto simp: c' term_of_def split: if_splits\<close>)
  qed
  then show ?thesis by (simp add: d_def)
qed

lemma calm_heartbeat:
  assumes "calm_inv thr n t ds c" "MBeat t' i \<in> soup c"
  shows "calm_inv thr n t (ds @ [(q, MBeat t' i)]) (put_node q (snd (handle_heartbeat t' i (nodes c q))) c)" (is "calm_inv _ _ _ _ ?c")
proof -
  have m: "calm_msg n t (MBeat t' i)" and b: "MBeat t (as_str n) \<in> soup c \<longleftrightarrow> role_of c n = Leader" using assms by (auto simp: calm_inv_def)
  let ?le = "snd (handle_heartbeat t' i (nodes c q))"
  have me: "le_local_peer_id ?le = le_local_peer_id (nodes c q)" using leader_exec_local(1) [of "OpHeartbeat t' i" "nodes c q"] by simp
  show ?thesis
  proof (cases "q = n")
    case True
    then have "stands thr n t (answered n t ds) (nodes c q)" using assms(1) by (simp add: calm_inv_def)
    moreover have "t' = t \<longrightarrow> role (le_state (nodes c q)) = Leader" using m b True assms(2) by (auto simp: role_of_def)
    ultimately have s: "stands thr n t (answered n t ds) ?le" "role (le_state ?le) = role (le_state (nodes c q))"
      using stands_heartbeat [OF _ m] by blast+
    then have "role_of ?c n = role_of c n" using True by (simp add: role_of_def)
    with s show ?thesis by (intro calm_put [OF assms(1), where le = ?le]) (use True b in auto)
  next
    case False
    then have q: "le_local_peer_id (nodes c q) = q" "follows n t (nodes c q)" using assms(1) by (auto simp: calm_inv_def)
    have "role_of ?c n = role_of c n" using False by (simp add: role_of_def)
    then show ?thesis
      by (intro calm_put [OF assms(1), where le = ?le]) (use False q me b follows_heartbeat [OF q(2) m] in \<open>auto simp: term_of_def\<close>)
  qed
qed

lemma calm_periodic:
  assumes "calm_inv thr n t ds c"
  shows "calm_inv thr n t ds (c\<lparr>soup := soup c \<union> beat (nodes c q)\<rparr>)"
proof -
  have "calm_msg n t x \<and> (x = MBeat t (as_str n) \<longrightarrow> role_of c n = Leader)" if "x \<in> beat (nodes c q)" for x
  proof -
    from that have x: "role (le_state (nodes c q)) = Leader" "x = MBeat (term_of c q) (as_str (le_local_peer_id (nodes c q)))"
      by (auto simp: beat_def le_is_leader_def le_current_term_def term_of_def split: if_splits)
    have "stands thr n t (answered n t ds) (nodes c n)" "q \<noteq> n \<Longrightarrow> follows n t (nodes c q)" using assms by (simp_all add: calm_inv_def)
    then have "q = n \<and> term_of c q = t \<and> le_local_peer_id (nodes c q) = n \<or> term_of c q < t"
      using x(1) by (cases "q = n") (simp_all add: stands_def follows_def term_of_def less_le)
    with x show ?thesis by (auto simp: role_of_def)
  qed
  then have "\<forall>x \<in> soup c \<union> beat (nodes c q). calm_msg n t x" "MBeat t (as_str n) \<in> soup c \<union> beat (nodes c q) \<longleftrightarrow> role_of c n = Leader"
    using assms unfolding calm_inv_def by blast+
  with assms show ?thesis by (simp add: calm_inv_def role_of_def term_of_def del: Un_iff) (simp del: calm_msg.simps)
qed

lemma calm_keeps: "calm k c ds c' \<Longrightarrow> calm_inv (majority_threshold (1 + k n)) n t [] c \<Longrightarrow> calm_inv (majority_threshold (1 + k n)) n t ds c'"
proof (induction rule: calm.induct)
  case (handled ds c' m q)
  then have inv: "calm_inv (majority_threshold (1 + k n)) n t ds c'" by blast
  show ?case
  proof (cases m)
    case (MResp r t' v g)
    show ?thesis
    proof (cases "r = q")
      case False
      then have "calm_inv (majority_threshold (1 + k n)) n t (ds @ [(q, m)]) c'"
        using inv MResp by (auto simp: calm_inv_def)
      with MResp False show ?thesis by simp
    qed (use MResp handled.hyps inv calm_response in simp)
  qed (use handled.hyps inv in \<open>simp_all add: calm_request calm_heartbeat\<close>)
qed (simp_all add: calm_periodic)

text \<open>Where a calm run begins: the node whose timer fires is not behind the others and nobody holds a manually assigned leader.\<close>

definition ready :: "PeerId \<Rightarrow> cluster \<Rightarrow> bool" where
  "ready n c \<longleftrightarrow> auto_election_enabled (le_state (nodes c n)) \<and> term_of c n \<noteq> - 1
   \<and> (\<forall>m. le_local_peer_id (nodes c m) = m \<and> \<not> manual_override (le_state (nodes c m)) \<and> term_of c m \<le> term_of c n)
   \<and> (\<forall>m \<in> soup c. msg_term m \<le> term_of c n)"

lemma calm_start:
  assumes "ready n c"
  shows "calm_inv (majority_threshold (1 + k)) n (term_of c n + 1) [] (on_timeout n k c)"
    and "role_of (on_timeout n k c) n = Leader \<or> MReq (term_of c n + 1) (as_str n) \<in> soup (on_timeout n k c)"
proof -
  let ?t = "term_of c n + 1"
  from assms have up: "term_of c n < ?t" using less_plus_one by (auto simp: ready_def)
  have n: "auto_election_enabled (le_state (nodes c n))" "\<not> manual_override (le_state (nodes c n))" "le_local_peer_id (nodes c n) = n" using assms by (simp_all add: ready_def)
  have old: "x \<noteq> MBeat ?t i" if "x \<in> soup c" for x i using assms that up by (auto simp: ready_def)
  obtain req le where e: "start_election k (nodes c n) = (req, le)" by fastforce
  then have le: "stands (majority_threshold (1 + k)) n ?t {} le" and req: "if role (le_state le) = Leader then req = None else req = Some (?t, as_str n)"
    using n by (auto simp: stands_def start_election_def become_leader_inner_def notify_leader_change_def Let_def term_of_def split: if_splits)
  define d where "d = on_timeout n k c"
  have d: "nodes d = (nodes c)(n := le)" "soup d = soup c \<union> (if role (le_state le) = Leader then {MBeat ?t (as_str n)} else {MReq ?t (as_str n)})"
    using req le by (auto simp: d_def on_timeout_def e beat_def stands_def le_is_leader_def le_current_term_def split: if_splits)
  have "calm_msg n ?t x" if "x \<in> soup c" for x
  proof -
    have "msg_term x \<le> term_of c n" using assms that by (simp add: ready_def)
    with up show ?thesis by (cases x) auto
  qed
  then have "\<forall>x \<in> soup d. calm_msg n ?t x" by (simp add: d)
  moreover have "follows n ?t (nodes c m)" for m
  proof -
    have "term_of c m < ?t" "\<not> manual_override (le_state (nodes c m))" using assms up by (auto simp: ready_def intro: le_less_trans)
    then show ?thesis by (auto simp: follows_def term_of_def)
  qed
  moreover have "MBeat ?t (as_str n) \<in> soup d \<longleftrightarrow> role_of d n = Leader" using old by (auto simp: d role_of_def)
  ultimately have "calm_inv (majority_threshold (1 + k)) n ?t [] d"
    using assms le by (simp add: calm_inv_def answered_def d ready_def)
  then show "calm_inv (majority_threshold (1 + k)) n ?t [] (on_timeout n k c)" by (simp add: d_def)
  show "role_of (on_timeout n k c) n = Leader \<or> MReq ?t (as_str n) \<in> soup (on_timeout n k c)"
    using d by (simp add: d_def [symmetric] role_of_def)
qed

lemma calm_outcome:
  assumes "calm_inv thr n t ds c" "answered n t ds \<supseteq> Q" "thr \<le> card (insert n Q)"
  shows "role_of c n = Leader \<and> term_of c n = t \<and> MBeat t (as_str n) \<in> soup c"
proof -
  from assms(1) have n: "stands thr n t (answered n t ds) (nodes c n)" "MBeat t (as_str n) \<in> soup c \<longleftrightarrow> role_of c n = Leader" by (simp_all add: calm_inv_def)
  have "card (insert n Q) \<le> card V" if "finite V" "insert n (answered n t ds) \<subseteq> V" for V using that assms(2) by (intro card_mono) auto
  with n(1) assms(3) have "role_of c n = Leader" by (fastforce simp: stands_def role_of_def)
  with n show ?thesis by (simp add: stands_def term_of_def)
qed

section \<open>Properties\<close>

text \<open>
  C8: Progress of the election. One node's timer fires while no node is ahead of it, and no other timer fires for a while. Whatever is delivered meanwhile, in whatever order and
  mixed with older messages: every node that has handled the request has granted its vote and answered; as soon as the answers of a majority have been handled
  the candidate leads the new term and its heartbeat is out; and every node that has handled the heartbeat follows the new leader in the new term.
\<close>

theorem undisturbed_election:
  assumes "ready n c" "calm k (on_timeout n (k n) c) ds c'" "t = term_of c n + 1"
  shows "(\<forall>m. (m, MReq t (as_str n)) \<in> set ds \<longrightarrow> MResp n t (as_str m) True \<in> soup c')
    \<and> (\<forall>Q. (\<forall>v \<in> Q. (n, MResp n t (as_str v) True) \<in> set ds) \<longrightarrow> majority_threshold (1 + k n) \<le> card (insert n Q) \<longrightarrow>
          le_is_leader (nodes c' n) \<and> le_current_term (nodes c' n) = t \<and> MBeat t (as_str n) \<in> soup c')
    \<and> (\<forall>m. m \<noteq> n \<longrightarrow> (m, MBeat t (as_str n)) \<in> set ds \<longrightarrow>
          le_leader_id (nodes c' m) = Some n \<and> le_role (nodes c' m) = Follower \<and> le_current_term (nodes c' m) = t)"
proof -
  have inv: "calm_inv (majority_threshold (1 + k n)) n t ds c'"
    using calm_keeps [OF assms(2)] calm_start(1) [OF assms(1)] assms(3) by simp
  have "le_is_leader (nodes c' n) \<and> le_current_term (nodes c' n) = t \<and> MBeat t (as_str n) \<in> soup c'"
    if "\<forall>v \<in> Q. (n, MResp n t (as_str v) True) \<in> set ds" "majority_threshold (1 + k n) \<le> card (insert n Q)" for Q
    using calm_outcome [OF inv, of Q] that by (auto simp: answered_def le_is_leader_def le_current_term_def role_of_def term_of_def)
  moreover have "le_leader_id (nodes c' m) = Some n \<and> le_role (nodes c' m) = Follower \<and> le_current_term (nodes c' m) = t"
    if "m \<noteq> n" "(m, MBeat t (as_str n)) \<in> set ds" for m
    using inv that by (simp add: calm_inv_def follows_def le_leader_id_def le_role_def le_current_term_def term_of_def)
  moreover have "MResp n t (as_str m) True \<in> soup c'" if "(m, MReq t (as_str n)) \<in> set ds" for m using inv that by (simp add: calm_inv_def)
  ultimately show ?thesis by blast
qed

text \<open>Three nodes: a asks, b answers, a leads, c hears the heartbeat before it ever sees the request.\<close>

definition calm_trio :: cluster where
  "calm_trio = deliver 2 (PeerId ''c'') (MBeat 1 ''a'') trio_won"

lemma calm_then: "calm k c ds c' \<Longrightarrow> m \<in> soup c' \<Longrightarrow> d = deliver (k q) q m c' \<Longrightarrow> ds' = ds @ [(q, m)] \<Longrightarrow> calm k c ds' d"
  using calm.handled by simp

lemma calm_trio_run:
  "calm (\<lambda>_. 2) trio_start [(PeerId ''b'', MReq 1 ''a''), (PeerId ''a'', MResp (PeerId ''a'') 1 ''b'' True), (PeerId ''c'', MBeat 1 ''a'')] calm_trio"
proof -
  have "calm (\<lambda>_. 2) trio_start [(PeerId ''b'', MReq 1 ''a'')] trio_voted"
    by (rule calm_then [OF calm.still]) (simp_all add: trio_voted_def trio_run)
  then have "calm (\<lambda>_. 2) trio_start [(PeerId ''b'', MReq 1 ''a''), (PeerId ''a'', MResp (PeerId ''a'') 1 ''b'' True)] trio_won"
    by (rule calm_then) (simp_all add: trio_won_def trio_voted_def on_request_def handle_request_vote_def trio_run)
  then show ?thesis
    by (rule calm_then) (simp_all add: calm_trio_def trio_won_def on_response_def handle_vote_response_def trio_voted_def on_request_def handle_request_vote_def trio_run)
qed

theorem undisturbed_election_witness:
  "le_is_leader (nodes calm_trio (PeerId ''a'')) \<and> le_leader_id (nodes calm_trio (PeerId ''c'')) = Some (PeerId ''a'')"
proof -
  let ?i = "cluster_init (\<lambda>_. True) AutoElect"
  have ready: "ready (PeerId ''a'') ?i" by (simp add: ready_def cluster_init_def leader_election_new_def term_of_def)
  have t: "term_of ?i (PeerId ''a'') = 0" by (simp add: cluster_init_def leader_election_new_def term_of_def)
  note out = undisturbed_election [OF ready calm_trio_run [unfolded trio_start_def], of 1]
  have "le_is_leader (nodes calm_trio (PeerId ''a''))"
    using out [THEN conjunct2, THEN conjunct1, rule_format, of "{PeerId ''b''}"] t by (simp add: majority_threshold_def)
  moreover have "le_leader_id (nodes calm_trio (PeerId ''c'')) = Some (PeerId ''a'')" using out t by simp
  ultimately show ?thesis ..
qed

lemma deliver_soup: "soup c \<subseteq> soup (deliver k q m c)"
  by (cases m) (auto simp: on_request_def on_response_def split: prod.split)

lemma calm_more:
  assumes "calm k c ds c'" "\<And>v. v \<in> set vs \<Longrightarrow> f v \<in> soup c'"
  shows "\<exists>c''. calm k c (ds @ map (\<lambda>v. (g v, f v)) vs) c'' \<and> soup c' \<subseteq> soup c''"
  using assms
proof (induction vs arbitrary: ds c')
  case (Cons v vs)
  let ?c = "deliver (k (g v)) (g v) (f v) c'"
  have "calm k c (ds @ [(g v, f v)]) ?c" using Cons.prems by (intro calm.handled) simp_all
  moreover have "soup c' \<subseteq> soup ?c" by (rule deliver_soup)
  ultimately show ?case using Cons.IH [of "ds @ [(g v, f v)]" ?c] Cons.prems(2) by (auto simp: subset_iff)
qed auto

text \<open>
  The election can always be completed: after the timer has fired there is a sequence of deliveries, of messages that have been sent, after which the candidate leads the new term and all other
  members follow it, provided the candidate counts no more peers than there are members.
\<close>

theorem election_completes:
  assumes "ready n c" "finite P" "n \<in> P" "k n < card P"
  shows "\<exists>ds c'. calm k (on_timeout n (k n) c) ds c' \<and> le_is_leader (nodes c' n) \<and> le_current_term (nodes c' n) = term_of c n + 1
    \<and> (\<forall>m \<in> P - {n}. le_leader_id (nodes c' m) = Some n \<and> le_role (nodes c' m) = Follower \<and> le_current_term (nodes c' m) = term_of c n + 1)"
proof -
  let ?t = "term_of c n + 1" and ?c = "on_timeout n (k n) c"
  let ?inv = "calm_inv (majority_threshold (1 + k n)) n ?t"
  obtain ms where ms: "set ms = P" using finite_list [OF assms(2)] by blast
  have inv: "?inv ds c'" if "calm k ?c ds c'" for ds c' using calm_keeps [OF that] calm_start(1) [OF assms(1)] by blast
  obtain ds c' where led: "calm k ?c ds c'" "role_of c' n = Leader"
  proof (cases "role_of ?c n = Leader")
    case False
    then have "MReq ?t (as_str n) \<in> soup ?c" using calm_start(2) [OF assms(1)] by blast
    then obtain c1 where c1: "calm k ?c (map (\<lambda>m. (m, MReq ?t (as_str n))) ms) c1"
      using calm_more [OF calm.still, of ms "\<lambda>_. MReq ?t (as_str n)" ?c k "\<lambda>m. m"] by auto
    then have "MResp n ?t (as_str m) True \<in> soup c1" if "m \<in> P" for m using inv [OF c1] that ms by (auto simp: calm_inv_def)
    then obtain ds' c2 where c2: "calm k ?c (ds' @ map (\<lambda>v. (n, MResp n ?t (as_str v) True)) ms) c2"
      using calm_more [OF c1, of ms "\<lambda>v. MResp n ?t (as_str v) True" "\<lambda>_. n"] ms by auto
    have "P \<subseteq> answered n ?t (ds' @ map (\<lambda>v. (n, MResp n ?t (as_str v) True)) ms)" using ms by (auto simp: answered_def)
    moreover have "majority_threshold (1 + k n) \<le> card (insert n P)" using assms(3,4) by (auto simp: majority_threshold_def insert_absorb)
    ultimately have "role_of c2 n = Leader" using calm_outcome [OF inv [OF c2]] by blast
    with c2 that show ?thesis by blast
  qed (use that calm.still in blast)
  then have "MBeat ?t (as_str n) \<in> soup c'" using inv by (simp add: calm_inv_def)
  then obtain c'' where c'': "calm k ?c (ds @ map (\<lambda>m. (m, MBeat ?t (as_str n))) ms) c''" "soup c' \<subseteq> soup c''"
    using calm_more [OF led(1), of ms "\<lambda>_. MBeat ?t (as_str n)" "\<lambda>m. m"] by auto
  have i: "?inv (ds @ map (\<lambda>m. (m, MBeat ?t (as_str n))) ms) c''" by (rule inv [OF c''(1)])
  then have "le_is_leader (nodes c'' n) \<and> le_current_term (nodes c'' n) = ?t"
    using \<open>MBeat ?t (as_str n) \<in> soup c'\<close> c''(2) by (auto simp: calm_inv_def stands_def role_of_def le_is_leader_def le_current_term_def)
  moreover have "le_leader_id (nodes c'' m) = Some n \<and> le_role (nodes c'' m) = Follower \<and> le_current_term (nodes c'' m) = ?t" if "m \<in> P - {n}" for m
  proof -
    have "m \<noteq> n" "(m, MBeat ?t (as_str n)) \<in> set (ds @ map (\<lambda>m. (m, MBeat ?t (as_str n))) ms)" using that ms by auto
    then show ?thesis using i unfolding calm_inv_def follows_def le_leader_id_def le_role_def le_current_term_def term_of_def by blast
  qed
  ultimately show ?thesis using c''(1) by blast
qed

theorem election_completes_witness:
  "\<exists>ds c'. calm (\<lambda>_. 2) trio_start ds c' \<and> le_is_leader (nodes c' (PeerId ''a'')) \<and>
     le_leader_id (nodes c' (PeerId ''b'')) = Some (PeerId ''a'') \<and> le_leader_id (nodes c' (PeerId ''c'')) = Some (PeerId ''a'')"
proof -
  have "ready (PeerId ''a'') (cluster_init (\<lambda>_. True) AutoElect)" by (simp add: ready_def cluster_init_def leader_election_new_def term_of_def)
  moreover have "PeerId ''a'' \<in> trio" by (simp add: trio_def)
  ultimately show ?thesis
    using election_completes [of "PeerId ''a''" "cluster_init (\<lambda>_. True) AutoElect" trio "\<lambda>_. 2"] unfolding trio_start_def [symmetric]
    by (fastforce simp: trio_def)
qed

end
