(* ===== verification/Ffi.thy ===== *)
theory Ffi
  imports Node Handshake_Protocol
begin

text \<open>
  The C interface (\<^verbatim>\<open>src/ffi.rs\<close>): the process-wide globals, the conversion of C arguments, and every exported function
  with its return value and its effect on the globals. One call is one step: each function takes its locks one after the other.

  A C pointer is \<open>None\<close> when null. A string argument is the memory it points at, read up to the first NUL byte; a data
  argument is the memory it points at, of which \<open>length\<close> bytes are read. A returned string is the handle of an allocation. An \<^verbatim>\<open>i32\<close> that is only
  returned is an \<open>int\<close>; the length argument is a 32-bit word read as a signed number. A body that panics leaves some state behind:
  \<open>fe_panic\<close> is that state, and the function's fallback runs on it.
\<close>

section \<open>Definitions\<close>

type_synonym c_str = "string option"

record ffi_state =
  NETWORK :: "NetworkState option"
  RUNTIME :: bool
  LAST_ERROR :: "(int \<times> string) option"
  LAST_RETURNED_STRING :: "(nat \<times> string) option"
  fs_next :: nat
  fs_connects :: "string list"

definition ffi_init :: ffi_state where
  "ffi_init = \<lparr>NETWORK = None, RUNTIME = False, LAST_ERROR = None, LAST_RETURNED_STRING = None, fs_next = 0, fs_connects = []\<rparr>"

text \<open>What the runtime, the operating system and the mDNS crate answer during a call.\<close>

record ffi_env =
  fe_node :: node_env
  fe_show_addr :: "SocketAddr \<Rightarrow> string"
  fe_runtime :: "string option"
  fe_bound :: "string + SocketAddr"
  fe_daemon :: "string option"
  fe_host :: "string option"
  fe_create :: "ServiceInfo \<Rightarrow> string option"
  fe_register :: "ServiceInfo \<Rightarrow> string option"
  fe_shutdown :: shutdown_env
  fe_panic :: "ffi_state option"

definition set_error :: "int \<Rightarrow> string \<Rightarrow> ffi_state \<Rightarrow> ffi_state" where
  "set_error code msg g = g\<lparr>LAST_ERROR := Some (code, msg)\<rparr>"

definition set_network_error :: "NetworkError \<Rightarrow> ffi_state \<Rightarrow> ffi_state" where
  "set_network_error e g = set_error (error_code e) (error_text e) g"

text \<open>
  \<^verbatim>\<open>return_string\<close> keeps the new string alive and frees the one it replaces: \<open>read_ptr\<close> is what reading
  a returned pointer gives, \<open>None\<close> once its string has been freed.
\<close>

definition return_string :: "string \<Rightarrow> ffi_state \<Rightarrow> nat option \<times> ffi_state" where
  "return_string s g =
     (let c_string = (case cstring_new s of Some c \<Rightarrow> c | None \<Rightarrow> '''') in
      (Some (fs_next g), g\<lparr>LAST_RETURNED_STRING := Some (fs_next g, c_string), fs_next := Suc (fs_next g)\<rparr>))"

definition read_ptr :: "ffi_state \<Rightarrow> nat \<Rightarrow> string option" where
  "read_ptr g p = (case LAST_RETURNED_STRING g of None \<Rightarrow> None | Some (q, s) \<Rightarrow> if p = q then Some s else None)"

text \<open>
  Where \<^verbatim>\<open>str::from_utf8\<close> finds the first malformed sequence, and how long it is; no length means that the input ends inside
  a sequence.
\<close>

fun utf8_error :: "nat \<Rightarrow> nat list \<Rightarrow> (nat \<times> nat option) option" where
  "utf8_error i [] = None"
| "utf8_error i (b0 # r) =
     (if b0 < 0x80 then utf8_error (i + 1) r
      else if 0xC2 \<le> b0 \<and> b0 \<le> 0xDF then
        (case r of
           [] \<Rightarrow> Some (i, None)
         | b1 # r1 \<Rightarrow> if continuation b1 then utf8_error (i + 2) r1 else Some (i, Some 1))
      else if 0xE0 \<le> b0 \<and> b0 \<le> 0xEF then
        (case r of
           [] \<Rightarrow> Some (i, None)
         | b1 # r1 \<Rightarrow>
             if \<not> second_ok b0 b1 then Some (i, Some 1)
             else (case r1 of
                     [] \<Rightarrow> Some (i, None)
                   | b2 # r2 \<Rightarrow> if continuation b2 then utf8_error (i + 3) r2 else Some (i, Some 2)))
      else if 0xF0 \<le> b0 \<and> b0 \<le> 0xF4 then
        (case r of
           [] \<Rightarrow> Some (i, None)
         | b1 # r1 \<Rightarrow>
             if \<not> second_ok b0 b1 then Some (i, Some 1)
             else (case r1 of
                     [] \<Rightarrow> Some (i, None)
                   | b2 # r2 \<Rightarrow>
                       if \<not> continuation b2 then Some (i, Some 2)
                       else (case r2 of
                               [] \<Rightarrow> Some (i, None)
                             | b3 # r3 \<Rightarrow> if continuation b3 then utf8_error (i + 4) r3 else Some (i, Some 3))))
      else Some (i, Some 1))"

definition utf8_error_text :: "nat \<times> nat option \<Rightarrow> string" where
  "utf8_error_text e =
     (case e of
        (i, Some n) \<Rightarrow> ''invalid utf-8 sequence of '' @ show_nat n @ '' bytes from index '' @ show_nat i
      | (i, None) \<Rightarrow> ''incomplete utf-8 byte sequence from index '' @ show_nat i)"

definition c_str_to_string :: "c_str \<Rightarrow> NetworkError + string" where
  "c_str_to_string ptr =
     (case ptr of
        None \<Rightarrow> Inl (InvalidArgument ''null string pointer'')
      | Some mem \<Rightarrow>
          let s = takeWhile (\<lambda>c. c \<noteq> CHR 0x00) mem in
          (case utf8_error 0 (map of_char s) of
             None \<Rightarrow> Inr s
           | Some e \<Rightarrow> Inl (InvalidArgument (''invalid UTF-8: '' @ utf8_error_text e))))"

text \<open>
  \<^verbatim>\<open>with_network\<close> runs its argument on the network under the lock. The argument gets a shared reference, whose
  managers it may change through their own locks.
\<close>

definition with_network ::
  "(NetworkState \<Rightarrow> (NetworkError + 'r) \<times> NetworkState) \<Rightarrow> ffi_state \<Rightarrow> (NetworkError + 'r) \<times> ffi_state" where
  "with_network f g =
     (case NETWORK g of
        None \<Rightarrow> (Inl NotInitialized, g)
      | Some ns \<Rightarrow> (case f ns of (r, ns') \<Rightarrow> (r, g\<lparr>NETWORK := Some ns'\<rparr>)))"

text \<open>The result code of a call that reports its error, and the two ways a panic ends a call.\<close>

definition report :: "(NetworkError + unit) \<times> ffi_state \<Rightarrow> int \<times> ffi_state" where
  "report rg = (case rg of (Inr _, g) \<Rightarrow> (OK, g) | (Inl e, g) \<Rightarrow> (error_code e, set_network_error e g))"

definition catch_unwind :: "ffi_env \<Rightarrow> (ffi_state \<Rightarrow> 'r \<times> ffi_state) \<Rightarrow> (ffi_state \<Rightarrow> 'r \<times> ffi_state) \<Rightarrow> ffi_state \<Rightarrow> 'r \<times> ffi_state" where
  "catch_unwind env body fallback g = (case fe_panic env of None \<Rightarrow> body g | Some g' \<Rightarrow> fallback g')"

definition panicked :: "string \<Rightarrow> ffi_state \<Rightarrow> int \<times> ffi_state" where
  "panicked name g = (INTERNAL_ERROR, set_error INTERNAL_ERROR (''panic in '' @ name) g)"

definition guarded :: "ffi_env \<Rightarrow> string \<Rightarrow> (ffi_state \<Rightarrow> int \<times> ffi_state) \<Rightarrow> ffi_state \<Rightarrow> int \<times> ffi_state" where
  "guarded env name body = catch_unwind env body (panicked name)"

text \<open>The C view of the configuration, field by field in declaration order.\<close>

record NetworkConfigFFI =
  ffi_reconnect_max_ms :: u32
  ffi_compression_threshold :: u32
  ffi_max_message_size :: u32
  ffi_heartbeat_interval_ms :: u16
  ffi_election_timeout_min_ms :: u16
  ffi_election_timeout_max_ms :: u16
  ffi_reconnect_initial_ms :: u16
  ffi_handshake_timeout_ms :: u16
  ffi_write_timeout_ms :: u16
  ffi_send_queue_capacity :: u16
  ffi_incoming_queue_capacity :: u16
  ffi_max_connections :: u16
  ffi_keepalive_time_secs :: u16
  ffi_keepalive_interval_secs :: u16
  ffi_mdns_port :: u16
  ffi_heartbeat_timeout_multiplier :: u8
  ffi_keepalive_retries :: u8
  ffi_centralized_auto_forward :: u8
  ffi_auto_election_enabled :: u8
  ffi_manual_override_recovery :: u8
  ffi_tcp_nodelay :: u8
  ffi_auto_reconnect_enabled :: u8
  ffi_reconnect_max_retries :: u8

definition config_from_ffi :: "NetworkConfigFFI \<Rightarrow> NetworkConfig" where
  "config_from_ffi f =
     \<lparr>reconnect_max_ms = ffi_reconnect_max_ms f,
      cfg_compression_threshold = ffi_compression_threshold f,
      cfg_max_message_size = ffi_max_message_size f,
      heartbeat_interval_ms = ffi_heartbeat_interval_ms f,
      election_timeout_min_ms = ffi_election_timeout_min_ms f,
      election_timeout_max_ms = ffi_election_timeout_max_ms f,
      reconnect_initial_ms = ffi_reconnect_initial_ms f,
      handshake_timeout_ms = ffi_handshake_timeout_ms f,
      write_timeout_ms = ffi_write_timeout_ms f,
      send_queue_capacity = unat (ffi_send_queue_capacity f),
      incoming_queue_capacity = unat (ffi_incoming_queue_capacity f),
      max_connections = unat (ffi_max_connections f),
      keepalive_time_secs = ffi_keepalive_time_secs f,
      keepalive_interval_secs = ffi_keepalive_interval_secs f,
      mdns_port = ffi_mdns_port f,
      heartbeat_timeout_multiplier = ffi_heartbeat_timeout_multiplier f,
      keepalive_retries = ffi_keepalive_retries f,
      cfg_centralized_auto_forward = (ffi_centralized_auto_forward f \<noteq> 0),
      cfg_auto_election_enabled = (ffi_auto_election_enabled f \<noteq> 0),
      cfg_manual_override_recovery = recovery_from_u8 (ffi_manual_override_recovery f),
      tcp_nodelay = (ffi_tcp_nodelay f \<noteq> 0),
      cfg_auto_reconnect_enabled = (ffi_auto_reconnect_enabled f \<noteq> 0),
      reconnect_max_retries = ffi_reconnect_max_retries f\<rparr>"

text \<open>
  \<^verbatim>\<open>repr(C)\<close>: each field at the next multiple of its alignment, the size rounded up to the largest alignment. The fields are given by their widths in
  bytes; a primitive integer is aligned to its width. The bytes of a field are least significant first.
\<close>

definition align_up :: "nat \<Rightarrow> nat \<Rightarrow> nat" where
  "align_up a n = (n + (a - 1)) div a * a"

fun repr_c_offsets :: "nat \<Rightarrow> nat list \<Rightarrow> nat list \<times> nat" where
  "repr_c_offsets off [] = ([], off)"
| "repr_c_offsets off (w # ws) = (case repr_c_offsets (align_up w off + w) ws of (os, e) \<Rightarrow> (align_up w off # os, e))"

definition repr_c_layout :: "nat list \<Rightarrow> nat list \<times> nat" where
  "repr_c_layout ws = (case repr_c_offsets 0 ws of (os, e) \<Rightarrow> (os, align_up (Max (set ws)) e))"

definition config_ffi_widths :: "nat list" where
  "config_ffi_widths = [4, 4, 4, 2, 2, 2, 2, 2, 2, 2, 2, 2, 2, 2, 2, 1, 1, 1, 1, 1, 1, 1, 1]"

definition config_ffi_values :: "NetworkConfigFFI \<Rightarrow> nat list" where
  "config_ffi_values f =
     [unat (ffi_reconnect_max_ms f), unat (ffi_compression_threshold f), unat (ffi_max_message_size f),
      unat (ffi_heartbeat_interval_ms f), unat (ffi_election_timeout_min_ms f), unat (ffi_election_timeout_max_ms f),
      unat (ffi_reconnect_initial_ms f), unat (ffi_handshake_timeout_ms f), unat (ffi_write_timeout_ms f),
      unat (ffi_send_queue_capacity f), unat (ffi_incoming_queue_capacity f), unat (ffi_max_connections f),
      unat (ffi_keepalive_time_secs f), unat (ffi_keepalive_interval_secs f), unat (ffi_mdns_port f),
      unat (ffi_heartbeat_timeout_multiplier f), unat (ffi_keepalive_retries f), unat (ffi_centralized_auto_forward f),
      unat (ffi_auto_election_enabled f), unat (ffi_manual_override_recovery f), unat (ffi_tcp_nodelay f),
      unat (ffi_auto_reconnect_enabled f), unat (ffi_reconnect_max_retries f)]"

fun le_bytes :: "nat \<Rightarrow> nat \<Rightarrow> nat list" where
  "le_bytes 0 v = []"
| "le_bytes (Suc n) v = v mod 256 # le_bytes n (v div 256)"

fun le_value :: "nat list \<Rightarrow> nat" where
  "le_value [] = 0"
| "le_value (b # bs) = b + 256 * le_value bs"

definition packed :: "nat list \<Rightarrow> nat list \<Rightarrow> nat list" where
  "packed ws vs = concat (map2 le_bytes ws vs)"

definition config_ffi_image :: "NetworkConfigFFI \<Rightarrow> nat list" where
  "config_ffi_image f = packed config_ffi_widths (config_ffi_values f)"

text \<open>
  Initialization. The check for an existing network and its installation are two separate sections under the lock:
  \<open>initialize_checked\<close> is everything after the check.
\<close>

definition initialize_checked :: "ffi_env \<Rightarrow> c_str \<Rightarrow> c_str \<Rightarrow> NetworkConfig option \<Rightarrow> ffi_state \<Rightarrow> int \<times> ffi_state" where
  "initialize_checked env peer_id_ptr session_id_ptr config g =
     (case c_str_to_string peer_id_ptr of
        Inl e \<Rightarrow> (error_code e, set_network_error e g)
      | Inr peer_id \<Rightarrow>
     (case c_str_to_string session_id_ptr of
        Inl e \<Rightarrow> (error_code e, set_network_error e g)
      | Inr session_id \<Rightarrow>
          let config = (case config of Some c \<Rightarrow> c | None \<Rightarrow> config_default) in
     (case validate config of
        Inl e \<Rightarrow> (error_code e, set_network_error e g)
      | Inr _ \<Rightarrow>
     (case fe_runtime env of
        Some msg \<Rightarrow> let e = Internal (''failed to create runtime: '' @ msg) in (error_code e, set_network_error e g)
      | None \<Rightarrow>
     (case node_new peer_id session_id config (fe_bound env) (fe_daemon env) (fe_host env) (fe_create env) (fe_register env) of
        Inl e \<Rightarrow> (error_code e, set_network_error e g)
      | Inr state \<Rightarrow> (OK, g\<lparr>NETWORK := Some state, RUNTIME := True\<rparr>))))))"

definition initialize_network_inner :: "ffi_env \<Rightarrow> c_str \<Rightarrow> c_str \<Rightarrow> NetworkConfig option \<Rightarrow> ffi_state \<Rightarrow> int \<times> ffi_state" where
  "initialize_network_inner env peer_id_ptr session_id_ptr config g =
     (if NETWORK g \<noteq> None then (ALREADY_INITIALIZED, set_error ALREADY_INITIALIZED ''already initialized'' g)
      else initialize_checked env peer_id_ptr session_id_ptr config g)"

definition InitializeNetwork :: "ffi_env \<Rightarrow> c_str \<Rightarrow> c_str \<Rightarrow> ffi_state \<Rightarrow> int \<times> ffi_state" where
  "InitializeNetwork env peer_id session_id =
     guarded env ''InitializeNetwork'' (initialize_network_inner env peer_id session_id None)"

definition InitializeNetworkWithConfig ::
  "ffi_env \<Rightarrow> c_str \<Rightarrow> c_str \<Rightarrow> NetworkConfigFFI option \<Rightarrow> ffi_state \<Rightarrow> int \<times> ffi_state" where
  "InitializeNetworkWithConfig env peer_id session_id config =
     guarded env ''InitializeNetworkWithConfig'' (\<lambda>g.
       case config of
         None \<Rightarrow> (INVALID_ARGUMENT, set_error INVALID_ARGUMENT ''null config pointer'' g)
       | Some f \<Rightarrow> initialize_network_inner env peer_id session_id (Some (config_from_ffi f)) g)"

text \<open>
  Shutdown takes the network out of its global before it waits. A shutdown that would still be waiting is \<open>None\<close>. The shut-down state is
  dropped with the call; it is part of the result so that its effects can be stated.
\<close>

definition ShutdownNetwork :: "ffi_env \<Rightarrow> ffi_state \<Rightarrow> (int \<times> NetworkState option \<times> ffi_state) option" where
  "ShutdownNetwork env g =
     (case fe_panic env of
        Some g' \<Rightarrow> (case panicked ''ShutdownNetwork'' g' of (code, g'') \<Rightarrow> Some (code, None, g''))
      | None \<Rightarrow>
     (case NETWORK g of
        None \<Rightarrow> Some (NOT_INITIALIZED, None, set_error NOT_INITIALIZED ''not initialized'' g)
      | Some state \<Rightarrow>
          let g1 = g\<lparr>NETWORK := None\<rparr> in
          if RUNTIME g1 then
            map_option (\<lambda>state'. (OK, Some state', g1\<lparr>RUNTIME := False\<rparr>)) (node_shutdown (fe_node env) (fe_shutdown env) state)
          else Some (OK, None, g1)))"

definition IsNetworkInitialized :: "ffi_env \<Rightarrow> ffi_state \<Rightarrow> u8 \<times> ffi_state" where
  "IsNetworkInitialized env = catch_unwind env (\<lambda>g. (u8_from_bool (NETWORK g \<noteq> None), g)) (Pair 0)"

text \<open>The queries: a flag, a number or a string read from the network, and a default without one.\<close>

definition query :: "(NetworkState \<Rightarrow> 'r) \<Rightarrow> 'r \<Rightarrow> ffi_state \<Rightarrow> 'r" where
  "query f d g = (case fst (with_network (\<lambda>ns. (Inr (f ns), ns)) g) of Inr r \<Rightarrow> r | Inl _ \<Rightarrow> d)"

definition query_flag :: "ffi_env \<Rightarrow> (NetworkState \<Rightarrow> bool) \<Rightarrow> ffi_state \<Rightarrow> u8 \<times> ffi_state" where
  "query_flag env f = catch_unwind env (\<lambda>g. (query (\<lambda>ns. u8_from_bool (f ns)) 0 g, g)) (Pair 0)"

definition query_string :: "ffi_env \<Rightarrow> (NetworkState \<Rightarrow> string) \<Rightarrow> ffi_state \<Rightarrow> nat option \<times> ffi_state" where
  "query_string env f = catch_unwind env
     (\<lambda>g. case query (\<lambda>ns. Some (f ns)) None g of Some s \<Rightarrow> return_string s g | None \<Rightarrow> (None, g)) (Pair None)"

definition IsMdnsActive :: "ffi_env \<Rightarrow> ffi_state \<Rightarrow> u8 \<times> ffi_state" where
  "IsMdnsActive env = query_flag env is_mdns_active"

definition GetLastErrorCode :: "ffi_env \<Rightarrow> ffi_state \<Rightarrow> int \<times> ffi_state" where
  "GetLastErrorCode env = catch_unwind env
     (\<lambda>g. (case LAST_ERROR g of Some (code, _) \<Rightarrow> code | None \<Rightarrow> OK, g)) (Pair INTERNAL_ERROR)"

definition GetLastErrorMessage :: "ffi_env \<Rightarrow> ffi_state \<Rightarrow> nat option \<times> ffi_state" where
  "GetLastErrorMessage env = catch_unwind env
     (\<lambda>g. return_string (case LAST_ERROR g of Some (_, msg) \<Rightarrow> msg | None \<Rightarrow> '''') g) (Pair None)"

text \<open>
  \<^verbatim>\<open>ConnectToPeer\<close> starts a task and returns; \<open>fs_connects\<close> lists the addresses of the tasks started. The task reports what
  \<^verbatim>\<open>connect_to\<close> gave.
\<close>

definition ConnectToPeer :: "ffi_env \<Rightarrow> c_str \<Rightarrow> ffi_state \<Rightarrow> int \<times> ffi_state" where
  "ConnectToPeer env addr = guarded env ''ConnectToPeer'' (\<lambda>g.
     case c_str_to_string addr of
       Inl e \<Rightarrow> (error_code e, set_network_error e g)
     | Inr addr_str \<Rightarrow>
        (case NETWORK g of
           None \<Rightarrow> (NOT_INITIALIZED, set_network_error NotInitialized g)
         | Some _ \<Rightarrow> (OK, if RUNTIME g then g\<lparr>fs_connects := fs_connects g @ [addr_str]\<rparr> else g)))"

definition connect_task_result :: "string \<Rightarrow> NetworkError + PeerId \<Rightarrow> CallbackEvent" where
  "connect_task_result addr r =
     (case r of
        Inr _ \<Rightarrow> ConnectionResult addr True OK
      | Inl e \<Rightarrow>
          if is_already_connected e then ConnectionResult addr True ALREADY_CONNECTED
          else ConnectionResult addr False (error_code e))"

definition connect_task ::
  "ext \<Rightarrow> addr_text \<Rightarrow> conn_env \<Rightarrow> (CallbackEvent \<Rightarrow> try_send_result) \<Rightarrow> string \<Rightarrow> NetworkState \<Rightarrow> NetworkState" where
  "connect_task x s env out addr ns =
     (case connect_to x s env addr (ns_transport ns) of (r, _, tm) \<Rightarrow>
        let ev = connect_task_result addr r in
        ns\<lparr>ns_transport := tm, ns_callback := send_event (out ev) ev (ns_callback ns)\<rparr>)"

definition DisconnectPeer :: "ffi_env \<Rightarrow> c_str \<Rightarrow> ffi_state \<Rightarrow> int \<times> ffi_state" where
  "DisconnectPeer env peer_id = guarded env ''DisconnectPeer'' (\<lambda>g.
     case c_str_to_string peer_id of
       Inl e \<Rightarrow> (error_code e, set_network_error e g)
     | Inr pid_str \<Rightarrow>
         let pid = PeerId pid_str in
         report (with_network (\<lambda>ns.
           case disconnect_peer (ne_ext (fe_node env)) (ne_out (fe_node env)) pid (ns_transport ns) of
             (Inl e, tm) \<Rightarrow> (Inl e, ns\<lparr>ns_transport := tm\<rparr>)
           | (Inr _, tm) \<Rightarrow> (Inr (), ns\<lparr>ns_transport := tm, ns_membership := remove_peer pid (ns_membership ns)\<rparr>)) g))"

definition GetLocalAddr :: "ffi_env \<Rightarrow> ffi_state \<Rightarrow> nat option \<times> ffi_state" where
  "GetLocalAddr env = query_string env (\<lambda>ns. fe_show_addr env (tm_listener_addr (ns_transport ns)))"

definition GetLocalPeerId :: "ffi_env \<Rightarrow> ffi_state \<Rightarrow> nat option \<times> ffi_state" where
  "GetLocalPeerId env = query_string env (\<lambda>ns. as_str (ns_local_peer_id ns))"

definition GetSessionId :: "ffi_env \<Rightarrow> ffi_state \<Rightarrow> nat option \<times> ffi_state" where
  "GetSessionId env = query_string env ns_session_id"

text \<open>\<^verbatim>\<open>as i32\<close> keeps the low 32 bits and reads them as a signed number.\<close>

definition as_i32_nat :: "nat \<Rightarrow> int" where
  "as_i32_nat n = sint (word_of_nat n :: 32 word)"

definition GetPeerCount :: "ffi_env \<Rightarrow> ffi_state \<Rightarrow> int \<times> ffi_state" where
  "GetPeerCount env = guarded env ''GetPeerCount''
     (\<lambda>g. (query (\<lambda>ns. as_i32_nat (get_connected_peer_count (ns_membership ns))) (-1) g, g))"

fun join_lines :: "string list \<Rightarrow> string" where
  "join_lines [] = ''''"
| "join_lines [s] = s"
| "join_lines (s # ss) = s @ [CHR 0x0A] @ join_lines ss"

definition GetPeerList :: "ffi_env \<Rightarrow> ffi_state \<Rightarrow> nat option \<times> ffi_state" where
  "GetPeerList env = query_string env (\<lambda>ns. join_lines (map as_str (get_connected_peers (ns_membership ns))))"

definition peer_query :: "ffi_env \<Rightarrow> string \<Rightarrow> (PeerId \<Rightarrow> NetworkState \<Rightarrow> int) \<Rightarrow> c_str \<Rightarrow> ffi_state \<Rightarrow> int \<times> ffi_state" where
  "peer_query env name f peer_id = guarded env name (\<lambda>g.
     (case c_str_to_string peer_id of Inl _ \<Rightarrow> -1 | Inr pid_str \<Rightarrow> query (f (PeerId pid_str)) (-1) g, g))"

definition GetPeerRTT :: "ffi_env \<Rightarrow> c_str \<Rightarrow> ffi_state \<Rightarrow> int \<times> ffi_state" where
  "GetPeerRTT env = peer_query env ''GetPeerRTT''
     (\<lambda>pid ns. case get_peer_rtt (ns_membership ns) pid of Some r \<Rightarrow> sint r | None \<Rightarrow> -1)"

definition GetPeerStatus :: "ffi_env \<Rightarrow> c_str \<Rightarrow> ffi_state \<Rightarrow> int \<times> ffi_state" where
  "GetPeerStatus env = peer_query env ''GetPeerStatus''
     (\<lambda>pid ns. case get_peer_status (ns_membership ns) pid of Some s \<Rightarrow> as_i32 s | None \<Rightarrow> -1)"

definition SetLeader :: "ffi_env \<Rightarrow> c_str \<Rightarrow> ffi_state \<Rightarrow> int \<times> ffi_state" where
  "SetLeader env peer_id = guarded env ''SetLeader'' (\<lambda>g.
     case c_str_to_string peer_id of
       Inl e \<Rightarrow> (error_code e, set_network_error e g)
     | Inr pid_str \<Rightarrow>
         report (with_network (\<lambda>ns.
           case set_leader (PeerId pid_str) (ns_leader ns) of ((trm, leader, assigner), le) \<Rightarrow>
             let ns1 = ns\<lparr>ns_leader := le\<rparr> in
             (case encode_internal (ne_ext (fe_node env)) (LeaderAssign trm leader assigner) (cfg_max_message_size (ns_config ns)) of
                Inl e \<Rightarrow> (Inl e, ns1)
              | Inr p \<Rightarrow> (Inr (), ns1\<lparr>ns_transport := snd (broadcast (ne_out (fe_node env)) p None (ns_transport ns1))\<rparr>))) g))"

text \<open>The setters that cannot fail on a network.\<close>

definition setter :: "ffi_env \<Rightarrow> string \<Rightarrow> (NetworkState \<Rightarrow> NetworkState) \<Rightarrow> ffi_state \<Rightarrow> int \<times> ffi_state" where
  "setter env name f = guarded env name (\<lambda>g. report (with_network (\<lambda>ns. (Inr (), f ns)) g))"

definition EnableAutoLeaderElection :: "ffi_env \<Rightarrow> u8 \<Rightarrow> ffi_state \<Rightarrow> int \<times> ffi_state" where
  "EnableAutoLeaderElection env enable = setter env ''EnableAutoLeaderElection''
     (\<lambda>ns. ns\<lparr>ns_leader := enable_auto_election (enable \<noteq> 0) (ns_leader ns)\<rparr>)"

definition GetCurrentLeader :: "ffi_env \<Rightarrow> ffi_state \<Rightarrow> nat option \<times> ffi_state" where
  "GetCurrentLeader env = query_string env (\<lambda>ns. case le_leader_id (ns_leader ns) of Some p \<Rightarrow> as_str p | None \<Rightarrow> '''')"

definition IsLeader :: "ffi_env \<Rightarrow> ffi_state \<Rightarrow> u8 \<times> ffi_state" where
  "IsLeader env = query_flag env (\<lambda>ns. le_is_leader (ns_leader ns))"

definition SetCentralizedMode :: "ffi_env \<Rightarrow> u8 \<Rightarrow> ffi_state \<Rightarrow> int \<times> ffi_state" where
  "SetCentralizedMode env enable = setter env ''SetCentralizedMode''
     (\<lambda>ns. ns\<lparr>ns_router := set_centralized (enable \<noteq> 0) (ns_router ns)\<rparr>)"

definition IsCentralizedMode :: "ffi_env \<Rightarrow> ffi_state \<Rightarrow> u8 \<times> ffi_state" where
  "IsCentralizedMode env = query_flag env (\<lambda>ns. is_centralized (ns_router ns))"

definition SetCentralizedAutoForward :: "ffi_env \<Rightarrow> u8 \<Rightarrow> ffi_state \<Rightarrow> int \<times> ffi_state" where
  "SetCentralizedAutoForward env enable = setter env ''SetCentralizedAutoForward''
     (\<lambda>ns. ns\<lparr>ns_router := set_auto_forward (enable \<noteq> 0) (ns_router ns)\<rparr>)"

definition IsCentralizedAutoForward :: "ffi_env \<Rightarrow> ffi_state \<Rightarrow> u8 \<times> ffi_state" where
  "IsCentralizedAutoForward env = query_flag env (\<lambda>ns. is_auto_forward (ns_router ns))"

definition SetCompressionThreshold :: "ffi_env \<Rightarrow> u32 \<Rightarrow> ffi_state \<Rightarrow> int \<times> ffi_state" where
  "SetCompressionThreshold env threshold = setter env ''SetCompressionThreshold''
     (\<lambda>ns. ns\<lparr>ns_router := set_compression_threshold threshold (ns_router ns)\<rparr>)"

text \<open>
  The sending functions share the check of the data pointer, the slice of \<open>length\<close> bytes, and the size limit of the network, which is
  checked once there is a network.
\<close>

type_synonym router_call = "SessionRouter \<Rightarrow> LeaderElection \<Rightarrow> TransportManager \<Rightarrow> (NetworkError + unit) \<times> TransportManager"

definition slice_from_raw_parts :: "bytes option \<Rightarrow> u32 \<Rightarrow> bytes option" where
  "slice_from_raw_parts data len = (case data of
     None \<Rightarrow> None
   | Some mem \<Rightarrow> if sint len < 0 then None else Some (take (unat len) mem))"

definition bad_data :: "ffi_state \<Rightarrow> int \<times> ffi_state" where
  "bad_data g = (INVALID_ARGUMENT, set_error INVALID_ARGUMENT ''invalid data pointer or length'' g)"

definition route_checked :: "u32 \<Rightarrow> router_call \<Rightarrow> ffi_state \<Rightarrow> int \<times> ffi_state" where
  "route_checked len call g =
     report (with_network (\<lambda>ns.
       if len > cfg_max_message_size (ns_config ns) then (Inl (InvalidArgument ''message exceeds max_message_size''), ns)
       else (case call (ns_router ns) (ns_leader ns) (ns_transport ns) of (r, tm) \<Rightarrow> (r, ns\<lparr>ns_transport := tm\<rparr>))) g)"

definition BroadcastMessage :: "ffi_env \<Rightarrow> bytes option \<Rightarrow> u32 \<Rightarrow> u16 \<Rightarrow> u8 \<Rightarrow> ffi_state \<Rightarrow> int \<times> ffi_state" where
  "BroadcastMessage env data len mt flags = guarded env ''BroadcastMessage'' (\<lambda>g.
     case slice_from_raw_parts data len of
       None \<Rightarrow> bad_data g
     | Some bs \<Rightarrow> route_checked len (\<lambda>r le.
         route_message (ne_ext (fe_node env)) (ne_out (fe_node env)) r le Broadcast mt bs flags) g)"

definition SendToPeer :: "ffi_env \<Rightarrow> c_str \<Rightarrow> bytes option \<Rightarrow> u32 \<Rightarrow> u16 \<Rightarrow> u8 \<Rightarrow> ffi_state \<Rightarrow> int \<times> ffi_state" where
  "SendToPeer env target data len mt flags = guarded env ''SendToPeer'' (\<lambda>g.
     case c_str_to_string target of
       Inl e \<Rightarrow> (error_code e, set_network_error e g)
     | Inr target_str \<Rightarrow>
        (case slice_from_raw_parts data len of
           None \<Rightarrow> bad_data g
         | Some bs \<Rightarrow> route_checked len (\<lambda>r le.
             route_message (ne_ext (fe_node env)) (ne_out (fe_node env)) r le (ToPeer (PeerId target_str)) mt bs flags) g))"

definition SendToLeader :: "ffi_env \<Rightarrow> bytes option \<Rightarrow> u32 \<Rightarrow> u16 \<Rightarrow> u8 \<Rightarrow> ffi_state \<Rightarrow> int \<times> ffi_state" where
  "SendToLeader env data len mt flags = guarded env ''SendToLeader'' (\<lambda>g.
     case slice_from_raw_parts data len of
       None \<Rightarrow> bad_data g
     | Some bs \<Rightarrow> route_checked len (\<lambda>r le.
         route_message (ne_ext (fe_node env)) (ne_out (fe_node env)) r le ToLeader mt bs flags) g)"

definition SendFromLeader :: "ffi_env \<Rightarrow> bytes option \<Rightarrow> u32 \<Rightarrow> u16 \<Rightarrow> u8 \<Rightarrow> ffi_state \<Rightarrow> int \<times> ffi_state" where
  "SendFromLeader env data len mt flags = guarded env ''SendFromLeader'' (\<lambda>g.
     case slice_from_raw_parts data len of
       None \<Rightarrow> bad_data g
     | Some bs \<Rightarrow> route_checked len (\<lambda>r le.
         send_from_leader (ne_ext (fe_node env)) (ne_out (fe_node env)) r le mt bs flags) g)"

definition ForwardMessage :: "ffi_env \<Rightarrow> c_str \<Rightarrow> c_str \<Rightarrow> bytes option \<Rightarrow> u32 \<Rightarrow> u16 \<Rightarrow> u8 \<Rightarrow> ffi_state \<Rightarrow> int \<times> ffi_state" where
  "ForwardMessage env from_ptr target data len mt flags = guarded env ''ForwardMessage'' (\<lambda>g.
     case c_str_to_string from_ptr of
       Inl e \<Rightarrow> (error_code e, set_network_error e g)
     | Inr from_str \<Rightarrow>
        (case slice_from_raw_parts data len of
           None \<Rightarrow> bad_data g
         | Some bs \<Rightarrow>
             let fwd_target = (case target of
                   None \<Rightarrow> Inr FwdBroadcast
                 | Some _ \<Rightarrow> try_bind (c_str_to_string target) (\<lambda>s. Inr (FwdToPeer (PeerId s)))) in
             (case fwd_target of
                Inl e \<Rightarrow> (error_code e, set_network_error e g)
              | Inr t \<Rightarrow> route_checked len (\<lambda>r le.
                  forward_message (ne_ext (fe_node env)) (ne_out (fe_node env)) r le (PeerId from_str) t mt flags bs) g)))"

definition RegisterReceiveCallback :: "ffi_env \<Rightarrow> nat option \<Rightarrow> ffi_state \<Rightarrow> int \<times> ffi_state" where
  "RegisterReceiveCallback env cb = setter env ''RegisterReceiveCallback''
     (\<lambda>ns. ns\<lparr>ns_callback := register_receive_callback cb (ns_callback ns)\<rparr>)"

definition RegisterLeaderChangedCallback :: "ffi_env \<Rightarrow> nat option \<Rightarrow> ffi_state \<Rightarrow> int \<times> ffi_state" where
  "RegisterLeaderChangedCallback env cb = setter env ''RegisterLeaderChangedCallback''
     (\<lambda>ns. ns\<lparr>ns_callback := register_leader_changed_callback cb (ns_callback ns)\<rparr>)"

definition RegisterPeerStatusCallback :: "ffi_env \<Rightarrow> nat option \<Rightarrow> ffi_state \<Rightarrow> int \<times> ffi_state" where
  "RegisterPeerStatusCallback env cb = setter env ''RegisterPeerStatusCallback''
     (\<lambda>ns. ns\<lparr>ns_callback := register_peer_status_callback cb (ns_callback ns)\<rparr>)"

definition RegisterConnectionResultCallback :: "ffi_env \<Rightarrow> nat option \<Rightarrow> ffi_state \<Rightarrow> int \<times> ffi_state" where
  "RegisterConnectionResultCallback env cb = setter env ''RegisterConnectionResultCallback''
     (\<lambda>ns. ns\<lparr>ns_callback := register_connection_result_callback cb (ns_callback ns)\<rparr>)"

definition RegisterReconnectCallback :: "ffi_env \<Rightarrow> nat option \<Rightarrow> ffi_state \<Rightarrow> int \<times> ffi_state" where
  "RegisterReconnectCallback env cb = setter env ''RegisterReconnectCallback''
     (\<lambda>ns. ns\<lparr>ns_callback := register_reconnect_callback cb (ns_callback ns)\<rparr>)"

definition SetAutoReconnect :: "ffi_env \<Rightarrow> u8 \<Rightarrow> ffi_state \<Rightarrow> int \<times> ffi_state" where
  "SetAutoReconnect env enable = setter env ''SetAutoReconnect''
     (\<lambda>ns. ns\<lparr>ns_transport := set_auto_reconnect (enable \<noteq> 0) (ns_transport ns)\<rparr>)"

definition IsAutoReconnectEnabled :: "ffi_env \<Rightarrow> ffi_state \<Rightarrow> u8 \<times> ffi_state" where
  "IsAutoReconnectEnabled env = query_flag env (\<lambda>ns. is_auto_reconnect_enabled (ns_transport ns))"

text \<open>\<^verbatim>\<open>EnableLogging\<close> installs a log subscriber, which is no part of the model's state.\<close>

definition EnableLogging :: "ffi_env \<Rightarrow> u8 \<Rightarrow> ffi_state \<Rightarrow> int \<times> ffi_state" where
  "EnableLogging env enable = guarded env ''EnableLogging'' (Pair OK)"

section \<open>Calls and steps\<close>

text \<open>The functions that return a result code, and those that return a string.\<close>

datatype ffi_command =
    CInit c_str c_str
  | CInitConfig c_str c_str "NetworkConfigFFI option"
  | CConnect c_str
  | CDisconnect c_str
  | CSetLeader c_str
  | CEnableAuto u8
  | CSetCentralized u8
  | CSetAutoForward u8
  | CSetCompression u32
  | CBroadcast "bytes option" u32 u16 u8
  | CSendToPeer c_str "bytes option" u32 u16 u8
  | CSendToLeader "bytes option" u32 u16 u8
  | CSendFromLeader "bytes option" u32 u16 u8
  | CForward c_str c_str "bytes option" u32 u16 u8
  | CRegisterReceive "nat option"
  | CRegisterLeader "nat option"
  | CRegisterStatus "nat option"
  | CRegisterConnection "nat option"
  | CRegisterReconnect "nat option"
  | CSetAutoReconnect u8
  | CEnableLogging u8

fun command_exec :: "ffi_env \<Rightarrow> ffi_command \<Rightarrow> ffi_state \<Rightarrow> int \<times> ffi_state" where
  "command_exec env (CInit p s) = InitializeNetwork env p s"
| "command_exec env (CInitConfig p s c) = InitializeNetworkWithConfig env p s c"
| "command_exec env (CConnect a) = ConnectToPeer env a"
| "command_exec env (CDisconnect p) = DisconnectPeer env p"
| "command_exec env (CSetLeader p) = SetLeader env p"
| "command_exec env (CEnableAuto b) = EnableAutoLeaderElection env b"
| "command_exec env (CSetCentralized b) = SetCentralizedMode env b"
| "command_exec env (CSetAutoForward b) = SetCentralizedAutoForward env b"
| "command_exec env (CSetCompression t) = SetCompressionThreshold env t"
| "command_exec env (CBroadcast d n mt f) = BroadcastMessage env d n mt f"
| "command_exec env (CSendToPeer p d n mt f) = SendToPeer env p d n mt f"
| "command_exec env (CSendToLeader d n mt f) = SendToLeader env d n mt f"
| "command_exec env (CSendFromLeader d n mt f) = SendFromLeader env d n mt f"
| "command_exec env (CForward a t d n mt f) = ForwardMessage env a t d n mt f"
| "command_exec env (CRegisterReceive cb) = RegisterReceiveCallback env cb"
| "command_exec env (CRegisterLeader cb) = RegisterLeaderChangedCallback env cb"
| "command_exec env (CRegisterStatus cb) = RegisterPeerStatusCallback env cb"
| "command_exec env (CRegisterConnection cb) = RegisterConnectionResultCallback env cb"
| "command_exec env (CRegisterReconnect cb) = RegisterReconnectCallback env cb"
| "command_exec env (CSetAutoReconnect b) = SetAutoReconnect env b"
| "command_exec env (CEnableLogging b) = EnableLogging env b"

datatype ffi_string = SLastErrorMessage | SLocalAddr | SLocalPeerId | SSessionId | SPeerList | SCurrentLeader

fun string_exec :: "ffi_env \<Rightarrow> ffi_string \<Rightarrow> ffi_state \<Rightarrow> nat option \<times> ffi_state" where
  "string_exec env SLastErrorMessage = GetLastErrorMessage env"
| "string_exec env SLocalAddr = GetLocalAddr env"
| "string_exec env SLocalPeerId = GetLocalPeerId env"
| "string_exec env SSessionId = GetSessionId env"
| "string_exec env SPeerList = GetPeerList env"
| "string_exec env SCurrentLeader = GetCurrentLeader env"

text \<open>
  Everything that changes the globals: the calls, and the network's own tasks between them. No task registers the node under its own identifier.
\<close>

inductive ffi_step :: "ffi_state \<Rightarrow> ffi_state \<Rightarrow> bool" where
  command: "fe_panic env = None \<Longrightarrow> command_exec env c g = (code, g') \<Longrightarrow> ffi_step g g'"
| string: "fe_panic env = None \<Longrightarrow> string_exec env s g = (p, g') \<Longrightarrow> ffi_step g g'"
| shutdown: "fe_panic env = None \<Longrightarrow> ShutdownNetwork env g = Some (code, st, g') \<Longrightarrow> ffi_step g g'"
| background: "NETWORK g = Some ns \<Longrightarrow> foreign_op (ns_local_peer_id ns) op \<Longrightarrow> ffi_step g (g\<lparr>NETWORK := Some (node_exec op ns)\<rparr>)"

inductive_cases ffi_stepE: "ffi_step g g'"

definition ffi_inv :: "ffi_state \<Rightarrow> bool" where
  "ffi_inv g \<longleftrightarrow>
     (RUNTIME g \<longleftrightarrow> NETWORK g \<noteq> None) \<and> (\<forall>ns. NETWORK g = Some ns \<longrightarrow> node_inv ns)
   \<and> (\<forall>p s. LAST_RETURNED_STRING g = Some (p, s) \<longrightarrow> p < fs_next g \<and> CHR 0x00 \<notin> set s)"

section \<open>Lemmas\<close>

named_theorems ffi_defs

lemmas command_defs [ffi_defs] =
  InitializeNetwork_def InitializeNetworkWithConfig_def ConnectToPeer_def DisconnectPeer_def SetLeader_def
  EnableAutoLeaderElection_def SetCentralizedMode_def SetCentralizedAutoForward_def SetCompressionThreshold_def
  BroadcastMessage_def SendToPeer_def SendToLeader_def SendFromLeader_def ForwardMessage_def RegisterReceiveCallback_def
  RegisterLeaderChangedCallback_def RegisterPeerStatusCallback_def RegisterConnectionResultCallback_def
  RegisterReconnectCallback_def SetAutoReconnect_def EnableLogging_def setter_def

lemmas string_defs =
  GetLastErrorMessage_def GetLocalAddr_def GetLocalPeerId_def GetSessionId_def GetPeerList_def GetCurrentLeader_def

lemma guarded_ok [simp]: "fe_panic env = None \<Longrightarrow> guarded env name body = body"
  by (simp add: guarded_def catch_unwind_def fun_eq_iff)

lemma guarded_panic: "fe_panic env = Some g' \<Longrightarrow> guarded env name body g = panicked name g'"
  by (simp add: guarded_def catch_unwind_def)

lemma set_error_simps [simp]:
  "LAST_ERROR (set_error c m g) = Some (c, m)" "NETWORK (set_error c m g) = NETWORK g" "RUNTIME (set_error c m g) = RUNTIME g"
  "LAST_RETURNED_STRING (set_error c m g) = LAST_RETURNED_STRING g" "fs_next (set_error c m g) = fs_next g"
  "fs_connects (set_error c m g) = fs_connects g"
  by (simp_all add: set_error_def)

lemma set_network_error_simps [simp]:
  "LAST_ERROR (set_network_error e g) = Some (error_code e, error_text e)" "NETWORK (set_network_error e g) = NETWORK g"
  "RUNTIME (set_network_error e g) = RUNTIME g" "LAST_RETURNED_STRING (set_network_error e g) = LAST_RETURNED_STRING g"
  "fs_next (set_network_error e g) = fs_next g" "fs_connects (set_network_error e g) = fs_connects g"
  by (simp_all add: set_network_error_def)

text \<open>A call reports: it succeeds and leaves the recorded error alone, or it fails and records exactly the code it returns.\<close>

definition reports :: "ffi_state \<Rightarrow> int \<times> ffi_state \<Rightarrow> bool" where
  "reports g r \<longleftrightarrow> fst r = OK \<and> LAST_ERROR (snd r) = LAST_ERROR g
     \<or> fst r < 0 \<and> (\<exists>msg. LAST_ERROR (snd r) = Some (fst r, msg))"

lemma reports_report: "reports g (report (with_network f g))"
  by (auto simp: reports_def report_def with_network_def split: option.split prod.split sum.split)

lemma reports_simps [simp]:
  "reports g (error_code e, set_network_error e g')" "reports g (OK, g)"
  "c < 0 \<Longrightarrow> reports g (c, set_error c m g')" "reports g (bad_data g')" "reports g (route_checked n f g)"
  by (simp_all add: reports_def bad_data_def reports_report [unfolded reports_def] route_checked_def)

lemma reports_guarded: "reports g (body g) \<Longrightarrow> reports g (guarded env name body g)"
  by (cases "fe_panic env") (simp_all add: guarded_panic panicked_def)

lemma reports_init: "reports g (initialize_network_inner env p s c g)"
  by (simp add: initialize_network_inner_def initialize_checked_def Let_def split: sum.split option.split)
     (simp add: reports_def)

lemma reports_command: "reports g (command_exec env c g)"
proof (cases c)
  case (CConnect a)
  then show ?thesis
    by (auto simp: ConnectToPeer_def intro!: reports_guarded split: sum.split option.split) (auto simp: reports_def)
qed (auto simp: ffi_defs Let_def intro!: reports_guarded reports_init reports_report split: sum.split option.split)

lemma ffi_inv_set_error [simp]: "ffi_inv (set_error c m g) \<longleftrightarrow> ffi_inv g" "ffi_inv (set_network_error e g) \<longleftrightarrow> ffi_inv g"
  "ffi_inv (g\<lparr>fs_connects := l\<rparr>) \<longleftrightarrow> ffi_inv g"
  by (simp_all add: ffi_inv_def)

lemma ffi_inv_report:
  assumes "ffi_inv g" "\<And>ns. node_inv ns \<Longrightarrow> node_inv (snd (f ns))"
  shows "ffi_inv (snd (report (with_network f g)))"
proof (cases "NETWORK g")
  case None
  then show ?thesis using assms(1) by (simp add: report_def with_network_def)
next
  case (Some ns)
  obtain r ns' where f: "f ns = (r, ns')" by (cases "f ns")
  with assms(2) [of ns] Some assms(1) have "ffi_inv (g\<lparr>NETWORK := Some ns'\<rparr>)" by (simp add: ffi_inv_def)
  with Some f show ?thesis by (simp add: report_def with_network_def split: sum.split)
qed

lemma route_tpart:
  assumes "tpart me tm"
  shows "tpart me (snd (route_message x out r le t mt d f tm))" "tpart me (snd (send_from_leader x out r le mt d f tm))"
    "tpart me (snd (forward_message x out r le p ft mt f d tm))"
  using assms
  by (simp_all add: route_message_def send_from_leader_def forward_message_def with_packet_def Let_def tpart_ops
      split: MessageTarget.split ForwardTarget.split option.split sum.split)

lemma node_inv_transport: "node_inv ns \<Longrightarrow> tpart (ns_local_peer_id ns) tm \<Longrightarrow> node_inv (ns\<lparr>ns_transport := tm\<rparr>)"
  by (simp add: node_inv_def)

lemma ffi_inv_route:
  assumes "ffi_inv g" "\<And>me r le tm. tpart me tm \<Longrightarrow> tpart me (snd (call r le tm))"
  shows "ffi_inv (snd (route_checked n call g))"
  unfolding route_checked_def
proof (rule ffi_inv_report [OF assms(1)])
  fix ns :: NetworkState
  assume "node_inv ns"
  then have "node_inv (ns\<lparr>ns_transport := snd (call (ns_router ns) (ns_leader ns) (ns_transport ns))\<rparr>)"
    using assms(2) by (simp add: node_inv_def)
  with \<open>node_inv ns\<close> show "node_inv (snd (if cfg_max_message_size (ns_config ns) < n
      then (Inl (InvalidArgument ''message exceeds max_message_size''), ns)
      else case call (ns_router ns) (ns_leader ns) (ns_transport ns) of (r, tm) \<Rightarrow> (r, ns\<lparr>ns_transport := tm\<rparr>)))"
    by (simp add: case_prod_beta)
qed

lemma ffi_inv_bad_data: "ffi_inv g \<Longrightarrow> ffi_inv (snd (bad_data g))"
  by (simp add: bad_data_def)

lemma ffi_inv_init: "ffi_inv g \<Longrightarrow> ffi_inv (snd (initialize_network_inner env p s c g))"
  by (auto simp: initialize_network_inner_def initialize_checked_def Let_def node_inv_new ffi_inv_def [of "g\<lparr>NETWORK := _, RUNTIME := _\<rparr>"]
      split: sum.split option.split) (auto simp: ffi_inv_def)

lemma node_inv_disconnect:
  "node_inv ns \<Longrightarrow> node_inv (snd (case disconnect_peer x out p (ns_transport ns) of
      (Inl e, tm) \<Rightarrow> (Inl e, ns\<lparr>ns_transport := tm\<rparr>)
    | (Inr _, tm) \<Rightarrow> (Inr (), ns\<lparr>ns_transport := tm, ns_membership := remove_peer p (ns_membership ns)\<rparr>)))"
  using node_inv_exec [of ns "NTransport (TDisconnect x out p)"]
    node_inv_exec [of "node_exec (NTransport (TDisconnect x out p)) ns" "NMember (MRemove p)"]
  by (cases "disconnect_peer x out p (ns_transport ns)") (simp split: sum.split)

lemma node_inv_set_leader:
  "node_inv ns \<Longrightarrow> node_inv (snd (case set_leader p (ns_leader ns) of ((trm, leader, assigner), le) \<Rightarrow>
     let ns1 = ns\<lparr>ns_leader := le\<rparr> in
     (case encode_internal x (LeaderAssign trm leader assigner) mx of
        Inl e \<Rightarrow> (Inl e, ns1)
      | Inr pk \<Rightarrow> (Inr (), ns1\<lparr>ns_transport := snd (broadcast out pk None (ns_transport ns1))\<rparr>))))"
  using node_inv_exec [of ns "NElect (OpSetLeader p)"]
    node_inv_exec [of "node_exec (NElect (OpSetLeader p)) ns" "NTransport (TBroadcast out pk None)" for pk]
  by (cases "set_leader p (ns_leader ns)") (auto simp: Let_def split: sum.split)

lemma node_inv_setters:
  assumes "node_inv ns"
  shows "node_inv (ns\<lparr>ns_leader := enable_auto_election b (ns_leader ns)\<rparr>)" "node_inv (ns\<lparr>ns_router := set_centralized b (ns_router ns)\<rparr>)"
    "node_inv (ns\<lparr>ns_router := set_auto_forward b (ns_router ns)\<rparr>)" "node_inv (ns\<lparr>ns_router := set_compression_threshold t (ns_router ns)\<rparr>)"
    "node_inv (ns\<lparr>ns_callback := cb\<rparr>)" "node_inv (ns\<lparr>ns_transport := set_auto_reconnect b (ns_transport ns)\<rparr>)"
  using assms node_inv_exec [OF assms, of "NElect (OpEnableAuto b)"] node_inv_exec [OF assms, of "NTransport (TAutoReconnect b)"]
  by (simp_all add: node_inv_def set_centralized_def set_auto_forward_def set_compression_threshold_def)

lemma ffi_inv_command: "ffi_inv g \<Longrightarrow> fe_panic env = None \<Longrightarrow> ffi_inv (snd (command_exec env c g))"
  by (cases c)
     (auto simp: ffi_defs Let_def ffi_inv_init ffi_inv_bad_data intro!: ffi_inv_report ffi_inv_route route_tpart
       node_inv_disconnect node_inv_set_leader [simplified] node_inv_setters split: sum.split option.split)

lemma cstring_new_no_nul: "CHR 0x00 \<notin> set (case cstring_new s of Some c \<Rightarrow> c | None \<Rightarrow> '''')"
  by (simp add: cstring_new_def)

lemma return_string_eq:
  "return_string s g = (Some (fs_next g), g\<lparr>LAST_RETURNED_STRING := Some (fs_next g, if CHR 0x00 \<in> set s then '''' else s), fs_next := Suc (fs_next g)\<rparr>)"
  by (simp add: return_string_def cstring_new_def)

lemma query_eq: "query f d g = (case NETWORK g of Some ns \<Rightarrow> f ns | None \<Rightarrow> d)"
  by (simp add: query_def with_network_def split: option.split)

text \<open>A string call returns null and changes nothing, or returns some string.\<close>

lemma string_exec_cases:
  assumes "fe_panic env = None"
  obtains "string_exec env c g = (None, g)" "NETWORK g = None"
    | s where "string_exec env c g = return_string s g"
  using assms by (cases c; cases "NETWORK g") (auto simp: string_defs query_string_def catch_unwind_def query_eq)

lemma ffi_inv_string: "ffi_inv g \<Longrightarrow> fe_panic env = None \<Longrightarrow> ffi_inv (snd (string_exec env c g))"
  by (rule string_exec_cases [of env c g]) (auto simp: ffi_inv_def return_string_eq)

lemma ffi_inv_shutdown: "ffi_inv g \<Longrightarrow> fe_panic env = None \<Longrightarrow> ShutdownNetwork env g = Some (code, st, g') \<Longrightarrow> ffi_inv g'"
  by (auto simp: ShutdownNetwork_def Let_def split: option.splits if_splits) (auto simp: ffi_inv_def)

lemma ffi_inv_start: "ffi_inv ffi_init"
  by (simp add: ffi_inv_def ffi_init_def)

lemma ffi_inv_step: "ffi_step g g' \<Longrightarrow> ffi_inv g \<Longrightarrow> ffi_inv g'"
proof (induction rule: ffi_step.induct)
  case (command env c g code g')
  then show ?case using ffi_inv_command [of g env c] by simp
next
  case (string env s g p g')
  then show ?case using ffi_inv_string [of g env s] by simp
next
  case (background g ns op)
  then show ?case by (simp add: ffi_inv_def node_inv_exec)
qed (rule ffi_inv_shutdown)

text \<open>Calls that return no string leave the last returned string alone.\<close>

definition same_string :: "ffi_state \<Rightarrow> ffi_state \<Rightarrow> bool" where
  "same_string g g' \<longleftrightarrow> LAST_RETURNED_STRING g' = LAST_RETURNED_STRING g \<and> fs_next g' = fs_next g"

lemma same_string_simps [simp]:
  "same_string g g" "same_string g (set_error c m g')  \<longleftrightarrow> same_string g g'" "same_string g (set_network_error e g') \<longleftrightarrow> same_string g g'"
  "same_string g (snd (report (with_network f g)))" "same_string g (snd (route_checked n call g))" "same_string g (snd (bad_data g))"
  "same_string g (g\<lparr>fs_connects := l\<rparr>)" "same_string g (snd (initialize_network_inner env p s cfg g))"
  by (auto simp: same_string_def report_def with_network_def route_checked_def bad_data_def initialize_network_inner_def
      initialize_checked_def Let_def split: sum.split option.split prod.split)

lemma command_keeps_string: "fe_panic env = None \<Longrightarrow> same_string g (snd (command_exec env c g))"
  by (cases c) (simp_all add: ffi_defs Let_def split: sum.split option.split)

lemma utf8_error_iff: "utf8_error i bs = None \<longleftrightarrow> utf8_bytes bs"
  by (induction i bs rule: utf8_error.induct) (auto split: list.splits)

lemma le_bytes_length [simp]: "length (le_bytes n v) = n"
  by (induction n arbitrary: v) simp_all

lemma le_value_bytes: "v < 256 ^ n \<Longrightarrow> le_value (le_bytes n v) = v"
proof (induction n arbitrary: v)
  case (Suc n)
  then have "v div 256 < 256 ^ n" by (simp add: less_mult_imp_div_less mult.commute)
  with Suc.IH show ?case by simp
qed simp

fun packed_offsets :: "nat \<Rightarrow> nat list \<Rightarrow> nat list" where
  "packed_offsets off [] = []"
| "packed_offsets off (w # ws) = off # packed_offsets (off + w) ws"

lemma packed_length: "length vs = length ws \<Longrightarrow> length (packed ws vs) = sum_list ws"
  by (induction ws vs rule: list_induct2') (simp_all add: packed_def)

lemma packed_read:
  "list_all2 (\<lambda>w v. v < 256 ^ w) ws vs \<Longrightarrow>
     map (\<lambda>(off, w). le_value (take w (drop off (pre @ packed ws vs)))) (zip (packed_offsets (length pre) ws) ws) = vs"
proof (induction ws vs arbitrary: pre rule: list_all2_induct)
  case (Cons w ws v vs)
  then show ?case using Cons.IH [of "pre @ le_bytes w v"] by (simp add: packed_def le_value_bytes)
qed (simp add: packed_def)

lemma unat_bound8: "unat (x :: 8 word) < 256" and unat_bound16: "unat (y :: 16 word) < 65536" and unat_bound32: "unat (z :: 32 word) < 4294967296"
  using unsigned_less [of x, where ?'a = nat] unsigned_less [of y, where ?'a = nat] unsigned_less [of z, where ?'a = nat] by simp_all

section \<open>Properties\<close>



text \<open>
  Without a network nothing happens. Before initialization and after shutdown every other function that returns a code refuses with
  the code for an uninitialized network, or for an invalid argument, and changes nothing but the recorded error.
\<close>

theorem uninitialized_refused:
  assumes "NETWORK g = None" "fe_panic env = None" "\<And>p s. c \<noteq> CInit p s" "\<And>p s f. c \<noteq> CInitConfig p s f" "\<And>b. c \<noteq> CEnableLogging b"
  shows "\<exists>code msg. command_exec env c g = (code, g\<lparr>LAST_ERROR := Some (code, msg)\<rparr>) \<and> code \<in> {NOT_INITIALIZED, INVALID_ARGUMENT}"
proof -
  have arg: "\<exists>m. e = InvalidArgument m" if "c_str_to_string p = Inl e" for e p
    using that by (auto simp: c_str_to_string_def Let_def split: option.splits)
  show ?thesis
    using assms
    by (cases c)
       (auto simp: ffi_defs Let_def report_def with_network_def bad_data_def route_checked_def set_network_error_def set_error_def try_bind_def
         split: sum.splits option.splits dest!: arg)
qed

definition demo_ffi_env :: ffi_env where
  "demo_ffi_env = \<lparr>fe_node = demo_env, fe_show_addr = (\<lambda>_. ''127.0.0.1:4000''), fe_runtime = None, fe_bound = Inr (demo_addr 4000),
     fe_daemon = None, fe_host = None, fe_create = (\<lambda>_. None), fe_register = (\<lambda>_. None),
     fe_shutdown = \<lparr>se_start = 0, se_polls = [], se_meanwhile = id, se_steps = 2\<rparr>, fe_panic = None\<rparr>"

lemma demo_ffi_env_simps [simp]:
  "fe_panic demo_ffi_env = None" "fe_runtime demo_ffi_env = None" "fe_bound demo_ffi_env = Inr (demo_addr 4000)" "fe_node demo_ffi_env = demo_env"
  by (simp_all add: demo_ffi_env_def)

lemma c_str_ascii: "\<forall>c \<in> set s. 0 < (of_char c :: nat) \<and> (of_char c :: nat) < 0x80 \<Longrightarrow> c_str_to_string (Some s) = Inr s"
proof -
  assume a: "\<forall>c \<in> set s. 0 < (of_char c :: nat) \<and> (of_char c :: nat) < 0x80"
  then have "takeWhile (\<lambda>c. c \<noteq> CHR 0x00) s = s" by (auto simp: takeWhile_eq_all_conv)
  moreover have "utf8_bytes (map of_char s)" using a by (intro utf8_ascii) auto
  then have "utf8_error 0 (map of_char s) = None" by (simp only: utf8_error_iff)
  ultimately show ?thesis by (simp add: c_str_to_string_def Let_def del: takeWhile_eq_all_conv)
qed

lemma node_new_bound:
  "node_new p s cfg (Inl m) d h c r \<noteq> Inr ns" "node_new p s cfg (Inr a) d h c r \<noteq> Inl e"
  by (simp_all add: node_new_def transport_new_def Let_def case_prod_unfold)


theorem uninitialized_refused_witness:
  "\<exists>code msg. command_exec demo_ffi_env (CSendToLeader (Some [1]) 1 0x0100 0) ffi_init = (code, ffi_init\<lparr>LAST_ERROR := Some (code, msg)\<rparr>)
     \<and> code \<in> {NOT_INITIALIZED, INVALID_ARGUMENT}"
  by (rule uninitialized_refused) (simp_all add: ffi_init_def)

text \<open>
  C31: Initialization succeeds exactly when it should. With a configuration the call succeeds if and only if there is no network yet, the
  configuration pointer is not null, both strings are valid, the configuration passes validation, and the runtime and the listener could be created; the network is then
  the freshly started node, and otherwise the network is untouched.
\<close>

theorem initialize_exact:
  assumes "fe_panic env = None" "InitializeNetworkWithConfig env p s cfg g = (code, g')"
  shows "(code = OK \<longleftrightarrow>
        NETWORK g = None \<and> (\<exists>f pn sn a. cfg = Some f \<and> c_str_to_string p = Inr pn \<and> c_str_to_string s = Inr sn
          \<and> validate (config_from_ffi f) = Inr () \<and> fe_runtime env = None \<and> fe_bound env = Inr a))
    \<and> (if code = OK then
         \<exists>f pn sn ns. cfg = Some f \<and> c_str_to_string p = Inr pn \<and> c_str_to_string s = Inr sn
          \<and> node_new pn sn (config_from_ffi f) (fe_bound env) (fe_daemon env) (fe_host env) (fe_create env) (fe_register env) = Inr ns
          \<and> NETWORK g' = Some ns
       else NETWORK g' = NETWORK g)"
proof (cases "fe_bound env")
  case (Inl m)
  then show ?thesis
    using assms
    by (auto simp: node_new_bound InitializeNetworkWithConfig_def initialize_network_inner_def initialize_checked_def Let_def
        split: option.splits sum.splits if_splits)
next
  case (Inr a)
  then show ?thesis
    using assms
    by (auto simp: node_new_bound InitializeNetworkWithConfig_def initialize_network_inner_def initialize_checked_def Let_def
        split: option.splits sum.splits if_splits)
qed

definition demo_config_ffi :: NetworkConfigFFI where
  "demo_config_ffi =
     \<lparr>ffi_reconnect_max_ms = 30000, ffi_compression_threshold = 512, ffi_max_message_size = 262144, ffi_heartbeat_interval_ms = 500,
      ffi_election_timeout_min_ms = 1500, ffi_election_timeout_max_ms = 3000, ffi_reconnect_initial_ms = 1000,
      ffi_handshake_timeout_ms = 5000, ffi_write_timeout_ms = 5000, ffi_send_queue_capacity = 128, ffi_incoming_queue_capacity = 256,
      ffi_max_connections = 64, ffi_keepalive_time_secs = 60, ffi_keepalive_interval_secs = 10, ffi_mdns_port = 15353,
      ffi_heartbeat_timeout_multiplier = 3, ffi_keepalive_retries = 3, ffi_centralized_auto_forward = 1, ffi_auto_election_enabled = 1,
      ffi_manual_override_recovery = 0, ffi_tcp_nodelay = 1, ffi_auto_reconnect_enabled = 1, ffi_reconnect_max_retries = 0\<rparr>"

lemma demo_config_default: "config_from_ffi demo_config_ffi = config_default"
  by (simp add: config_from_ffi_def demo_config_ffi_def config_default_def recovery_from_u8_def)

theorem initialize_exact_witness:
  "fst (InitializeNetworkWithConfig demo_ffi_env (Some ''a'') (Some ''s'') (Some demo_config_ffi) ffi_init) = OK"
proof -
  obtain code g' where r: "InitializeNetworkWithConfig demo_ffi_env (Some ''a'') (Some ''s'') (Some demo_config_ffi) ffi_init = (code, g')"
    by fastforce
  have "c_str_to_string (Some ''a'') = Inr ''a''" "c_str_to_string (Some ''s'') = Inr ''s''" by (rule c_str_ascii; simp)+
  moreover have "validate (config_from_ffi demo_config_ffi) = Inr ()"
    by (simp add: demo_config_default validate_def config_default_def)
  ultimately show ?thesis
    using initialize_exact [OF demo_ffi_env_simps(1) r] r by (simp add: ffi_init_def)
qed

text \<open>
  Two threads can initialize at once, and one network is lost. When two calls have both seen that there is no network, both succeed, one after the
  other; the second installs its network over the first, which is never shut down.
\<close>

theorem concurrent_initialize_overwrites:
  assumes "initialize_network_inner env1 p1 s1 c1 g = (OK, g1)" "initialize_network_inner env2 p2 s2 c2 g = (OK, g2)"
  shows "\<exists>g'. initialize_checked env2 p2 s2 c2 g1 = (OK, g') \<and> NETWORK g1 \<noteq> None \<and> NETWORK g' = NETWORK g2"
  using assms
  by (auto simp: initialize_network_inner_def initialize_checked_def Let_def split: option.splits sum.splits if_splits)

lemma demo_init:
  assumes "\<forall>c \<in> set name. 0 < (of_char c :: nat) \<and> (of_char c :: nat) < 0x80"
  shows "initialize_network_inner demo_ffi_env (Some name) (Some ''s'') None ffi_init
     = (OK, ffi_init\<lparr>NETWORK := Some (demo_node name), RUNTIME := True\<rparr>)"
proof -
  have "c_str_to_string (Some ''s'') = Inr ''s''" by (rule c_str_ascii) simp
  moreover have "validate config_default = Inr ()" by (simp add: validate_def config_default_def)
  ultimately show ?thesis
    using c_str_ascii [OF assms] demo_node_eq [of name]
    by (simp add: initialize_network_inner_def initialize_checked_def ffi_init_def Let_def demo_ffi_env_def)
qed

theorem concurrent_initialize_overwrites_witness:
  "\<exists>g'. initialize_checked demo_ffi_env (Some ''b'') (Some ''s'') None (ffi_init\<lparr>NETWORK := Some (demo_node ''a''), RUNTIME := True\<rparr>) = (OK, g')
     \<and> NETWORK g' = Some (demo_node ''b'')"
  using concurrent_initialize_overwrites [OF demo_init [of "''a''"] demo_init [of "''b''"]] by auto

text \<open>
  A failed assignment of the leader is not undone. When the announcement cannot be encoded the call returns that error, but the node has
  already taken the assigned leader over, under manual override, and told nobody.
\<close>

theorem failed_set_leader_stays:
  assumes "fe_panic env = None" "NETWORK g = Some ns" "c_str_to_string p = Inr pn"
    and "set_leader (PeerId pn) (ns_leader ns) = ((trm, l, a), le)"
    and "encode_internal (ne_ext (fe_node env)) (LeaderAssign trm l a) (cfg_max_message_size (ns_config ns)) = Inl e"
  shows "SetLeader env p g = (error_code e, set_network_error e (g\<lparr>NETWORK := Some (ns\<lparr>ns_leader := le\<rparr>)\<rparr>))
    \<and> le_leader_id le = Some (PeerId pn) \<and> manual_override (le_state le)"
  using assms
  by (auto simp: SetLeader_def report_def with_network_def Let_def set_leader_def assign_leader_def notify_leader_change_def
      become_leader_inner_def le_leader_id_def)



theorem failed_set_leader_stays_witness:
  "\<exists>e le. SetLeader demo_ffi_env (Some ''b'') (ffi_init\<lparr>NETWORK := Some (demo_node ''a''), RUNTIME := True\<rparr>)
      = (error_code e, set_network_error e (ffi_init\<lparr>NETWORK := Some ((demo_node ''a'')\<lparr>ns_leader := le\<rparr>), RUNTIME := True\<rparr>))
    \<and> le_leader_id le = Some (PeerId ''b'')"
proof -
  let ?ns = "demo_node ''a''"
  obtain trm l a le where sl: "set_leader (PeerId ''b'') (ns_leader ?ns) = ((trm, l, a), le)" by (metis surj_pair)
  obtain e where "encode_internal (ne_ext (fe_node demo_ffi_env)) (LeaderAssign trm l a) (cfg_max_message_size (ns_config ?ns)) = Inl e"
    by (auto simp: encode_internal_def demo_env_def table_ext_def)
  moreover have "c_str_to_string (Some ''b'') = Inr ''b''" by (rule c_str_ascii) simp
  ultimately show ?thesis
    using failed_set_leader_stays [of demo_ffi_env "ffi_init\<lparr>NETWORK := Some ?ns, RUNTIME := True\<rparr>" ?ns, OF _ _ _ sl]
    by (auto simp: ffi_init_def)
qed

text \<open>
  String arguments are checked exactly. A pointer is accepted if and only if it is not null and the bytes before the first NUL
  are well-formed UTF-8; the accepted string is exactly those bytes.
\<close>

theorem c_str_exact:
  "c_str_to_string ptr = Inr s \<longleftrightarrow> (\<exists>mem. ptr = Some mem \<and> s = takeWhile (\<lambda>c. c \<noteq> CHR 0x00) mem \<and> utf8_ok s)"
  by (auto simp: c_str_to_string_def Let_def utf8_ok_def utf8_error_iff [symmetric, of _ 0] split: option.split)


end
