(* ===== verification/Ffi_Locks.thy ===== *)
theory Ffi_Locks
  imports Ffi
begin

text \<open>
  The locks of the C interface (\<^verbatim>\<open>src/ffi.rs\<close>), for the one pair of functions that both hold the lock on the runtime while something else
  has to happen: \<^verbatim>\<open>ConnectToPeer\<close> and \<^verbatim>\<open>ShutdownNetwork\<close> on two threads. A step is one critical section, or one point
  at which a thread may have to wait. The parameter \<open>from_callback\<close> says that \<^verbatim>\<open>ConnectToPeer\<close> is called from within a callback: then shutdown, which joins the
  callback thread, has to wait until the call has returned.
\<close>

section \<open>Definitions\<close>

datatype connect_pc = ConnectStart | ConnectRefs | ConnectLocked | ConnectDone

datatype shutdown_pc = ShutdownStart | ShutdownTaken | ShutdownLocked | ShutdownReleased | ShutdownDone

record lock_state =
  lk_network :: bool
  lk_runtime :: bool
  lk_connect :: connect_pc
  lk_shutdown :: shutdown_pc
  lk_tasks :: nat

definition lock_init :: lock_state where
  "lock_init = \<lparr>lk_network = True, lk_runtime = True, lk_connect = ConnectStart, lk_shutdown = ShutdownStart, lk_tasks = 0\<rparr>"

definition runtime_free :: "lock_state \<Rightarrow> bool" where
  "runtime_free s \<longleftrightarrow> lk_connect s \<noteq> ConnectLocked \<and> lk_shutdown s \<noteq> ShutdownLocked"

definition callback_thread_done :: "bool \<Rightarrow> lock_state \<Rightarrow> bool" where
  "callback_thread_done from_callback s \<longleftrightarrow> (from_callback \<longrightarrow> lk_connect s = ConnectDone)"

inductive lock_step :: "bool \<Rightarrow> lock_state \<Rightarrow> lock_state \<Rightarrow> bool" for from_callback where
  connect_network: "lk_connect s = ConnectStart \<Longrightarrow>
     lock_step from_callback s (s\<lparr>lk_connect := if lk_network s then ConnectRefs else ConnectDone\<rparr>)"
| connect_runtime: "lk_connect s = ConnectRefs \<Longrightarrow> runtime_free s \<Longrightarrow> lock_step from_callback s (s\<lparr>lk_connect := ConnectLocked\<rparr>)"
| connect_spawn: "lk_connect s = ConnectLocked \<Longrightarrow>
     lock_step from_callback s (s\<lparr>lk_connect := ConnectDone, lk_tasks := (if lk_runtime s then Suc (lk_tasks s) else lk_tasks s)\<rparr>)"
| shutdown_take: "lk_shutdown s = ShutdownStart \<Longrightarrow>
     lock_step from_callback s (s\<lparr>lk_network := False, lk_shutdown := if lk_network s then ShutdownTaken else ShutdownDone\<rparr>)"
| shutdown_runtime: "lk_shutdown s = ShutdownTaken \<Longrightarrow> runtime_free s \<Longrightarrow> lock_step from_callback s (s\<lparr>lk_shutdown := ShutdownLocked\<rparr>)"
| shutdown_join: "lk_shutdown s = ShutdownLocked \<Longrightarrow> callback_thread_done from_callback s \<Longrightarrow>
     lock_step from_callback s (s\<lparr>lk_shutdown := ShutdownReleased\<rparr>)"
| shutdown_drop: "lk_shutdown s = ShutdownReleased \<Longrightarrow> runtime_free s \<Longrightarrow>
     lock_step from_callback s (s\<lparr>lk_runtime := False, lk_shutdown := ShutdownDone\<rparr>)"

inductive_cases lock_stepE: "lock_step b s s'"

definition both_returned :: "lock_state \<Rightarrow> bool" where
  "both_returned s \<longleftrightarrow> lk_connect s = ConnectDone \<and> lk_shutdown s = ShutdownDone"

section \<open>Lemmas\<close>

text \<open>The lock on the runtime has at most one owner.\<close>

definition lock_inv :: "lock_state \<Rightarrow> bool" where
  "lock_inv s \<longleftrightarrow> \<not> (lk_connect s = ConnectLocked \<and> lk_shutdown s = ShutdownLocked)"

lemma lock_inv_reach: "(lock_step b)\<^sup>*\<^sup>* lock_init s \<Longrightarrow> lock_inv s"
  by (induction rule: rtranclp_induct)
     (auto simp: lock_inv_def lock_init_def runtime_free_def elim!: lock_stepE split: if_splits)

text \<open>Called from any other thread, the two functions never block each other: some step is possible until both have returned.\<close>

lemma no_deadlock_elsewhere:
  assumes "\<not> both_returned s"
  shows "\<exists>s'. lock_step False s s'"
proof -
  have join: "callback_thread_done False s" by (simp add: callback_thread_done_def)
  have free: "runtime_free s" if "lk_connect s \<noteq> ConnectLocked" "lk_shutdown s \<noteq> ShutdownLocked"
    using that by (simp add: runtime_free_def)
  show ?thesis
  proof (cases "lk_connect s")
    case ConnectRefs
    then show ?thesis using free join by (cases "lk_shutdown s = ShutdownLocked") (auto intro: connect_runtime shutdown_join)
  next
    case ConnectDone
    with assms have "lk_shutdown s \<noteq> ShutdownDone" by (simp add: both_returned_def)
    with ConnectDone free join show ?thesis
      by (cases "lk_shutdown s") (auto intro: shutdown_take shutdown_runtime shutdown_join shutdown_drop)
  qed (auto intro: connect_network connect_spawn)
qed

section \<open>Properties\<close>

text \<open>
  C39: Connecting from a callback can deadlock with shutdown. When a callback calls \<^verbatim>\<open>ConnectToPeer\<close> while another thread shuts
  the network down, a state can be reached in which neither call has returned and neither can go on: shutdown holds the lock on the runtime and joins the
  callback thread, which waits for that lock.
\<close>

theorem connect_from_callback_deadlock:
  "\<exists>s. (lock_step True)\<^sup>*\<^sup>* lock_init s \<and> \<not> both_returned s \<and> \<not> (\<exists>s'. lock_step True s s')"
proof -
  let ?s1 = "lock_init\<lparr>lk_connect := ConnectRefs\<rparr>"
  let ?s2 = "?s1\<lparr>lk_network := False, lk_shutdown := ShutdownTaken\<rparr>"
  let ?s3 = "?s2\<lparr>lk_shutdown := ShutdownLocked\<rparr>"
  have "lock_step True lock_init ?s1" using connect_network [of lock_init True] by (simp add: lock_init_def)
  moreover have "lock_step True ?s1 ?s2" using shutdown_take [of ?s1 True] by (simp add: lock_init_def)
  moreover have "lock_step True ?s2 ?s3" using shutdown_runtime [of ?s2 True] by (simp add: lock_init_def runtime_free_def)
  ultimately have "(lock_step True)\<^sup>*\<^sup>* lock_init ?s3" by (meson converse_rtranclp_into_rtranclp rtranclp.rtrancl_refl)
  moreover have "\<not> lock_step True ?s3 s'" for s'
    by (auto simp: lock_init_def runtime_free_def callback_thread_done_def elim!: lock_stepE)
  moreover have "\<not> both_returned ?s3" by (simp add: both_returned_def lock_init_def)
  ultimately show ?thesis by blast
qed

end
