(* ===== verification/Unit_Tests.thy ===== *)
theory Unit_Tests
  imports Discovery Session_Routing Callbacks "HOL-Library.Sublist"
begin

text \<open>
  The crate's own unit tests, replayed on the model. A test is a boolean: the calls of the test in their order, and its assertions joined. That the tests hold
  of the definitions is a check of the translation: where a test of the crate passes on the code and its replay failed here, the model would be wrong. Readings of the clock are
  arguments, and so are LZ4 and postcard; the lemmas say for which of them a test passes. Tests that open sockets or wait for background tasks have no replay.
\<close>

section \<open>Leader election\<close>

definition create_election :: "string \<Rightarrow> LeaderElection" where
  "create_election peer_id = leader_election_new (PeerId peer_id) True Hold"

definition create_election_with_recovery :: "string \<Rightarrow> ManualOverrideRecovery \<Rightarrow> LeaderElection" where
  "create_election_with_recovery peer_id recovery = leader_election_new (PeerId peer_id) True recovery"

text \<open>\<^verbatim>\<open>election.leader_id().unwrap().as_str() == s\<close>\<close>

definition leader_named :: "string \<Rightarrow> LeaderElection \<Rightarrow> bool" where
  "leader_named s e \<longleftrightarrow> map_option as_str (le_leader_id e) = Some s"

abbreviation overridden :: "LeaderElection \<Rightarrow> bool" where
  "overridden e \<equiv> manual_override (le_state e)"

definition test_initial_state :: bool where
  "test_initial_state = (let e = create_election ''peer1'' in
     le_role e = Follower \<and> le_current_term e = 0 \<and> le_leader_id e = None \<and> \<not> le_is_leader e)"

definition test_start_election_single_node :: bool where
  "test_start_election_single_node = (let (result, e) = start_election 0 (create_election ''peer1'') in
     result = None \<and> le_role e = Leader \<and> le_is_leader e)"

definition test_start_election_two_nodes :: bool where
  "test_start_election_two_nodes = (let (result, e) = start_election 1 (create_election ''peer1'') in
     result = None \<and> le_role e = Leader)"

definition test_start_election_three_nodes :: bool where
  "test_start_election_three_nodes = (let (result, e) = start_election 2 (create_election ''peer1'') in
     le_role e = Candidate \<and> (case result of None \<Rightarrow> False | Some (trm, candidate) \<Rightarrow> trm = 1 \<and> candidate = ''peer1''))"

definition test_vote_response_majority :: bool where
  "test_vote_response_majority = (let (_, e) = start_election 2 (create_election ''peer1'');
     (became_leader, e) = handle_vote_response 1 ''peer2'' True 2 e in
     became_leader \<and> le_role e = Leader)"

definition test_handle_heartbeat :: bool where
  "test_handle_heartbeat = (let (accepted, e) = handle_heartbeat 1 ''peer2'' (create_election ''peer1'') in
     accepted \<and> le_role e = Follower \<and> leader_named ''peer2'' e)"

definition test_higher_term_steps_down :: bool where
  "test_higher_term_steps_down = (let (_, e) = start_election 0 (create_election ''peer1'');
     (accepted, e') = handle_heartbeat 2 ''peer2'' e in
     le_role e = Leader \<and> accepted \<and> le_role e' = Follower)"

definition test_manual_set_leader :: bool where
  "test_manual_set_leader = (let ((trm, lid, aid), e) = set_leader (PeerId ''peer2'') (create_election ''peer1'') in
     trm = 1 \<and> lid = ''peer2'' \<and> aid = ''peer1'' \<and> leader_named ''peer2'' e \<and> le_role e = Follower)"

definition test_manual_set_leader_self :: bool where
  "test_manual_set_leader_self = (let (_, e) = set_leader (PeerId ''peer1'') (create_election ''peer1'') in
     le_role e = Leader \<and> le_is_leader e)"

definition test_majority_threshold :: bool where
  "test_majority_threshold \<longleftrightarrow> majority_threshold 1 = 1 \<and> majority_threshold 2 = 1 \<and> majority_threshold 3 = 2
     \<and> majority_threshold 5 = 3 \<and> majority_threshold 7 = 4"

definition test_leader_failover :: bool where
  "test_leader_failover = (let (_, e) = handle_heartbeat 1 ''peer2'' (create_election ''peer1'');
     e' = handle_peer_left (PeerId ''peer2'') e in
     leader_named ''peer2'' e \<and> le_leader_id e' = None)"

definition test_split_brain_recovery :: bool where
  "test_split_brain_recovery = (let (_, e1) = start_election 0 (create_election ''peer_a'');
     (_, e2) = start_election 0 (create_election ''peer_b'');
     term_a = le_current_term e1; term_b = le_current_term e2;
     (accepted, e1') = handle_heartbeat term_b ''peer_b'' e1 in
     le_is_leader e1 \<and> le_is_leader e2 \<and> term_a = term_b \<and> accepted \<and> le_role e1' = Follower \<and> leader_named ''peer_b'' e1')"

definition test_vote_rejected_lower_term :: bool where
  "test_vote_rejected_lower_term = (let (_, e) = handle_heartbeat 5 ''peer2'' (create_election ''peer1'');
     ((resp_term, granted), _) = handle_request_vote 3 ''peer3'' e in
     resp_term = 5 \<and> \<not> granted)"

definition test_vote_rejected_already_voted :: bool where
  "test_vote_rejected_already_voted = (let ((_, granted1), e) = handle_request_vote 1 ''peer2'' (create_election ''peer1'');
     ((_, granted2), _) = handle_request_vote 1 ''peer3'' e in
     granted1 \<and> \<not> granted2)"

definition test_manual_override_blocks_election :: bool where
  "test_manual_override_blocks_election = (let (_, e) = set_leader (PeerId ''peer2'') (create_election ''peer1'');
     (result, e') = start_election 2 e in
     overridden e \<and> result = None \<and> le_role e' \<noteq> Candidate)"

definition test_enable_auto_election_preserves_override_with_leader :: bool where
  "test_enable_auto_election_preserves_override_with_leader = (let (_, e) = set_leader (PeerId ''peer2'') (create_election ''peer1'');
     e = enable_auto_election True e in
     is_auto_election_enabled e \<and> overridden e)"

definition test_enable_auto_election_after_leader_gone :: bool where
  "test_enable_auto_election_after_leader_gone = (let (_, e) = set_leader (PeerId ''peer2'') (create_election ''peer1'');
     e = enable_auto_election True (handle_peer_left (PeerId ''peer2'') e) in
     is_auto_election_enabled e \<and> \<not> overridden e)"

definition test_leader_assign :: bool where
  "test_leader_assign = (let e = handle_leader_assign 5 ''peer3'' ''peer2'' (create_election ''peer1'') in
     leader_named ''peer3'' e \<and> le_current_term e = 5 \<and> le_role e = Follower \<and> overridden e)"

definition test_heartbeat_rejects_foreign_leader_under_manual_override :: bool where
  "test_heartbeat_rejects_foreign_leader_under_manual_override = (let (_, e) = set_leader (PeerId ''peer2'') (create_election ''peer1'');
     (accepted, e') = handle_heartbeat 10 ''peer3'' e in
     overridden e \<and> leader_named ''peer2'' e \<and> \<not> accepted \<and> leader_named ''peer2'' e')"

definition test_heartbeat_accepts_same_leader_under_manual_override :: bool where
  "test_heartbeat_accepts_same_leader_under_manual_override = (let (_, e) = set_leader (PeerId ''peer2'') (create_election ''peer1'');
     (accepted, e') = handle_heartbeat 5 ''peer2'' e in
     overridden e \<and> accepted \<and> leader_named ''peer2'' e')"

definition test_peer_left_hold_recovery_keeps_manual_override :: bool where
  "test_peer_left_hold_recovery_keeps_manual_override = (let (_, e) = set_leader (PeerId ''peer2'') (create_election_with_recovery ''peer1'' Hold);
     e' = handle_peer_left (PeerId ''peer2'') e in
     overridden e \<and> le_leader_id e' = None \<and> overridden e')"

definition test_peer_left_auto_elect_recovery_clears_manual_override :: bool where
  "test_peer_left_auto_elect_recovery_clears_manual_override = (let (_, e) = set_leader (PeerId ''peer2'') (create_election_with_recovery ''peer1'' AutoElect);
     e' = handle_peer_left (PeerId ''peer2'') e in
     overridden e \<and> le_leader_id e' = None \<and> \<not> overridden e')"

lemmas leader_test_eval = leader_defs create_election_def create_election_with_recovery_def leader_election_new_def leader_named_def le_role_def le_current_term_def
  le_leader_id_def le_is_leader_def is_auto_election_enabled_def majority_threshold_def

lemma leader_tests_elections:
  "test_initial_state" "test_start_election_single_node" "test_start_election_two_nodes" "test_start_election_three_nodes" "test_vote_response_majority"
  "test_majority_threshold" "test_vote_rejected_lower_term" "test_vote_rejected_already_voted" "test_split_brain_recovery"
  by (simp_all add: test_initial_state_def test_start_election_single_node_def test_start_election_two_nodes_def test_start_election_three_nodes_def
      test_vote_response_majority_def test_majority_threshold_def test_vote_rejected_lower_term_def test_vote_rejected_already_voted_def test_split_brain_recovery_def leader_test_eval less_char_def)

lemma leader_tests_leaders:
  "test_handle_heartbeat" "test_higher_term_steps_down" "test_manual_set_leader" "test_manual_set_leader_self" "test_leader_failover" "test_leader_assign"
  by (simp_all add: test_handle_heartbeat_def test_higher_term_steps_down_def test_manual_set_leader_def test_manual_set_leader_self_def test_leader_failover_def
      test_leader_assign_def leader_test_eval)

lemma leader_tests_override:
  "test_manual_override_blocks_election" "test_enable_auto_election_preserves_override_with_leader" "test_enable_auto_election_after_leader_gone"
  "test_heartbeat_rejects_foreign_leader_under_manual_override" "test_heartbeat_accepts_same_leader_under_manual_override"
  "test_peer_left_hold_recovery_keeps_manual_override" "test_peer_left_auto_elect_recovery_clears_manual_override"
  by (simp_all add: test_manual_override_blocks_election_def test_enable_auto_election_preserves_override_with_leader_def test_enable_auto_election_after_leader_gone_def
      test_heartbeat_rejects_foreign_leader_under_manual_override_def test_heartbeat_accepts_same_leader_under_manual_override_def
      test_peer_left_hold_recovery_keeps_manual_override_def test_peer_left_auto_elect_recovery_clears_manual_override_def leader_test_eval)


section \<open>Membership\<close>

text \<open>\<open>t0\<close>, \<open>t1\<close>, ... are the readings of the monotonic clock, \<open>w0\<close> and \<open>w1\<close> of the wall clock, both in nanoseconds.\<close>

definition local_addr :: SocketAddr where
  "local_addr = SocketAddr (V4 0x7F000001) 8080"

definition test_add_remove_peer :: "instant \<Rightarrow> instant \<Rightarrow> bool" where
  "test_add_remove_peer t0 t1 = (let mgr = membership_new (PeerId ''local'') config_default;
     (added, mgr1) = add_peer t0 (PeerId ''peer1'') local_addr mgr;
     (again, mgr2) = add_peer t1 (PeerId ''peer1'') local_addr mgr1;
     mgr3 = remove_peer (PeerId ''peer1'') mgr2 in
     added = Inr () \<and> has_peer mgr1 (PeerId ''peer1'') \<and> get_connected_peer_count mgr1 = 1 \<and> again \<noteq> Inr ()
     \<and> \<not> has_peer mgr3 (PeerId ''peer1'') \<and> get_connected_peer_count mgr3 = 0)"

definition test_status_update :: "instant \<Rightarrow> bool" where
  "test_status_update t0 = (let (added, mgr) = add_peer t0 (PeerId ''peer1'') local_addr (membership_new (PeerId ''local'') config_default);
     mgr1 = update_status (PeerId ''peer1'') Disconnected mgr in
     added = Inr () \<and> get_peer_status mgr (PeerId ''peer1'') = Some Connected
     \<and> get_peer_status mgr1 (PeerId ''peer1'') = Some Disconnected \<and> get_connected_peer_count mgr1 = 0)"

definition test_rtt_measurement :: "instant \<Rightarrow> instant \<Rightarrow> int \<Rightarrow> int \<Rightarrow> bool" where
  "test_rtt_measurement t0 t1 w0 w1 = (let (added, mgr) = add_peer t0 (PeerId ''peer1'') local_addr (membership_new (PeerId ''local'') config_default);
     ts = saturating_sub (current_timestamp_ms w0) 50;
     mgr1 = handle_pong w1 t1 (PeerId ''peer1'') ts mgr in
     added = Inr () \<and> get_peer_rtt mgr (PeerId ''peer1'') = None
     \<and> (case get_peer_rtt mgr1 (PeerId ''peer1'') of None \<Rightarrow> False | Some rtt \<Rightarrow> 40 \<le> rtt \<and> rtt \<le> 200))"

definition test_heartbeat_timeout_detection :: "instant \<Rightarrow> instant \<Rightarrow> instant \<Rightarrow> bool" where
  "test_heartbeat_timeout_detection t0 t1 t2 = (let config = config_default\<lparr>heartbeat_interval_ms := 10, heartbeat_timeout_multiplier := 1\<rparr>;
     (added, mgr) = add_peer t0 (PeerId ''peer1'') local_addr (membership_new (PeerId ''local'') config);
     timed_out = check_timeouts t2 mgr in
     added = Inr () \<and> check_timeouts t1 mgr = [] \<and> length timed_out = 1 \<and> as_str (timed_out ! 0) = ''peer1'')"

definition test_update_last_seen_prevents_timeout :: "instant \<Rightarrow> instant \<Rightarrow> instant \<Rightarrow> bool" where
  "test_update_last_seen_prevents_timeout t0 t1 t2 = (let config = config_default\<lparr>heartbeat_interval_ms := 100, heartbeat_timeout_multiplier := 1\<rparr>;
     (added, mgr) = add_peer t0 (PeerId ''peer1'') local_addr (membership_new (PeerId ''local'') config) in
     added = Inr () \<and> check_timeouts t2 (update_last_seen t1 (PeerId ''peer1'') mgr) = [])"

text \<open>The subscriber of \<^verbatim>\<open>event_tx\<close> receives the events one by one from the moment it subscribed.\<close>

definition test_membership_events :: "instant \<Rightarrow> bool" where
  "test_membership_events t0 = (let mgr = membership_new (PeerId ''local'') config_default;
     seen = length (mm_events mgr);
     (added, mgr1) = add_peer t0 (PeerId ''peer1'') local_addr mgr;
     mgr2 = update_status (PeerId ''peer1'') Disconnected mgr1;
     mgr3 = remove_peer (PeerId ''peer1'') mgr2 in
     added = Inr () \<and> drop seen (mm_events mgr1) = [Joined (PeerId ''peer1'')]
     \<and> drop (seen + 1) (mm_events mgr2) = [StatusChanged (PeerId ''peer1'') Connected Disconnected]
     \<and> drop (seen + 2) (mm_events mgr3) = [Left (PeerId ''peer1'')])"

definition test_get_connected_peers :: "instant \<Rightarrow> instant \<Rightarrow> bool" where
  "test_get_connected_peers t0 t1 = (let (added1, mgr) = add_peer t0 (PeerId ''peer1'') local_addr (membership_new (PeerId ''local'') config_default);
     (added2, mgr) = add_peer t1 (PeerId ''peer2'') local_addr mgr;
     connected = get_connected_peers (update_status (PeerId ''peer1'') Disconnected mgr) in
     added1 = Inr () \<and> added2 = Inr () \<and> length connected = 1 \<and> as_str (connected ! 0) = ''peer2'')"

lemmas membership_test_eval = membership_new_def add_peer_def remove_peer_def update_status_def has_peer_def get_connected_peer_count_def get_peer_status_def get_peer_rtt_def
  handle_pong_def check_timeouts_def timeout_ms_def update_last_seen_def get_connected_peers_def mm_emit_def config_default_def Let_def
  hm_contains_def hm_get_def hm_insert_def hm_remove_def hm_modify_def from_millis_def

lemma membership_tests:
  "test_add_remove_peer t0 t1" "test_status_update t0" "test_membership_events t0" "test_get_connected_peers t0 t1"
  by (simp_all add: test_add_remove_peer_def test_status_update_def test_membership_events_def test_get_connected_peers_def membership_test_eval)

text \<open>The tests that measure time pass when the readings of the clock allow it.\<close>

lemma membership_tests_timeout:
  "t1 - t0 \<le> 10000000 \<Longrightarrow> 10000000 < t2 - t0 \<Longrightarrow> test_heartbeat_timeout_detection t0 t1 t2"
  "t2 - t1 \<le> 100000000 \<Longrightarrow> test_update_last_seen_prevents_timeout t0 t1 t2"
  by (simp_all add: test_heartbeat_timeout_detection_def test_update_last_seen_prevents_timeout_def membership_test_eval)


lemma rtt_in_range:
  fixes m0 m1 :: nat
  assumes "50 \<le> m0" "m0 \<le> m1" "m1 \<le> m0 + 150" "m1 < 2 ^ 64"
  shows "unat (ucast (saturating_sub (word_of_nat m1 :: u64) (saturating_sub (word_of_nat m0) 50)) :: u32) = m1 - m0 + 50"
proof -
  have "unat (word_of_nat m0 :: u64) = m0" "unat (word_of_nat m1 :: u64) = m1" using assms by (simp_all add: unat_of_nat)
  then have "unat (saturating_sub (word_of_nat m1 :: u64) (saturating_sub (word_of_nat m0) 50)) = m1 - m0 + 50"
    using assms by (simp add: saturating_sub_le)
  then show ?thesis using assms by (simp add: unsigned_ucast_eq take_bit_nat_eq_self)
qed

lemma membership_tests_rtt:
  assumes "50000000 \<le> w0" "w0 \<le> w1" "nat w1 div 1000000 \<le> nat w0 div 1000000 + 150" "nat w1 div 1000000 < 2 ^ 64"
  shows "test_rtt_measurement t0 t1 w0 w1"
proof -
  have "50 \<le> nat w0 div 1000000" "nat w0 div 1000000 \<le> nat w1 div 1000000" using assms(1,2) by (auto intro: div_le_mono)
  note r = rtt_in_range [OF this assms(3,4)]
  show ?thesis
    unfolding test_rtt_measurement_def using r assms(3) \<open>nat w0 div 1000000 \<le> nat w1 div 1000000\<close>
    by (simp add: membership_test_eval current_timestamp_ms_def word_le_nat_alt) arith
qed

section \<open>Configuration\<close>

definition accepts :: "NetworkConfig \<Rightarrow> bool" where
  "accepts c \<longleftrightarrow> validate c = Inr ()"

definition test_default_config_valid :: bool where
  "test_default_config_valid = accepts config_default"

definition test_validation :: bool where
  "test_validation = (let d = config_default in
     \<not> accepts (d\<lparr>heartbeat_interval_ms := 0\<rparr>) \<and> \<not> accepts (d\<lparr>election_timeout_min_ms := 500\<rparr>) \<and> \<not> accepts (d\<lparr>election_timeout_max_ms := 1000\<rparr>)
     \<and> \<not> accepts (d\<lparr>heartbeat_timeout_multiplier := 0\<rparr>) \<and> \<not> accepts (d\<lparr>reconnect_initial_ms := 0\<rparr>) \<and> \<not> accepts (d\<lparr>reconnect_max_ms := 500\<rparr>)
     \<and> \<not> accepts (d\<lparr>send_queue_capacity := 0\<rparr>))"

definition test_manual_override_recovery_from_u8 :: bool where
  "test_manual_override_recovery_from_u8 \<longleftrightarrow> recovery_from_u8 0 = Hold \<and> recovery_from_u8 1 = AutoElect \<and> recovery_from_u8 2 = Hold \<and> recovery_from_u8 255 = Hold"

definition test_manual_override_recovery_default_in_config :: bool where
  "test_manual_override_recovery_default_in_config \<longleftrightarrow> cfg_manual_override_recovery config_default = Hold"

definition test_tcp_nodelay_default_in_config :: bool where
  "test_tcp_nodelay_default_in_config = tcp_nodelay config_default"

definition test_auto_reconnect_enabled_default :: bool where
  "test_auto_reconnect_enabled_default = cfg_auto_reconnect_enabled config_default"

definition test_reconnect_max_retries_default :: bool where
  "test_reconnect_max_retries_default \<longleftrightarrow> reconnect_max_retries config_default = 0"

definition test_write_timeout_ms_default_in_config :: bool where
  "test_write_timeout_ms_default_in_config \<longleftrightarrow> write_timeout_ms config_default = 5000 \<and> accepts config_default"

definition test_write_timeout_ms_validation :: bool where
  "test_write_timeout_ms_validation \<longleftrightarrow> \<not> accepts (config_default\<lparr>write_timeout_ms := 0\<rparr>)"

definition test_incoming_queue_capacity_default :: bool where
  "test_incoming_queue_capacity_default \<longleftrightarrow> incoming_queue_capacity config_default = 256 \<and> accepts config_default"

definition test_incoming_queue_capacity_validation :: bool where
  "test_incoming_queue_capacity_validation \<longleftrightarrow> \<not> accepts (config_default\<lparr>incoming_queue_capacity := 0\<rparr>)"

definition test_keepalive_defaults :: bool where
  "test_keepalive_defaults \<longleftrightarrow> keepalive_time_secs config_default = 60 \<and> keepalive_interval_secs config_default = 10 \<and> keepalive_retries config_default = 3"

definition test_keepalive_validation :: bool where
  "test_keepalive_validation \<longleftrightarrow> \<not> accepts (config_default\<lparr>keepalive_time_secs := 0\<rparr>) \<and> \<not> accepts (config_default\<lparr>keepalive_interval_secs := 0\<rparr>)
     \<and> \<not> accepts (config_default\<lparr>keepalive_retries := 0\<rparr>) \<and> accepts config_default"

lemma config_tests:
  "test_default_config_valid" "test_validation" "test_manual_override_recovery_from_u8" "test_manual_override_recovery_default_in_config" "test_tcp_nodelay_default_in_config"
  "test_auto_reconnect_enabled_default" "test_reconnect_max_retries_default" "test_write_timeout_ms_default_in_config" "test_write_timeout_ms_validation"
  "test_incoming_queue_capacity_default" "test_incoming_queue_capacity_validation" "test_keepalive_defaults" "test_keepalive_validation"
  by (simp_all add: test_default_config_valid_def test_validation_def test_manual_override_recovery_from_u8_def test_manual_override_recovery_default_in_config_def
      test_tcp_nodelay_default_in_config_def test_auto_reconnect_enabled_default_def test_reconnect_max_retries_default_def test_write_timeout_ms_default_in_config_def
      test_write_timeout_ms_validation_def test_incoming_queue_capacity_default_def test_incoming_queue_capacity_validation_def test_keepalive_defaults_def
      test_keepalive_validation_def accepts_def validate_def config_default_def recovery_from_u8_def Let_def)

section \<open>Types, errors and protocol\<close>

definition test_peer_id_new_and_as_str :: bool where
  "test_peer_id_new_and_as_str \<longleftrightarrow> as_str (PeerId ''test_peer'') = ''test_peer''"

definition test_peer_id_eq_hash :: bool where
  "test_peer_id_eq_hash = (let a = PeerId ''same''; b = PeerId ''same'' in a = b \<and> b \<in> insert a {})"

definition test_peer_status_as_i32 :: bool where
  "test_peer_status_as_i32 \<longleftrightarrow> as_i32 Connected = 0 \<and> as_i32 Disconnected = 1 \<and> as_i32 Reconnecting = 2 \<and> as_i32 Handshaking = 3"

definition test_peer_info_new_defaults :: "instant \<Rightarrow> bool" where
  "test_peer_info_new_defaults t0 = (let info = peer_info_new t0 (PeerId ''p1'') local_addr in
     as_str (pi_peer_id info) = ''p1'' \<and> pi_addr info = local_addr \<and> pi_status info = Connected \<and> pi_rtt_ms info = None \<and> pi_should_reconnect info)"

definition test_error_code_mapping :: "string \<Rightarrow> string \<Rightarrow> bool" where
  "test_error_code_mapping io_error postcard_error \<longleftrightarrow>
     map error_code [NotInitialized, AlreadyInitialized, InvalidArgument ''test'', Io io_error, ConnectionFailed ''test'', PeerNotFound ''test'', NotLeader, SendQueueFull,
       MessageTooLarge 0, SessionMismatch ''a'' ''b'', DuplicatePeerId ''test'', VersionMismatch 1 2, MaxConnectionsReached, HandshakeFailed ''test'', HandshakeTimeout,
       Serialization postcard_error, NotImplemented, Internal ''test'', AlreadyConnected ''peer_x'']
     = [NOT_INITIALIZED, ALREADY_INITIALIZED, INVALID_ARGUMENT, CONNECTION_FAILED, CONNECTION_FAILED, PEER_NOT_FOUND, NOT_LEADER, SEND_QUEUE_FULL,
       MESSAGE_TOO_LARGE, SESSION_MISMATCH, DUPLICATE_PEER_ID, VERSION_MISMATCH, MAX_CONNECTIONS_REACHED, CONNECTION_FAILED, CONNECTION_FAILED,
       SERIALIZATION_ERROR, INTERNAL_ERROR, INTERNAL_ERROR, ALREADY_CONNECTED]"

definition test_error_display :: bool where
  "test_error_display \<longleftrightarrow> error_text NotInitialized = ''network not initialized'' \<and> error_text NotLeader = ''not leader'' \<and> error_text SendQueueFull = ''send queue full''
     \<and> error_text HandshakeTimeout = ''handshake timeout'' \<and> error_text MaxConnectionsReached = ''max connections reached'' \<and> error_text NotImplemented = ''not implemented''
     \<and> sublist ''bad'' (error_text (InvalidArgument ''bad'')) \<and> sublist ''9999'' (error_text (MessageTooLarge 9999))
     \<and> (let s = error_text (SessionMismatch ''a'' ''b'') in sublist ''a'' s \<and> sublist ''b'' s)
     \<and> (let s = error_text (AlreadyConnected ''peer_x'') in sublist ''peer_x'' s \<and> sublist ''already connected'' s)"

definition test_error_from_io :: "string \<Rightarrow> bool" where
  "test_error_from_io io_err = (let e = from_io_error io_err in (case e of Io _ \<Rightarrow> True | _ \<Rightarrow> False) \<and> error_code e = CONNECTION_FAILED)"

definition test_error_from_postcard :: "string \<Rightarrow> bool" where
  "test_error_from_postcard pc_err = (let e = from_postcard_error pc_err in (case e of Serialization _ \<Rightarrow> True | _ \<Rightarrow> False) \<and> error_code e = SERIALIZATION_ERROR)"

definition test_already_connected_error_code_is_negative_14 :: bool where
  "test_already_connected_error_code_is_negative_14 = (let e = AlreadyConnected ''peer_z'' in
     ALREADY_CONNECTED = - 14 \<and> error_code e = - 14 \<and> error_text e = ''already connected to peer: peer_z'')"

definition test_error_source :: "string \<Rightarrow> string \<Rightarrow> bool" where
  "test_error_source io_error postcard_error \<longleftrightarrow> error_source (Io io_error) \<noteq> None \<and> error_source (Serialization postcard_error) \<noteq> None \<and> error_source NotLeader = None"

definition test_msg_type_returns_internal_range :: bool where
  "test_msg_type_returns_internal_range = list_all (\<lambda>msg. msg_type msg < USER_MESSAGE_START)
     [Handshake ''p'' 0 1 ''s'', HandshakeAck ''p'' 0 True None, PeerLeave ''p'', PeerListSync [], Heartbeat 0 ''p'' 0, HeartbeatResponse 0 0, Ping 0, Pong 0,
      RequestVote 0 ''p'', VoteResponse 0 ''p'' False, LeaderAssign 0 ''p'' ''p'', ForwardedUserData ''p'' 0x0100 0 [], DataChannelHandshake ''p'', DataChannelHandshakeAck ''p'' True]"

definition test_msg_type_constants_unique :: bool where
  "test_msg_type_constants_unique = distinct msg_types_all"

definition test_msg_type_all_covers_every_constant :: bool where
  "test_msg_type_all_covers_every_constant \<longleftrightarrow> length msg_types_all = 14"

definition test_msg_type_expected_values :: bool where
  "test_msg_type_expected_values \<longleftrightarrow> msg_type (Handshake [] 0 0 []) = HANDSHAKE \<and> msg_type (Ping 0) = PING \<and> msg_type (DataChannelHandshake []) = DATA_CHANNEL_HANDSHAKE"

definition test_internal_message_partial_eq :: bool where
  "test_internal_message_partial_eq = (let a = Ping 42; b = Ping 42; c = Ping 99; d = Pong 42 in a = b \<and> a \<noteq> c \<and> a \<noteq> d)"

lemma type_tests: "test_peer_id_new_and_as_str" "test_peer_id_eq_hash" "test_peer_status_as_i32" "test_peer_info_new_defaults t0"
  by (simp_all add: test_peer_id_new_and_as_str_def test_peer_id_eq_hash_def test_peer_status_as_i32_def test_peer_info_new_defaults_def Let_def)

lemma error_tests:
  "test_error_code_mapping io pc" "test_error_from_io io" "test_error_from_postcard pc" "test_already_connected_error_code_is_negative_14" "test_error_source io pc"
  by (simp_all add: test_error_code_mapping_def test_error_from_io_def test_error_from_postcard_def test_already_connected_error_code_is_negative_14_def test_error_source_def
      from_io_error_def from_postcard_error_def Let_def)

lemma error_tests_display: "test_error_display"
proof -
  have "char_of (57 :: nat) = CHR ''9''" by (simp add: char_of_def bit_Suc_0_iff)
  then have "show_nat 9999 = ''9999''" by (simp add: show_nat.simps)
  then show ?thesis by (simp add: test_error_display_def sublist_Cons_right)
qed

lemma protocol_tests:
  "test_msg_type_returns_internal_range" "test_msg_type_constants_unique" "test_msg_type_all_covers_every_constant" "test_msg_type_expected_values" "test_internal_message_partial_eq"
  by (simp_all add: test_msg_type_returns_internal_range_def test_msg_type_constants_unique_def msg_types_all_distinct test_msg_type_all_covers_every_constant_def
      msg_types_all_def [THEN arg_cong [where f = length]]
      test_msg_type_expected_values_def test_internal_message_partial_eq_def Let_def)


section \<open>Messages and frames\<close>

text \<open>\<open>x\<close> is LZ4 and postcard. \<^verbatim>\<open>unwrap()\<close> on an error would panic; a test in which it does fails.\<close>

abbreviation default_max :: u32 where "default_max \<equiv> cfg_max_message_size config_default"
abbreviation default_threshold :: u32 where "default_threshold \<equiv> cfg_compression_threshold config_default"

definition unwrap :: "NetworkError + 'a \<Rightarrow> ('a \<Rightarrow> bool) \<Rightarrow> bool" where
  "unwrap r f = (case r of Inl _ \<Rightarrow> False | Inr v \<Rightarrow> f v)"

definition test_packet_encode_decode :: "ext \<Rightarrow> bytes \<Rightarrow> bool" where
  "test_packet_encode_decode x data = unwrap (encode_packet x 0x0100 data 0 default_threshold default_max) (\<lambda>packet.
     pkt_type packet = 0x0100 \<and> \<not> is_compressed packet \<and> unwrap (decode_payload x packet) (\<lambda>decoded. decoded = data))"

definition test_packet_compression :: "ext \<Rightarrow> bool" where
  "test_packet_compression x = (let data = replicate 2048 0x42 in
     unwrap (encode_packet x 0x0100 data 0 default_threshold default_max) (\<lambda>packet.
       is_compressed packet \<and> length (pkt_payload packet) < length data \<and> unwrap (decode_payload x packet) (\<lambda>decoded. decoded = data)))"

definition test_compression_not_beneficial :: "ext \<Rightarrow> bool" where
  "test_compression_not_beneficial x = (let data = map (\<lambda>i. ucast (drop_bit 24 (word_of_nat i * 2654435761 :: u32)) :: u8) [0..<600] in
     unwrap (encode_packet x 0x0100 data 0 default_threshold default_max) (\<lambda>packet.
       \<not> is_compressed packet \<and> unwrap (decode_payload x packet) (\<lambda>decoded. decoded = data)))"

definition test_user_msg_type_validation :: "ext \<Rightarrow> bool" where
  "test_user_msg_type_validation x = (let enc = (\<lambda>mt. encode_packet x mt [0x74, 0x65, 0x73, 0x74] 0 default_threshold default_max) in
     (\<exists>e. enc 0x0001 = Inl e) \<and> (\<exists>e. enc 0x00FF = Inl e) \<and> (\<exists>p. enc 0x0100 = Inr p))"

definition test_flags_compression_bit :: "ext \<Rightarrow> bool" where
  "test_flags_compression_bit x \<longleftrightarrow>
     unwrap (encode_packet x 0x0100 [0x73, 0x6D, 0x61, 0x6C, 0x6C] 0xFF default_threshold default_max) (\<lambda>packet.
       pkt_flags packet AND 0x01 = 0 \<and> pkt_flags packet AND 0xFE = 0xFE)
     \<and> unwrap (encode_packet x 0x0100 (replicate 2048 0x42) 0x06 default_threshold default_max) (\<lambda>packet.
       is_compressed packet \<and> pkt_flags packet AND 0x01 = 0x01 \<and> pkt_flags packet AND 0xFE = 0x06)"

definition test_message_too_large :: "ext \<Rightarrow> bool" where
  "test_message_too_large x = (case encode_packet x 0x0100 (replicate (unat default_max + 1) 0) 0 default_threshold default_max of
     Inl (MessageTooLarge _) \<Rightarrow> True | _ \<Rightarrow> False)"

definition test_large_message_near_limit :: "ext \<Rightarrow> bool" where
  "test_large_message_near_limit x = (let data = replicate (unat default_max) 0x42 in
     unwrap (encode_packet x 0x0100 data 0 (default_max + 1) default_max) (\<lambda>packet.
       unwrap (decode_payload x packet) (\<lambda>decoded. decoded = data)))"

definition test_compression_threshold_boundary :: "ext \<Rightarrow> bool" where
  "test_compression_threshold_boundary x = (let data = replicate (unat default_threshold) 0xAA; longer = replicate (unat default_threshold + 1) 0xAA in
     unwrap (encode_packet x 0x0100 data 0 default_threshold default_max) (\<lambda>packet_at. \<not> is_compressed packet_at)
     \<and> unwrap (encode_packet x 0x0100 longer 0 default_threshold default_max) (\<lambda>packet_above.
         is_compressed packet_above \<and> unwrap (decode_payload x packet_above) (\<lambda>decoded. decoded = longer)))"

definition serde_messages :: "InternalMessage list" where
  "serde_messages =
     [Handshake ''peer1'' 8080 1 ''session1'', HandshakeAck ''peer2'' 9090 True None, PeerLeave ''peer1'', PeerListSync [(''peer1'', ''127.0.0.1:8080'')],
      Heartbeat 1 ''peer1'' 12345, HeartbeatResponse 1 12345, Ping 12345, Pong 12345, RequestVote 2 ''peer1'', VoteResponse 2 ''peer2'' True,
      LeaderAssign 3 ''peer1'' ''peer2'', ForwardedUserData ''peer1'' 0x0100 0x02 [1, 2, 3], DataChannelHandshake ''peer1'', DataChannelHandshakeAck ''peer2'' True]"

definition test_internal_message_serde :: "ext \<Rightarrow> bool" where
  "test_internal_message_serde x = list_all (\<lambda>msg. unwrap (encode_internal x msg default_max) (\<lambda>packet.
     is_internal packet \<and> pkt_type packet = msg_type msg \<and> unwrap (decode_internal x packet) (\<lambda>decoded. msg = decoded))) serde_messages"

lemma default_limits [simp]: "default_max = 262144" "default_threshold = 512"
  by (simp_all add: config_default_def)

lemma messaging_tests_plain:
  "length data \<le> 512 \<Longrightarrow> test_packet_encode_decode x data" "test_user_msg_type_validation x" "test_message_too_large x" "test_large_message_near_limit x"
proof -
  show "test_packet_encode_decode x data" if "length data \<le> 512"
  proof -
    have "unat (len_u32 data) = length data" using that by (simp add: len_u32_unat)
    with that show ?thesis
      by (simp add: test_packet_encode_decode_def unwrap_def encode_packet_def decode_payload_def is_compressed_def USER_MESSAGE_START_def word_less_nat_alt)
  qed
qed (simp_all add: test_user_msg_type_validation_def test_message_too_large_def test_large_message_near_limit_def unwrap_def encode_packet_def decode_payload_def is_compressed_def
    USER_MESSAGE_START_def len_u32_def Let_def)

text \<open>The tests that compress rest on what they say of LZ4: it gets equal bytes shorter and the scrambled ones not.\<close>

lemma messaging_tests_lz4:
  assumes "lz4_laws x" "length (compress_prepend_size x (replicate 2048 0x42)) < 2048" "length (compress_prepend_size x (replicate 513 0xAA)) < 513"
  shows "test_packet_compression x" "test_flags_compression_bit x" "test_compression_threshold_boundary x"
  using assms
  by (simp_all add: test_packet_compression_def test_flags_compression_bit_def test_compression_threshold_boundary_def unwrap_def encode_packet_def decode_payload_def
      is_compressed_def USER_MESSAGE_START_def len_u32_def lz4_laws_def Let_def)

lemma messaging_tests_scrambled:
  assumes "600 \<le> length (compress_prepend_size x (map (\<lambda>i. ucast (drop_bit 24 (word_of_nat i * 2654435761 :: u32)) :: u8) [0..<600]))"
  shows "test_compression_not_beneficial x"
  using assms
  by (simp add: test_compression_not_beneficial_def unwrap_def encode_packet_def decode_payload_def is_compressed_def USER_MESSAGE_START_def len_u32_def Let_def not_less del: upt_Suc)

lemma messaging_tests_serde:
  assumes "postcard_laws x" "\<And>m. m \<in> set serde_messages \<Longrightarrow> \<exists>b. to_allocvec x m = Inr b \<and> length b \<le> 262144"
  shows "test_internal_message_serde x"
proof -
  have "unwrap (encode_internal x m default_max) (\<lambda>packet. is_internal packet \<and> pkt_type packet = msg_type m \<and> unwrap (decode_internal x packet) (\<lambda>decoded. m = decoded))"
    if m: "m \<in> set serde_messages" for m
  proof -
    obtain b where b: "to_allocvec x m = Inr b" "length b \<le> 262144" using assms(2) [OF m] by blast
    then have "unat (len_u32 b) \<le> 262144" by (simp add: len_u32_unat)
    then obtain p where p: "encode_internal x m default_max = Inr p" using b by (auto simp: encode_internal_def word_less_nat_alt)
    then show ?thesis using encode_internal_type [OF p] decode_encode_internal [OF assms(1) p] by (simp add: unwrap_def)
  qed
  then show ?thesis by (simp add: test_internal_message_serde_def list_all_iff)
qed


text \<open>Decoding from a buffer; \<open>more\<close> says that the decoder asks for more bytes, \<open>yields\<close> that it returns a packet and leaves the rest.\<close>

definition more :: "NetworkError + RawPacket option \<times> bytes \<Rightarrow> bool" where
  "more r = unwrap r (\<lambda>(packet, _). packet = None)"

definition yields :: "NetworkError + RawPacket option \<times> bytes \<Rightarrow> (RawPacket \<Rightarrow> bytes \<Rightarrow> bool) \<Rightarrow> bool" where
  "yields r f = unwrap r (\<lambda>(packet, rest). case packet of None \<Rightarrow> False | Some p \<Rightarrow> f p rest)"

definition test_packet_codec_framing :: bool where
  "test_packet_codec_framing = unwrap (encode default_max \<lparr>pkt_type = 0x0100, pkt_flags = 0x02, pkt_payload = [1, 2, 3, 4, 5]\<rparr> []) (\<lambda>buf.
     yields (decode default_max buf) (\<lambda>decoded _. pkt_type decoded = 0x0100 \<and> pkt_flags decoded = 0x02 \<and> pkt_payload decoded = [1, 2, 3, 4, 5]))"

definition test_packet_codec_partial :: bool where
  "test_packet_codec_partial \<longleftrightarrow>
     unwrap (encode default_max \<lparr>pkt_type = 0x0100, pkt_flags = 0, pkt_payload = [10, 20, 30]\<rparr> []) (\<lambda>full.
       more (decode default_max (take 5 full))
       \<and> yields (decode default_max (take 5 full @ drop 5 full)) (\<lambda>decoded _. pkt_payload decoded = [10, 20, 30]))
     \<and> unwrap (encode default_max \<lparr>pkt_type = 0x0200, pkt_flags = 0, pkt_payload = [1, 2, 3, 4, 5]\<rparr> []) (\<lambda>full2.
       more (decode default_max (take 9 full2))
       \<and> yields (decode default_max (take 9 full2 @ drop 9 full2)) (\<lambda>decoded2 _. pkt_type decoded2 = 0x0200 \<and> pkt_payload decoded2 = [1, 2, 3, 4, 5]))"

definition numbered_packet :: "nat \<Rightarrow> RawPacket" where
  "numbered_packet i = \<lparr>pkt_type = 0x0100 + word_of_nat i, pkt_flags = word_of_nat i, pkt_payload = replicate (i + 1) (word_of_nat i)\<rparr>"

definition test_packet_codec_multiple :: bool where
  "test_packet_codec_multiple =
     unwrap (encode default_max (numbered_packet 0) []) (\<lambda>buf. unwrap (encode default_max (numbered_packet 1) buf) (\<lambda>buf. unwrap (encode default_max (numbered_packet 2) buf) (\<lambda>buf.
       yields (decode default_max buf) (\<lambda>decoded buf. decoded = numbered_packet 0 \<and>
       yields (decode default_max buf) (\<lambda>decoded buf. decoded = numbered_packet 1 \<and>
       yields (decode default_max buf) (\<lambda>decoded buf. decoded = numbered_packet 2 \<and> more (decode default_max buf)))))))"

definition test_packet_codec_too_large :: bool where
  "test_packet_codec_too_large = (case decode default_max (u32_to_be (default_max + 1) @ u16_to_be 0x0100 @ [0]) of Inl (MessageTooLarge _) \<Rightarrow> True | _ \<Rightarrow> False)"

lemmas codec_test_eval = more_def yields_def unwrap_def encode_def decode_def u32_to_be_def u16_to_be_def u32_from_be_def u16_from_be_def len_u32_def Let_def

lemma codec_tests: "test_packet_codec_framing" "test_packet_codec_partial" "test_packet_codec_multiple" "test_packet_codec_too_large"
  by (simp_all add: test_packet_codec_framing_def test_packet_codec_partial_def test_packet_codec_multiple_def numbered_packet_def test_packet_codec_too_large_def codec_test_eval)

section \<open>Routing\<close>

text \<open>A router with its transport and its election; \<open>bound\<close> is the address the listener got.\<close>

definition make_router :: "SocketAddr \<Rightarrow> SessionRouter \<times> LeaderElection \<times> TransportManager" where
  "make_router bound = (router_new (PeerId ''local'') config_default, leader_election_new (PeerId ''local'') False Hold,
     (case transport_new (PeerId ''local'') ''session'' config_default (Inr bound) of Inr tm \<Rightarrow> tm))"

definition invalid_msg_type_errors :: "ext \<Rightarrow> send_env \<Rightarrow> SocketAddr \<Rightarrow> bool" where
  "invalid_msg_type_errors x out bound = (let (router, le, tm) = make_router bound in
     case fst (route_message x out router le Broadcast 0x0001 [] 0 tm) of Inl (InvalidArgument _) \<Rightarrow> True | _ \<Rightarrow> False)"

definition not_leader_errors :: "ext \<Rightarrow> send_env \<Rightarrow> SocketAddr \<Rightarrow> bool" where
  "not_leader_errors x out bound = (let (router, le, tm) = make_router bound;
     (r1, tm) = send_from_leader x out router le 0x0100 [0x78] 0 tm;
     (r2, tm) = forward_message x out router le (PeerId ''local'') FwdBroadcast 0x0100 0 [] tm;
     (r3, tm) = route_message x out (set_centralized True router) le Broadcast 0x0100 [] 0 tm in
     r1 = Inl NotLeader \<and> r2 = Inl NotLeader \<and> r3 = Inl NotLeader)"

definition handle_forwarded_user_data_preserves_packet :: "ext \<Rightarrow> send_env \<Rightarrow> SocketAddr \<Rightarrow> bool" where
  "handle_forwarded_user_data_preserves_packet x out bound = (let (router, le, tm) = make_router bound in
     case fst (handle_forwarded_user_data x out router le ''peer'' 0x0100 5 [0x61, 0x62, 0x63] tm) of
       None \<Rightarrow> False
     | Some pkt \<Rightarrow> pkt_type pkt = 0x0100 \<and> pkt_flags pkt = 5 \<and> pkt_payload pkt = [0x61, 0x62, 0x63])"

lemma router_tests: "invalid_msg_type_errors x out bound" "not_leader_errors x out bound" "handle_forwarded_user_data_preserves_packet x out bound"
  by (simp_all add: invalid_msg_type_errors_def not_leader_errors_def handle_forwarded_user_data_preserves_packet_def make_router_def route_message_def send_from_leader_def
      forward_message_def handle_forwarded_user_data_def bad_type_def set_centralized_def is_centralized_def leader_election_new_def le_is_leader_def le_leader_id_def
      USER_MESSAGE_START_def transport_new_def)

section \<open>Transport\<close>

definition make_transport :: "string \<Rightarrow> string \<Rightarrow> NetworkConfig \<Rightarrow> SocketAddr \<Rightarrow> TransportManager" where
  "make_transport peer_id session_id config bound = (case transport_new (PeerId peer_id) session_id config (Inr bound) of Inr tm \<Rightarrow> tm)"

definition test_auto_reconnect_toggle :: "SocketAddr \<Rightarrow> bool" where
  "test_auto_reconnect_toggle bound = (let tm = make_transport ''toggle_peer'' ''session'' config_default bound;
     tm1 = set_auto_reconnect False tm; tm2 = set_auto_reconnect True tm1 in
     is_auto_reconnect_enabled tm \<and> \<not> is_auto_reconnect_enabled tm1 \<and> is_auto_reconnect_enabled tm2)"

definition test_auto_reconnect_config_disabled :: "SocketAddr \<Rightarrow> bool" where
  "test_auto_reconnect_config_disabled bound \<longleftrightarrow>
     \<not> is_auto_reconnect_enabled (make_transport ''no_reconnect'' ''session'' (config_default\<lparr>cfg_auto_reconnect_enabled := False\<rparr>) bound)"

definition test_reconnect_max_retries_config :: "SocketAddr \<Rightarrow> bool" where
  "test_reconnect_max_retries_config bound \<longleftrightarrow>
     is_auto_reconnect_enabled (make_transport ''retry_peer'' ''session'' (config_default\<lparr>reconnect_max_retries := 5\<rparr>) bound)"

lemma transport_tests: "test_auto_reconnect_toggle bound" "test_auto_reconnect_config_disabled bound" "test_reconnect_max_retries_config bound"
  by (simp_all add: test_auto_reconnect_toggle_def test_auto_reconnect_config_disabled_def test_reconnect_max_retries_config_def make_transport_def transport_new_def
      set_auto_reconnect_def is_auto_reconnect_enabled_def config_default_def Let_def)

section \<open>Callbacks\<close>

text \<open>
  The four functions the test registers are numbered 0 to 3. The test sleeps while the thread empties the queue, then shuts it down; \<open>n\<close> is the number of steps the thread makes meanwhile.
  A test flag is set when the function was called, for the first only with the arguments it looks for.
\<close>

definition test_registration_and_delivery :: "nat \<Rightarrow> bool" where
  "test_registration_and_delivery n = (let
     mgr = register_receive_callback (Some 3) (register_peer_status_callback (Some 2) (register_leader_changed_callback (Some 1) (register_connection_result_callback (Some 0) callback_new)));
     mgr = send_connection_result Sent ''foo'' True 0 mgr;
     mgr = send_leader_changed Sent (Some (PeerId ''x'')) mgr;
     mgr = send_peer_status Sent (PeerId ''y'') 5 mgr;
     mgr = send_received Sent (PeerId ''z'') [0x68, 0x69] 0x100 3 mgr;
     mgr = drain_and_shutdown ((callback_step ^^ n) mgr);
     joined = join_thread (callback_step (callback_step mgr)) in
     (case joined of None \<Rightarrow> False | Some mgr \<Rightarrow>
        list_ex (\<lambda>c. case c of CallConnectionResult f addr success code \<Rightarrow> f = 0 \<and> addr = ''foo'' \<and> success = 1 | _ \<Rightarrow> False) (cb_calls mgr)
        \<and> list_ex (\<lambda>c. case c of CallLeaderChanged f _ \<Rightarrow> f = 1 | _ \<Rightarrow> False) (cb_calls mgr)
        \<and> list_ex (\<lambda>c. case c of CallPeerStatus f _ _ \<Rightarrow> f = 2 | _ \<Rightarrow> False) (cb_calls mgr)
        \<and> list_ex (\<lambda>c. case c of CallReceive f _ _ _ _ _ \<Rightarrow> f = 3 | _ \<Rightarrow> False) (cb_calls mgr)))"

definition test_unregister_and_shutdown :: bool where
  "test_unregister_and_shutdown = (let
     mgr = register_receive_callback None (register_peer_status_callback None (register_leader_changed_callback None (register_connection_result_callback None callback_new)));
     mgr = drain_and_shutdown (send_event Sent (ConnectionResult ''a'' False 1) mgr) in
     join_thread (callback_step mgr) \<noteq> None)"

lemmas callback_test_eval = callback_new_def register_receive_callback_def register_peer_status_callback_def register_leader_changed_callback_def
  register_connection_result_callback_def send_connection_result_def send_leader_changed_def send_peer_status_def send_received_def send_event_def
  drain_and_shutdown_def join_thread_def callback_step_def dispatch_event_def call_for_def cstring_new_def u8_from_bool_def Let_def

lemma two_steps:
  "cb_thread m = AtFlag \<Longrightarrow> \<not> cb_shutdown m \<Longrightarrow> cb_queue m = e # q \<Longrightarrow>
     callback_step (callback_step m) = m\<lparr>cb_queue := q, cb_calls := cb_calls m @ (case call_for m e of None \<Rightarrow> [] | Some c \<Rightarrow> [c])\<rparr>"
  by (simp add: callback_step_def dispatch_event_def split: option.split)

lemma callback_tests: "test_registration_and_delivery 8" "test_unregister_and_shutdown"
proof -
  let ?m = "callback_new\<lparr>connection_result_callback := Some 0, leader_changed_callback := Some 1, peer_status_callback := Some 2, receive_callback := Some 3\<rparr>"
  let ?q = "[ConnectionResult ''foo'' True 0, LeaderChanged (Some ''x''), PeerStatusChanged ''y'' 5, Received ''z'' [0x68, 0x69] 0x100 3]"
  have steps: "(callback_step ^^ 8) m = (callback_step \<circ> callback_step) ((callback_step \<circ> callback_step) ((callback_step \<circ> callback_step) ((callback_step \<circ> callback_step) m)))" for m
    by (simp add: eval_nat_numeral)
  have "(callback_step ^^ 8) (?m\<lparr>cb_queue := ?q\<rparr>) = ?m\<lparr>cb_calls :=
      [CallConnectionResult 0 ''foo'' 1 0, CallLeaderChanged 1 ''x'', CallPeerStatus 2 ''y'' 5, CallReceive 3 ''z'' [0x68, 0x69] (len_i32 [0x68, 0x69]) 0x100 3]\<rparr>"
    unfolding steps by (simp add: two_steps callback_new_def) (simp add: call_for_def cstring_new_def u8_from_bool_def)
  then show "test_registration_and_delivery 8"
    by (simp add: test_registration_and_delivery_def callback_test_eval)
qed (simp add: test_unregister_and_shutdown_def callback_test_eval)


section \<open>Discovery\<close>

definition make_membership :: "string \<Rightarrow> MembershipManager" where
  "make_membership peer_id = membership_new (PeerId peer_id) config_default"

abbreviation meets :: "string \<Rightarrow> string \<Rightarrow> string \<Rightarrow> string \<Rightarrow> SocketAddr \<Rightarrow> bool" where
  "meets me session peer peer_session bound \<equiv>
     should_connect_to_discovered_peer (PeerId me) session peer peer_session (make_membership me) (make_transport me ''test_session'' config_default bound)"

definition test_same_session_connects :: "SocketAddr \<Rightarrow> bool" where
  "test_same_session_connects bound = meets ''peer_a'' ''session1'' ''peer_b'' ''session1'' bound"

definition test_different_session_rejects :: "SocketAddr \<Rightarrow> bool" where
  "test_different_session_rejects bound \<longleftrightarrow> \<not> meets ''peer_a'' ''session1'' ''peer_b'' ''session2'' bound"

definition test_self_excluded :: "SocketAddr \<Rightarrow> bool" where
  "test_self_excluded bound \<longleftrightarrow> \<not> meets ''peer_a'' ''session1'' ''peer_a'' ''session1'' bound"

definition test_already_connected_skipped :: "SocketAddr \<Rightarrow> instant \<Rightarrow> bool" where
  "test_already_connected_skipped bound t0 = (let (added, membership) = add_peer t0 (PeerId ''peer_b'') local_addr (make_membership ''peer_a'') in
     added = Inr () \<and> \<not> should_connect_to_discovered_peer (PeerId ''peer_a'') ''session1'' ''peer_b'' ''session1'' membership
       (make_transport ''peer_a'' ''test_session'' config_default bound))"

definition test_lexicographic_dedup :: "SocketAddr \<Rightarrow> SocketAddr \<Rightarrow> bool" where
  "test_lexicographic_dedup bound bound2 \<longleftrightarrow> \<not> meets ''peer_b'' ''session1'' ''peer_a'' ''session1'' bound \<and> meets ''peer_a'' ''session1'' ''peer_b'' ''session1'' bound2"

definition test_connect_to_discovery_server_not_implemented :: bool where
  "test_connect_to_discovery_server_not_implemented \<longleftrightarrow> connect_to_discovery_server ''1.2.3.4:5000'' = Inl NotImplemented"

lemma discovery_tests:
  "test_same_session_connects bound" "test_different_session_rejects bound" "test_self_excluded bound" "test_already_connected_skipped bound t0"
  "test_lexicographic_dedup bound bound2" "test_connect_to_discovery_server_not_implemented"
  by (simp_all add: test_same_session_connects_def test_different_session_rejects_def test_self_excluded_def test_already_connected_skipped_def test_lexicographic_dedup_def
      test_connect_to_discovery_server_not_implemented_def connect_to_discovery_server_def should_connect_to_discovered_peer_def make_membership_def make_transport_def
      transport_new_def tm_has_peer_def membership_test_eval less_char_def)

text \<open>\<open>wide\<close> is a character of three bytes.\<close>

definition wide :: string where
  "wide = [CHR 0xE4, CHR 0xB8, CHR 0xAD]"

definition test_dns_label_truncate_within_limit :: bool where
  "test_dns_label_truncate_within_limit \<longleftrightarrow> dns_label_truncate ''short'' = ''short''"

definition test_dns_label_truncate_exactly_63 :: bool where
  "test_dns_label_truncate_exactly_63 = (let s = replicate 63 (CHR ''a'') in dns_label_truncate s = s)"

definition test_dns_label_truncate_over_limit :: bool where
  "test_dns_label_truncate_over_limit = (let s = replicate 100 (CHR ''a''); result = dns_label_truncate s in length result = 63)"

definition test_dns_label_truncate_multi_byte_boundary :: bool where
  "test_dns_label_truncate_multi_byte_boundary = (let s = concat (replicate 22 wide); result = dns_label_truncate s in
     length result \<le> 63 \<and> is_char_boundary s (length result))"

definition test_make_unique_dns_label_within_limit :: bool where
  "test_make_unique_dns_label_within_limit \<longleftrightarrow> make_unique_dns_label ''session_peer'' = ''session_peer''"

definition test_make_unique_dns_label_exactly_63 :: bool where
  "test_make_unique_dns_label_exactly_63 = (let s = replicate 63 (CHR ''a'') in make_unique_dns_label s = s)"

definition test_make_unique_dns_label_over_limit_length :: bool where
  "test_make_unique_dns_label_over_limit_length = (let s = replicate 100 (CHR ''a'') in length (make_unique_dns_label s) \<le> 63)"

definition test_make_unique_dns_label_multi_byte_boundary :: bool where
  "test_make_unique_dns_label_multi_byte_boundary = (let head = replicate 45 (CHR ''a''); s = head @ concat (replicate 10 wide); result = make_unique_dns_label s in
     length result \<le> 63 \<and> prefix head result)"

lemma label_tests_short:
  "test_dns_label_truncate_within_limit" "test_dns_label_truncate_exactly_63" "test_make_unique_dns_label_within_limit" "test_make_unique_dns_label_exactly_63"
  by (simp_all add: test_dns_label_truncate_within_limit_def test_dns_label_truncate_exactly_63_def test_make_unique_dns_label_within_limit_def
      test_make_unique_dns_label_exactly_63_def dns_label_truncate_def make_unique_dns_label_def MAX_DNS_LABEL_BYTES_def Let_def)


lemma boundary_below_hit: "is_char_boundary s i \<Longrightarrow> boundary_below s i = i"
  by (cases i) simp_all

lemma label_tests_long:
  "test_dns_label_truncate_over_limit" "test_dns_label_truncate_multi_byte_boundary" "test_make_unique_dns_label_over_limit_length" "test_make_unique_dns_label_multi_byte_boundary"
proof -
  have "is_char_boundary (replicate 100 (CHR ''a'')) 63" by (simp add: is_char_boundary_def continuation_def)
  then show "test_dns_label_truncate_over_limit"
    by (simp add: test_dns_label_truncate_over_limit_def dns_label_truncate_def MAX_DNS_LABEL_BYTES_def boundary_below_hit Let_def)
  let ?s = "concat (replicate 22 wide)"
  have len: "length ?s = 66" by (simp add: wide_def length_concat sum_list_replicate)
  show "test_dns_label_truncate_multi_byte_boundary"
    using boundary_below_le [of ?s 63] boundary_below_boundary [of ?s 63]
    by (simp add: test_dns_label_truncate_multi_byte_boundary_def dns_label_truncate_def MAX_DNS_LABEL_BYTES_def len Let_def min_def)
  show "test_make_unique_dns_label_over_limit_length"
    using label_short [of "replicate 100 (CHR ''a'')"] by (simp add: test_make_unique_dns_label_over_limit_length_def MAX_DNS_LABEL_BYTES_def)
  let ?h = "replicate 45 (CHR ''a'')" and ?w = "concat (replicate 10 wide)"
  have w: "length ?w = 30" "?w ! 0 = CHR 0xE4" by (simp_all add: wide_def length_concat sum_list_replicate eval_nat_numeral)
  then have "is_char_boundary (?h @ ?w) 45" by (simp add: is_char_boundary_def continuation_def nth_append)
  then have "45 \<le> boundary_below (?h @ ?w) 46"
    using boundary_below.simps(2) [of "?h @ ?w" 45] by (simp add: boundary_below_hit eval_nat_numeral)
  then have "prefix ?h (take (boundary_below (?h @ ?w) 46) (?h @ ?w) @ t)" for t by simp
  moreover have "make_unique_dns_label (?h @ ?w) = take (boundary_below (?h @ ?w) 46) (?h @ ?w) @ ''_'' @ hex16 (fnv1a_64 (?h @ ?w))"
    using w(1) by (simp add: make_unique_dns_label_def MAX_DNS_LABEL_BYTES_def)
  ultimately have "prefix ?h (make_unique_dns_label (?h @ ?w))" by metis
  then show "test_make_unique_dns_label_multi_byte_boundary"
    using label_short [of "?h @ ?w"] unfolding test_make_unique_dns_label_multi_byte_boundary_def Let_def MAX_DNS_LABEL_BYTES_def by blast
qed

end
