(* ===== verification/Ffi_Tests.thy ===== *)
theory Ffi_Tests
  imports Ffi Unit_Tests
begin

text \<open>
  The tests of the C interface in \<^verbatim>\<open>src/lib.rs\<close> and \<^verbatim>\<open>src/ffi.rs\<close> that need no second node, replayed on the model. The tests call the exported functions on the
  globals of the process; here the globals are passed along.
\<close>

section \<open>Configuration and strings\<close>

text \<open>The structure the tests build from the default configuration, field by field; they differ in single fields.\<close>

definition default_ffi :: NetworkConfigFFI where
  "default_ffi = (let d = config_default in
     \<lparr>ffi_reconnect_max_ms = reconnect_max_ms d, ffi_compression_threshold = cfg_compression_threshold d, ffi_max_message_size = cfg_max_message_size d,
      ffi_heartbeat_interval_ms = heartbeat_interval_ms d, ffi_election_timeout_min_ms = election_timeout_min_ms d, ffi_election_timeout_max_ms = election_timeout_max_ms d,
      ffi_reconnect_initial_ms = reconnect_initial_ms d, ffi_handshake_timeout_ms = handshake_timeout_ms d, ffi_write_timeout_ms = write_timeout_ms d,
      ffi_send_queue_capacity = word_of_nat (send_queue_capacity d), ffi_incoming_queue_capacity = word_of_nat (incoming_queue_capacity d),
      ffi_max_connections = word_of_nat (max_connections d), ffi_keepalive_time_secs = keepalive_time_secs d, ffi_keepalive_interval_secs = keepalive_interval_secs d,
      ffi_mdns_port = mdns_port d, ffi_heartbeat_timeout_multiplier = heartbeat_timeout_multiplier d, ffi_keepalive_retries = keepalive_retries d,
      ffi_centralized_auto_forward = 1, ffi_auto_election_enabled = 1, ffi_manual_override_recovery = 0, ffi_tcp_nodelay = 0, ffi_auto_reconnect_enabled = 1,
      ffi_reconnect_max_retries = 0\<rparr>)"

definition test_ffi_tcp_nodelay_roundtrip :: bool where
  "test_ffi_tcp_nodelay_roundtrip = (let ffi = default_ffi\<lparr>ffi_tcp_nodelay := 1\<rparr>; cfg = config_from_ffi ffi; cfg0 = config_from_ffi (ffi\<lparr>ffi_tcp_nodelay := 0\<rparr>) in
     tcp_nodelay cfg \<and> \<not> tcp_nodelay cfg0)"

definition test_ffi_config_size_unchanged :: bool where
  "test_ffi_config_size_unchanged \<longleftrightarrow> snd (repr_c_layout config_ffi_widths) = 44"

definition test_ffi_keepalive_roundtrip :: bool where
  "test_ffi_keepalive_roundtrip = (let cfg = config_from_ffi (default_ffi\<lparr>ffi_keepalive_time_secs := 30, ffi_keepalive_interval_secs := 5, ffi_keepalive_retries := 5\<rparr>) in
     keepalive_time_secs cfg = 30 \<and> keepalive_interval_secs cfg = 5 \<and> keepalive_retries cfg = 5)"

definition test_ffi_write_timeout_roundtrip :: bool where
  "test_ffi_write_timeout_roundtrip \<longleftrightarrow> write_timeout_ms (config_from_ffi (default_ffi\<lparr>ffi_write_timeout_ms := 3000\<rparr>)) = 3000"

definition test_ffi_incoming_queue_capacity_roundtrip :: bool where
  "test_ffi_incoming_queue_capacity_roundtrip \<longleftrightarrow> incoming_queue_capacity (config_from_ffi (default_ffi\<lparr>ffi_incoming_queue_capacity := 512\<rparr>)) = 512"

definition test_c_str_to_string_null :: bool where
  "test_c_str_to_string_null = (case c_str_to_string None of Inl (InvalidArgument _) \<Rightarrow> True | _ \<Rightarrow> False)"

definition test_return_string_and_last_error :: "ffi_state \<Rightarrow> bool" where
  "test_return_string_and_last_error g = (let (ptr, g1) = return_string ''hello'' g; g2 = set_error 123 ''oops'' g1 in
     (case ptr of None \<Rightarrow> False | Some p \<Rightarrow> read_ptr g1 p = Some ''hello'') \<and> LAST_ERROR g2 = Some (123, ''oops''))"

lemma ffi_config_tests:
  "test_ffi_tcp_nodelay_roundtrip" "test_ffi_keepalive_roundtrip" "test_ffi_write_timeout_roundtrip" "test_ffi_incoming_queue_capacity_roundtrip" "test_ffi_config_size_unchanged"
  by (simp_all add: test_ffi_tcp_nodelay_roundtrip_def test_ffi_keepalive_roundtrip_def test_ffi_write_timeout_roundtrip_def test_ffi_incoming_queue_capacity_roundtrip_def
      test_ffi_config_size_unchanged_def config_from_ffi_def Let_def repr_c_layout_def config_ffi_widths_def align_up_def)

lemma ffi_string_tests: "test_c_str_to_string_null" "test_return_string_and_last_error g"
  by (simp_all add: test_c_str_to_string_null_def c_str_to_string_def test_return_string_and_last_error_def return_string_def read_ptr_def cstring_new_def set_error_def)

section \<open>Calls without a network\<close>

text \<open>A test is a script of checks; \<open>returns f v\<close> checks that the call \<open>f\<close> returns \<open>v\<close> and goes on with the state it leaves.\<close>

type_synonym ffi_check = "(ffi_state \<Rightarrow> bool) \<Rightarrow> ffi_state \<Rightarrow> bool"

definition script :: "ffi_check list \<Rightarrow> ffi_state \<Rightarrow> bool" where
  "script cs = foldr (\<lambda>c k. c k) cs (\<lambda>_. True)"

definition call :: "(ffi_state \<Rightarrow> 'r \<times> ffi_state) \<Rightarrow> ('r \<Rightarrow> bool) \<Rightarrow> ffi_check" where
  "call f expected k g = (case f g of (r, g') \<Rightarrow> expected r \<and> k g')"

abbreviation returns :: "(ffi_state \<Rightarrow> 'r \<times> ffi_state) \<Rightarrow> 'r \<Rightarrow> ffi_check" where
  "returns f v \<equiv> call f (\<lambda>r. r = v)"

abbreviation fails :: "(ffi_state \<Rightarrow> int \<times> ffi_state) \<Rightarrow> ffi_check" where
  "fails f \<equiv> call f (\<lambda>r. r \<noteq> OK)"

definition shuts_down :: "ffi_env \<Rightarrow> int \<Rightarrow> ffi_check" where
  "shuts_down env code k g = (case ShutdownNetwork env g of None \<Rightarrow> False | Some (r, _, g') \<Rightarrow> r = code \<and> k g')"

definition reads :: "(ffi_state \<Rightarrow> nat option \<times> ffi_state) \<Rightarrow> string \<Rightarrow> ffi_check" where
  "reads f s k g = (case f g of (None, _) \<Rightarrow> False | (Some p, g') \<Rightarrow> read_ptr g' p = Some s \<and> k g')"

definition test_ffi_error_codes_not_initialized :: "ffi_env \<Rightarrow> ffi_state \<Rightarrow> bool" where
  "test_ffi_error_codes_not_initialized env = script [returns (IsNetworkInitialized env) 0, returns (GetLocalAddr env) None]"

definition test_ffi_operations_before_init :: "ffi_env \<Rightarrow> ffi_state \<Rightarrow> bool" where
  "test_ffi_operations_before_init env = (let peer = Some ''some_peer''; data = Some [0x74, 0x65, 0x73, 0x74, 0x5F, 0x64, 0x61, 0x74, 0x61]; len = 9 in script
     [returns (IsNetworkInitialized env) 0,
      fails (SendToPeer env peer data len 0x0100 0),
      fails (BroadcastMessage env data len 0x0100 0),
      fails (SendToLeader env data len 0x0100 0),
      fails (ConnectToPeer env (Some ''127.0.0.1:9999'')),
      fails (DisconnectPeer env peer),
      fails (SetLeader env peer),
      fails (ForwardMessage env peer peer data len 0x0100 0),
      fails (SendFromLeader env data len 0x0100 0),
      shuts_down env NOT_INITIALIZED])"

lemma script_simps [simp]: "script [] g" "script (c # cs) g = c (script cs) g"
  by (simp_all add: script_def)

lemma refused:
  "NETWORK g = None \<Longrightarrow> fe_panic env = None \<Longrightarrow> (\<And>p s. c \<noteq> CInit p s) \<Longrightarrow> (\<And>p s f. c \<noteq> CInitConfig p s f) \<Longrightarrow> (\<And>b. c \<noteq> CEnableLogging b) \<Longrightarrow>
     (\<And>g'. NETWORK g' = None \<Longrightarrow> k g') \<Longrightarrow> fails (command_exec env c) k g"
  using uninitialized_refused [of g env c] by (auto simp: call_def)


lemma refused_commands:
  assumes "NETWORK g = None" "fe_panic env = None" "\<And>g'. NETWORK g' = None \<Longrightarrow> k g'"
  shows "fails (SendToPeer env p d l mt fl) k g" "fails (BroadcastMessage env d l mt fl) k g" "fails (SendToLeader env d l mt fl) k g" "fails (ConnectToPeer env p) k g"
    "fails (DisconnectPeer env p) k g" "fails (SetLeader env p) k g" "fails (ForwardMessage env p q d l mt fl) k g" "fails (SendFromLeader env d l mt fl) k g"
  using refused [OF assms(1,2) _ _ _ assms(3), of "CSendToPeer p d l mt fl"] refused [OF assms(1,2) _ _ _ assms(3), of "CBroadcast d l mt fl"]
    refused [OF assms(1,2) _ _ _ assms(3), of "CSendToLeader d l mt fl"] refused [OF assms(1,2) _ _ _ assms(3), of "CConnect p"]
    refused [OF assms(1,2) _ _ _ assms(3), of "CDisconnect p"] refused [OF assms(1,2) _ _ _ assms(3), of "CSetLeader p"]
    refused [OF assms(1,2) _ _ _ assms(3), of "CForward p q d l mt fl"] refused [OF assms(1,2) _ _ _ assms(3), of "CSendFromLeader d l mt fl"]
  by simp_all

lemma ffi_tests_without_network:
  assumes "NETWORK g = None" "fe_panic env = None"
  shows "test_ffi_error_codes_not_initialized env g" "test_ffi_operations_before_init env g"
proof -
  have initialized: "returns (IsNetworkInitialized env) 0 k g" if "NETWORK g = None" "k g" for k g
    using assms(2) that by (simp add: call_def IsNetworkInitialized_def catch_unwind_def u8_from_bool_def)
  have shut: "shuts_down env NOT_INITIALIZED (script []) g" if "NETWORK g = None" for g
    using assms(2) that by (simp add: shuts_down_def ShutdownNetwork_def)
  show "test_ffi_error_codes_not_initialized env g"
    unfolding test_ffi_error_codes_not_initialized_def script_simps using assms
    by (intro initialized) (simp_all add: call_def GetLocalAddr_def query_string_def catch_unwind_def query_def with_network_def)
  show "test_ffi_operations_before_init env g"
    unfolding test_ffi_operations_before_init_def Let_def script_simps using assms by (intro initialized refused_commands shut)
qed

section \<open>The life of a network\<close>

text \<open>
  The phases of \<^verbatim>\<open>test_ffi_full_lifecycle\<close>. \<open>ffi_lc_env\<close> is a process in which everything the test relies on succeeds: the runtime starts, the listener is bound, the queues are empty when the
  network shuts down.
\<close>

definition ffi_lc_env :: ffi_env where
  "ffi_lc_env = demo_ffi_env\<lparr>fe_shutdown := \<lparr>se_start = 0, se_polls = [((\<lambda>_. True), 0, demo_pair)], se_meanwhile = id, se_steps = 2\<rparr>\<rparr>"

definition ffi_getters_setters :: "ffi_env \<Rightarrow> ffi_check list" where
  "ffi_getters_setters env =
     [call (GetLocalAddr env) (\<lambda>p. p \<noteq> None), call (GetLocalPeerId env) (\<lambda>p. p \<noteq> None), call (GetSessionId env) (\<lambda>p. p \<noteq> None),
      reads (GetLocalPeerId env) ''ffi_lc_peer'', reads (GetSessionId env) ''ffi_lc_session'',
      returns (GetPeerCount env) 0, call (GetPeerList env) (\<lambda>p. p \<noteq> None), call (GetCurrentLeader env) (\<lambda>p. p \<noteq> None),
      returns (IsLeader env) 0, returns (IsCentralizedMode env) 0, returns (IsCentralizedAutoForward env) 1,
      returns (SetCentralizedMode env 1) OK, returns (IsCentralizedMode env) 1, returns (SetCentralizedMode env 0) OK, returns (IsCentralizedMode env) 0,
      returns (SetCentralizedAutoForward env 0) OK, returns (IsCentralizedAutoForward env) 0,
      returns (SetCentralizedAutoForward env 1) OK, returns (IsCentralizedAutoForward env) 1,
      returns (SetCompressionThreshold env 1024) OK,
      returns (EnableAutoLeaderElection env 0) OK, returns (EnableAutoLeaderElection env 1) OK,
      returns (IsAutoReconnectEnabled env) 1, returns (SetAutoReconnect env 0) OK, returns (IsAutoReconnectEnabled env) 0,
      returns (SetAutoReconnect env 1) OK, returns (IsAutoReconnectEnabled env) 1, returns (EnableLogging env 0) OK,
      returns (GetPeerRTT env (Some ''unknown_peer'')) (- 1), returns (GetPeerStatus env (Some ''unknown_peer'')) (- 1),
      shuts_down env OK]"

definition ffi_with_config :: "ffi_env \<Rightarrow> ffi_check list" where
  "ffi_with_config env = (let peer_id = Some ''ffi_lc_peer''; session_id = Some ''ffi_lc_session'';
       config = default_ffi\<lparr>ffi_compression_threshold := 256, ffi_send_queue_capacity := 512\<rparr> in
     [returns (InitializeNetworkWithConfig env peer_id session_id (Some config)) OK, shuts_down env OK,
      returns (InitializeNetworkWithConfig env peer_id session_id None) INVALID_ARGUMENT])"

definition ffi_null_args :: "ffi_env \<Rightarrow> ffi_check list" where
  "ffi_null_args env =
     [returns (InitializeNetwork env None None) INVALID_ARGUMENT, shuts_down env NOT_INITIALIZED, fails (BroadcastMessage env None 10 0x0100 0)]"

definition ffi_reinitialize :: "ffi_env \<Rightarrow> ffi_check list" where
  "ffi_reinitialize env = (let peer_id2 = Some ''ffi_reinit_peer''; session_id2 = Some ''ffi_reinit_session'' in
     [returns (InitializeNetwork env peer_id2 session_id2) OK, returns (IsNetworkInitialized env) 1,
      returns (InitializeNetwork env peer_id2 session_id2) ALREADY_INITIALIZED, shuts_down env OK, returns (IsNetworkInitialized env) 0,
      returns (InitializeNetwork env peer_id2 session_id2) OK, shuts_down env OK])"

definition test_ffi_full_lifecycle :: "ffi_env \<Rightarrow> ffi_state \<Rightarrow> bool" where
  "test_ffi_full_lifecycle env = script
     (returns (InitializeNetwork env (Some ''ffi_lc_peer'') (Some ''ffi_lc_session'')) OK # ffi_getters_setters env @ ffi_with_config env @ ffi_null_args env @ ffi_reinitialize env)"


lemma ffi_lc_env_simps [simp]:
  "fe_panic ffi_lc_env = None" "fe_runtime ffi_lc_env = None" "fe_bound ffi_lc_env = Inr (demo_addr 4000)"
  by (simp_all add: ffi_lc_env_def)

lemma ffi_lc_names:
  "c_str_to_string (Some ''ffi_lc_peer'') = Inr ''ffi_lc_peer''" "c_str_to_string (Some ''ffi_lc_session'') = Inr ''ffi_lc_session''"
  "c_str_to_string (Some ''ffi_reinit_peer'') = Inr ''ffi_reinit_peer''" "c_str_to_string (Some ''ffi_reinit_session'') = Inr ''ffi_reinit_session''"
  "c_str_to_string (Some ''unknown_peer'') = Inr ''unknown_peer''"
  by (rule c_str_ascii; simp)+

text \<open>Shutting down succeeds whatever the network has become; initializing succeeds with every configuration that validates.\<close>

lemma shuts_down_running:
  assumes "NETWORK g = Some ns" "RUNTIME g" "\<And>g'. NETWORK g' = None \<Longrightarrow> k g'"
  shows "shuts_down ffi_lc_env OK k g"
proof -
  have "cb_thread ((callback_step ^^ 2) (drain_and_shutdown cb)) = Finished" for cb
    by (cases "cb_thread cb"; cases "cb_queue cb") (simp_all add: callback_step_def drain_and_shutdown_def numeral_2_eq_2)
  moreover have "all_queues_empty (\<lambda>_. True) demo_pair" by (simp add: all_queues_empty_def split: option.split)
  ultimately have "node_shutdown (fe_node ffi_lc_env) (fe_shutdown ffi_lc_env) ns \<noteq> None"
    by (auto simp: node_shutdown_def ffi_lc_env_def join_thread_def Let_def)
  then show ?thesis using assms by (auto simp: shuts_down_def ShutdownNetwork_def)
qed

lemma initializes:
  assumes "NETWORK g = None" "validate cfg = Inr ()" "c_str_to_string p = Inr name" "c_str_to_string s = Inr sess"
    and "\<And>g' ns d h c r. NETWORK g' = Some ns \<Longrightarrow> RUNTIME g' \<Longrightarrow> node_new name sess cfg (Inr (demo_addr 4000)) d h c r = Inr ns \<Longrightarrow> k g'"
  shows "returns (initialize_network_inner ffi_lc_env p s (Some cfg)) OK k g"
proof -
  obtain ns where ns: "node_new name sess cfg (Inr (demo_addr 4000)) (fe_daemon ffi_lc_env) (fe_host ffi_lc_env) (fe_create ffi_lc_env) (fe_register ffi_lc_env) = Inr ns"
    by (auto simp: node_new_def transport_new_def Let_def case_prod_beta)
  then show ?thesis using assms by (simp add: call_def initialize_network_inner_def initialize_checked_def)
qed

lemma default_valid: "validate config_default = Inr ()" "validate (config_from_ffi (default_ffi\<lparr>ffi_compression_threshold := 256, ffi_send_queue_capacity := 512\<rparr>)) = Inr ()"
  by (simp_all add: validate_def config_from_ffi_def default_ffi_def config_default_def Let_def)

lemma initializes_default:
  assumes "NETWORK g = None" "c_str_to_string p = Inr name" "c_str_to_string s = Inr sess"
    and "\<And>g' ns d h c r. NETWORK g' = Some ns \<Longrightarrow> RUNTIME g' \<Longrightarrow> node_new name sess config_default (Inr (demo_addr 4000)) d h c r = Inr ns \<Longrightarrow> k g'"
  shows "returns (InitializeNetwork ffi_lc_env p s) OK k g"
proof -
  have "InitializeNetwork ffi_lc_env p s = initialize_network_inner ffi_lc_env p s (Some config_default)"
    by (simp add: InitializeNetwork_def fun_eq_iff initialize_network_inner_def) (simp only: initialize_checked_def option.case simp_thms)
  then show ?thesis using initializes [OF assms(1) default_valid(1) assms(2,3), of k] assms(4) by simp
qed

text \<open>What the getters and setters do while there is a network.\<close>

definition at :: "NetworkState \<Rightarrow> ffi_state \<Rightarrow> bool" where
  "at ns g \<longleftrightarrow> NETWORK g = Some ns \<and> RUNTIME g"

lemma at_string:
  "at ns g \<Longrightarrow> (\<And>g'. at ns g' \<Longrightarrow> k g') \<Longrightarrow> call (query_string ffi_lc_env f) (\<lambda>p. p \<noteq> None) k g"
  "at ns g \<Longrightarrow> cstring_new (f ns) = Some s \<Longrightarrow> (\<And>g'. at ns g' \<Longrightarrow> k g') \<Longrightarrow> reads (query_string ffi_lc_env f) s k g"
  by (simp_all add: call_def reads_def at_def query_string_def catch_unwind_def query_def with_network_def return_string_def read_ptr_def Let_def)

lemma at_number:
  "at ns g \<Longrightarrow> u8_from_bool (f ns) = v \<Longrightarrow> (\<And>g'. at ns g' \<Longrightarrow> k g') \<Longrightarrow> returns (query_flag ffi_lc_env f) v k g"
  "at ns g \<Longrightarrow> get_connected_peer_count (ns_membership ns) = 0 \<Longrightarrow> (\<And>g'. at ns g' \<Longrightarrow> k g') \<Longrightarrow> returns (GetPeerCount ffi_lc_env) 0 k g"
  "at ns g \<Longrightarrow> c_str_to_string p = Inr pid \<Longrightarrow> q (PeerId pid) ns = i \<Longrightarrow> (\<And>g'. at ns g' \<Longrightarrow> k g') \<Longrightarrow> returns (peer_query ffi_lc_env name q p) i k g"
  by (simp_all add: call_def at_def query_flag_def catch_unwind_def query_def with_network_def GetPeerCount_def as_i32_nat_def peer_query_def)

lemma at_set:
  "at ns g \<Longrightarrow> (\<And>g'. at (f ns) g' \<Longrightarrow> k g') \<Longrightarrow> returns (setter ffi_lc_env name f) OK k g"
  "at ns g \<Longrightarrow> (\<And>g'. at ns g' \<Longrightarrow> k g') \<Longrightarrow> returns (EnableLogging ffi_lc_env b) OK k g"
  "at ns g \<Longrightarrow> (\<And>g'. NETWORK g' = None \<Longrightarrow> k g') \<Longrightarrow> shuts_down ffi_lc_env OK k g"
  using shuts_down_running by (auto simp: call_def at_def setter_def report_def with_network_def EnableLogging_def)

lemma toggles:
  "is_centralized (set_centralized b r) = b" "is_centralized (set_auto_forward b r) = is_centralized r" "is_centralized (set_compression_threshold t r) = is_centralized r"
  "is_auto_forward (set_auto_forward b r) = b" "is_auto_forward (set_centralized b r) = is_auto_forward r" "is_auto_forward (set_compression_threshold t r) = is_auto_forward r"
  "is_auto_reconnect_enabled (set_auto_reconnect b tm) = b"
  by (simp_all add: is_centralized_def set_centralized_def is_auto_forward_def set_auto_forward_def set_compression_threshold_def is_auto_reconnect_enabled_def set_auto_reconnect_def)

lemma node_new_session:
  "node_new name sess cfg bound d h c r = Inr ns \<Longrightarrow> ns_session_id ns = sess \<and> auto_reconnect_enabled (ns_transport ns) = cfg_auto_reconnect_enabled cfg"
  by (auto simp: node_new_def transport_new_def Let_def split: sum.splits)

lemma getters_setters:
  assumes "at ns g" "node_new ''ffi_lc_peer'' ''ffi_lc_session'' config_default (Inr (demo_addr 4000)) d h c r = Inr ns" "\<And>g'. NETWORK g' = None \<Longrightarrow> script cs g'"
  shows "script (ffi_getters_setters ffi_lc_env @ cs) g"
proof -
  note f = node_new_fields [OF assms(2)] node_new_session [OF assms(2)]
  have ns: "as_str (ns_local_peer_id ns) = ''ffi_lc_peer''" "ns_session_id ns = ''ffi_lc_session''" "\<not> le_is_leader (ns_leader ns)"
    "\<not> is_centralized (ns_router ns)" "is_auto_forward (ns_router ns)" "is_auto_reconnect_enabled (ns_transport ns)"
    "get_connected_peer_count (ns_membership ns) = 0" "get_peer_rtt (ns_membership ns) p = None" "get_peer_status (ns_membership ns) p = None" for p
    using f by (simp_all add: leader_election_new_def le_is_leader_def router_new_def is_centralized_def is_auto_forward_def is_auto_reconnect_enabled_def config_default_def
        get_connected_peer_count_def get_peer_rtt_def get_peer_status_def membership_new_def hm_get_def)
  show ?thesis
    unfolding ffi_getters_setters_def append_Cons append_Nil script_simps string_defs IsLeader_def IsCentralizedMode_def IsCentralizedAutoForward_def SetCentralizedMode_def
      SetCentralizedAutoForward_def SetCompressionThreshold_def EnableAutoLeaderElection_def IsAutoReconnectEnabled_def SetAutoReconnect_def GetPeerRTT_def GetPeerStatus_def
    by (rule at_string at_number at_set ffi_lc_names | rule assms(1) | assumption | rule assms(3), assumption | simp add: ns cstring_new_def u8_from_bool_def toggles)+
qed

lemma ffi_lifecycle_test:
  assumes "NETWORK g = None"
  shows "test_ffi_full_lifecycle ffi_lc_env g"
proof -
  have again: "returns (InitializeNetwork ffi_lc_env p s) ALREADY_INITIALIZED k g" if "at ns g" "\<And>g'. at ns g' \<Longrightarrow> k g'" for p s k g ns
    using that by (simp add: call_def at_def InitializeNetwork_def initialize_network_inner_def set_error_def)
  have up: "returns (IsNetworkInitialized ffi_lc_env) 1 k g" if "at ns g" "\<And>g'. at ns g' \<Longrightarrow> k g'" for k g ns
    using that by (simp add: call_def at_def IsNetworkInitialized_def catch_unwind_def u8_from_bool_def)
  have down: "returns (IsNetworkInitialized ffi_lc_env) 0 k g" if "NETWORK g = None" "\<And>g'. NETWORK g' = None \<Longrightarrow> k g'" for k g
    using that by (simp add: call_def IsNetworkInitialized_def catch_unwind_def u8_from_bool_def)
  have start: "returns (InitializeNetwork ffi_lc_env (Some ''ffi_reinit_peer'') (Some ''ffi_reinit_session'')) OK k g" if "NETWORK g = None" "\<And>g' ns. at ns g' \<Longrightarrow> k g'" for k g
    using that by (intro initializes_default [OF that(1) ffi_lc_names(3,4)]) (simp add: at_def)
  have re: "script (ffi_reinitialize ffi_lc_env) g" if "NETWORK g = None" for g
    unfolding ffi_reinitialize_def Let_def script_simps(2)
    by (rule start down again up at_set(3) script_simps(1) | rule that | assumption)+
  have null: "script (ffi_null_args ffi_lc_env @ ffi_reinitialize ffi_lc_env) g" if "NETWORK g = None" for g
    using that re by (simp add: ffi_null_args_def call_def InitializeNetwork_def initialize_network_inner_def initialize_checked_def c_str_to_string_def set_network_error_def set_error_def
        shuts_down_def ShutdownNetwork_def BroadcastMessage_def slice_from_raw_parts_def bad_data_def)
  have "script (ffi_with_config ffi_lc_env @ ffi_null_args ffi_lc_env @ ffi_reinitialize ffi_lc_env) g" if "NETWORK g = None" for g
  proof -
    let ?cfg = "default_ffi\<lparr>ffi_compression_threshold := 256, ffi_send_queue_capacity := 512\<rparr>" and ?p = "Some ''ffi_lc_peer''" and ?s = "Some ''ffi_lc_session''"
    have init: "InitializeNetworkWithConfig ffi_lc_env ?p ?s (Some ?cfg) = initialize_network_inner ffi_lc_env ?p ?s (Some (config_from_ffi ?cfg))"
      by (simp add: InitializeNetworkWithConfig_def)
    have "returns (InitializeNetworkWithConfig ffi_lc_env ?p ?s None) INVALID_ARGUMENT (script (ffi_null_args ffi_lc_env @ ffi_reinitialize ffi_lc_env)) g'" if "NETWORK g' = None" for g'
      using that null by (simp add: call_def InitializeNetworkWithConfig_def set_error_def)
    then show ?thesis
      unfolding ffi_with_config_def Let_def append_Cons append_Nil script_simps(2) init
      by (intro initializes [OF that default_valid(2) ffi_lc_names(1,2)] shuts_down_running) simp_all
  qed
  then show ?thesis
    unfolding test_ffi_full_lifecycle_def script_simps(2)
    by (intro initializes_default [OF assms ffi_lc_names(1,2)] getters_setters) (simp_all add: at_def)
qed

end
