(* ===== verification/Test_World.thy ===== *)
theory Test_World
  imports Node Handshake_Protocol Channels
begin

text \<open>
  Several nodes on one machine, as the end-to-end tests of \<^verbatim>\<open>src/lib.rs\<close> set them up. A world is a list of sites; a site is a node with the positions up to which
  its outgoing packets have been carried, its incoming ones handled, and its pending connection attempts made. Every socket works, every queue has room and nothing is lost. A test that
  sleeps or waits lets the world take some turns; in a turn each site in its order sends what is queued, handles what has arrived, runs its watchers and its callback
  thread, connects to the addresses it has learnt, opens the data channels that are due, and notices the connections whose other end is gone.
\<close>

section \<open>Definitions\<close>

record site =
  si_ns :: NetworkState
  si_carried :: nat
  si_handled :: nat
  si_dialled :: nat
  si_opened :: nat

type_synonym world = "site list"

abbreviation si_transport :: "site \<Rightarrow> TransportManager" where
  "si_transport v \<equiv> ns_transport (si_ns v)"

abbreviation si_id :: "site \<Rightarrow> PeerId" where
  "si_id v \<equiv> ns_local_peer_id (si_ns v)"

definition local_addr :: "u16 \<Rightarrow> SocketAddr" where
  "local_addr prt = SocketAddr (V4 0x7F000001) prt"

text \<open>The port is the one the operating system gives to the listener; mDNS is not available.\<close>

definition node_with :: "NetworkConfig \<Rightarrow> string \<Rightarrow> string \<Rightarrow> u16 \<Rightarrow> site" where
  "node_with cfg name session prt =
     \<lparr>si_ns = (case node_new name session cfg (Inr (local_addr prt)) (Some ''no multicast'') None (\<lambda>_. None) (\<lambda>_. None) of Inr ns \<Rightarrow> ns),
      si_carried = 0, si_handled = 0, si_dialled = 0, si_opened = 0\<rparr>"

definition create_node :: "string \<Rightarrow> string \<Rightarrow> u16 \<Rightarrow> site" where
  "create_node name session prt = node_with config_default name session prt"

text \<open>A node whose host has registered a receive callback, or a status callback, before anything else.\<close>

definition hearing :: "nat \<Rightarrow> site \<Rightarrow> site" where
  "hearing cb v = v\<lparr>si_ns := (si_ns v)\<lparr>ns_callback := register_receive_callback (Some cb) (ns_callback (si_ns v))\<rparr>\<rparr>"

definition watching :: "nat \<Rightarrow> site \<Rightarrow> site" where
  "watching cb v = v\<lparr>si_ns := (si_ns v)\<lparr>ns_callback := register_peer_status_callback (Some cb) (ns_callback (si_ns v))\<rparr>\<rparr>"

definition world_env :: "ext \<Rightarrow> node_env" where
  "world_env x = \<lparr>ne_ext = x, ne_out = (\<lambda>_ _. Sent), ne_cb = (\<lambda>_. Sent), ne_now = (\<lambda>_. 0), ne_wall = (\<lambda>_. 0)\<rparr>"

definition socket_env :: "connect_result \<Rightarrow> read_result \<Rightarrow> conn_env" where
  "socket_env c r = \<lparr>ce_windows = False, ce_setup = (\<lambda>_. None), ce_connect = c, ce_read = r, ce_send = (\<lambda>_. None), ce_clock = 0,
     ce_other = (\<lambda>_ tm. tm)\<rparr>"

definition set_node :: "nat \<Rightarrow> NetworkState \<Rightarrow> world \<Rightarrow> world" where
  "set_node i ns w = w[i := (w ! i)\<lparr>si_ns := ns\<rparr>]"

definition set_transport :: "nat \<Rightarrow> TransportManager \<Rightarrow> world \<Rightarrow> world" where
  "set_transport i tm w = set_node i ((si_ns (w ! i))\<lparr>ns_transport := tm\<rparr>) w"

fun site_where :: "(site \<Rightarrow> bool) \<Rightarrow> world \<Rightarrow> nat option" where
  "site_where P [] = None"
| "site_where P (v # w) = (if P v then Some 0 else map_option Suc (site_where P w))"

definition is_node :: "PeerId \<Rightarrow> site \<Rightarrow> bool" where
  "is_node q v \<longleftrightarrow> si_id v = q"

definition listens_at :: "SocketAddr \<Rightarrow> site \<Rightarrow> bool" where
  "listens_at a v \<longleftrightarrow> tm_listener_addr (si_transport v) = a \<and> \<not> ns_shutdown (si_ns v)"

text \<open>
  A connection attempt: what the one side sends is what the other side reads. The packets that follow the acknowledgement are read by the new control channel.
\<close>

definition answer_read :: "RawPacket list \<Rightarrow> read_result" where
  "answer_read answer = (case answer of [] \<Rightarrow> RdClosed | ack # _ \<Rightarrow> RdPacket ack)"

definition meet :: "ext \<Rightarrow> addr_text \<Rightarrow> nat \<Rightarrow> string \<Rightarrow> nat \<Rightarrow> world \<Rightarrow> (NetworkError + PeerId) \<times> world" where
  "meet x s i addr j w =
     (let A = si_transport (w ! i) in
      case connect_to x s (socket_env CnOk RdClosed) addr A of
        (r, [], A1) \<Rightarrow> (r, set_transport i A1 w)
      | (_, hs # _, _) \<Rightarrow>
         (case handle_incoming_connection x s (socket_env CnOk (RdPacket hs)) (local_addr 0) (si_transport (w ! j)) of
            (_, answer, B1) \<Rightarrow>
              (case connect_to x s (socket_env CnOk (answer_read answer)) addr A of
                 (Inl e, _, A1) \<Rightarrow> (Inl e, set_transport i A1 (set_transport j B1 w))
               | (Inr q, _, A1) \<Rightarrow> (Inr q, set_transport i (fold (offer_incoming q) (tl answer) A1) (set_transport j B1 w)))))"

definition dial :: "ext \<Rightarrow> addr_text \<Rightarrow> nat \<Rightarrow> string \<Rightarrow> world \<Rightarrow> (NetworkError + PeerId) \<times> world" where
  "dial x s i addr w =
     (case (case parse_addr s addr of Inl _ \<Rightarrow> None | Inr a \<Rightarrow> site_where (listens_at a) w) of
        Some j \<Rightarrow> meet x s i addr j w
      | None \<Rightarrow>
         (case connect_to x s (socket_env (CnErr ''Connection refused'') RdClosed) addr (si_transport (w ! i)) of
            (r, _, A1) \<Rightarrow> (r, set_transport i A1 w)))"

text \<open>The peer at the other end of a queue, as \<open>Channels\<close> defines it.\<close>

definition queue_peers :: "TransportManager \<Rightarrow> nat \<Rightarrow> PeerId list" where
  "queue_peers tm tx =
     (let tasks = tm_spawned tm in
      [p. ControlWrite t tok \<leftarrow> tasks, t = tx, ControlRead p tok' \<leftarrow> tasks, tok' = tok]
    @ [p. DataWrite t tok \<leftarrow> tasks, t = tx, DataRead p tok' \<leftarrow> tasks, tok' = tok])"

lemma queue_peers_serves: "q \<in> set (queue_peers tm tx) \<longleftrightarrow> serves tm tx q"
  unfolding queue_peers_def serves_def Let_def by (force split: spawned_task.splits)

definition hand_over :: "PeerId \<Rightarrow> TransportManager \<Rightarrow> nat \<times> RawPacket \<Rightarrow> world \<Rightarrow> world" where
  "hand_over me tm e w =
     (case queue_peers tm (fst e) of
        [] \<Rightarrow> w
      | q # _ \<Rightarrow>
         (case site_where (is_node q) w of
            None \<Rightarrow> w
          | Some j \<Rightarrow>
              if tm_has_peer (si_transport (w ! j)) me
              then set_transport j (offer_incoming me (snd e) (si_transport (w ! j))) w else w))"

definition carry :: "nat \<Rightarrow> world \<Rightarrow> world" where
  "carry i w =
     (let v = w ! i; tm = si_transport v in
      fold (hand_over (si_id v) tm) (drop (si_carried v) (tm_sent tm)) (w[i := v\<lparr>si_carried := length (tm_sent tm)\<rparr>]))"

definition receive_one :: "ext \<Rightarrow> nat \<Rightarrow> PeerId \<times> RawPacket \<Rightarrow> world \<Rightarrow> world" where
  "receive_one x i e w = set_node i (handle_message (world_env x) (fst e) (snd e) (si_ns (w ! i))) w"

definition receive :: "ext \<Rightarrow> nat \<Rightarrow> world \<Rightarrow> world" where
  "receive x i w =
     (let v = w ! i; queue = tm_incoming (si_transport v) in
      fold (receive_one x i) (drop (si_handled v) queue) (w[i := v\<lparr>si_handled := length queue\<rparr>]))"

definition watch :: "ext \<Rightarrow> nat \<Rightarrow> world \<Rightarrow> world" where
  "watch x i w =
     (let ns = si_ns (w ! i);
          ns1 = (membership_watch (world_env x) 0 ^^ (length (mm_events (ns_membership ns)) - ns_events_seen ns)) ns;
          ns2 = (leader_watch (world_env x) 0 ^^ (length (le_notified (ns_leader ns1)) - ns_leader_seen ns1)) ns1;
          n = length (cb_queue (ns_callback ns2)) in
      set_node i (ns2\<lparr>ns_callback := (callback_step ^^ (n + n)) (ns_callback ns2)\<rparr>) w)"

definition redial :: "ext \<Rightarrow> addr_text \<Rightarrow> nat \<Rightarrow> world \<Rightarrow> world" where
  "redial x s i w =
     (let v = w ! i; due = ns_connects (si_ns v) in
      if si_dialled v < length due
      then snd (dial x s i (due ! si_dialled v) (w[i := v\<lparr>si_dialled := Suc (si_dialled v)\<rparr>]))
      else w)"

definition meet_data :: "ext \<Rightarrow> addr_text \<Rightarrow> nat \<Rightarrow> PeerId \<Rightarrow> nat \<Rightarrow> world \<Rightarrow> world" where
  "meet_data x s i q j w =
     (let A = si_transport (w ! i) in
      case open_data_channel x (socket_env CnOk RdClosed) q A of
        (_, [], A1) \<Rightarrow> set_transport i A1 w
      | (_, hs # _, _) \<Rightarrow>
         (case handle_incoming_connection x s (socket_env CnOk (RdPacket hs)) (local_addr 0) (si_transport (w ! j)) of
            (_, answer, B1) \<Rightarrow>
              (case open_data_channel x (socket_env CnOk (answer_read answer)) q A of
                 (_, _, A1) \<Rightarrow> set_transport i A1 (set_transport j B1 w))))"

definition open_data :: "ext \<Rightarrow> addr_text \<Rightarrow> nat \<Rightarrow> world \<Rightarrow> world" where
  "open_data x s i w =
     (let v = w ! i; due = [(q, a). OpenData q a \<leftarrow> tm_spawned (si_transport v)] in
      if si_opened v < length due then
        let w1 = w[i := v\<lparr>si_opened := Suc (si_opened v)\<rparr>] in
        (case site_where (listens_at (snd (due ! si_opened v))) w1 of
           None \<Rightarrow> w1
         | Some j \<Rightarrow> meet_data x s i (fst (due ! si_opened v)) j w1)
      else w)"

text \<open>A read task sees the end of the stream once everything sent before has been read.\<close>

definition hung_up :: "world \<Rightarrow> site \<Rightarrow> PeerId \<Rightarrow> bool" where
  "hung_up w v q \<longleftrightarrow>
     (case site_where (is_node q) w of
        None \<Rightarrow> False
      | Some j \<Rightarrow> \<not> tm_has_peer (si_transport (w ! j)) (si_id v) \<and> si_carried (w ! j) = length (tm_sent (si_transport (w ! j)))
                  \<and> si_handled v = length (tm_incoming (si_transport v)))"

definition reap :: "addr_text \<Rightarrow> nat \<Rightarrow> world \<Rightarrow> world" where
  "reap s i w =
     (let v = w ! i; gone = filter (hung_up w v) (map fst (tm_connections (si_transport v))) in
      if gone = [] then w else set_transport i (fold (control_read_cleanup (show_addr s) False) gone (si_transport v)) w)"

definition site_turn :: "ext \<Rightarrow> addr_text \<Rightarrow> nat \<Rightarrow> world \<Rightarrow> world" where
  "site_turn x s i w = reap s i (open_data x s i (redial x s i (watch x i (receive x i (carry i w)))))"

definition turn :: "ext \<Rightarrow> addr_text \<Rightarrow> world \<Rightarrow> world" where
  "turn x s w = fold (site_turn x s) [0..<length w] w"

definition settle :: "ext \<Rightarrow> addr_text \<Rightarrow> nat \<Rightarrow> world \<Rightarrow> world" where
  "settle x s n w = (turn x s ^^ n) w"

section \<open>What the tests do\<close>

text \<open>A call whose error the test unwraps ends the test; no world is left.\<close>

definition address :: "addr_text \<Rightarrow> nat \<Rightarrow> world \<Rightarrow> string" where
  "address s j w = show_addr s (local_addr (port (tm_listener_addr (si_transport (w ! j)))))"

definition join :: "ext \<Rightarrow> addr_text \<Rightarrow> nat \<Rightarrow> nat \<Rightarrow> world \<Rightarrow> world" where
  "join x s i j w = (case dial x s i (address s j w) w of (Inl _, _) \<Rightarrow> [] | (Inr _, w1) \<Rightarrow> w1)"

definition connect_nodes :: "ext \<Rightarrow> addr_text \<Rightarrow> nat \<Rightarrow> nat \<Rightarrow> world \<Rightarrow> world" where
  "connect_nodes x s i j w = settle x s 2 (join x s i j w)"

definition sees :: "world \<Rightarrow> nat \<Rightarrow> string \<Rightarrow> bool" where
  "sees w i name \<longleftrightarrow> has_peer (ns_membership (si_ns (w ! i))) (PeerId name)"

definition peers_seen :: "world \<Rightarrow> nat \<Rightarrow> nat" where
  "peers_seen w i = get_connected_peer_count (ns_membership (si_ns (w ! i)))"

definition route :: "ext \<Rightarrow> nat \<Rightarrow> MessageTarget \<Rightarrow> u16 \<Rightarrow> bytes \<Rightarrow> u8 \<Rightarrow> world \<Rightarrow> (NetworkError + unit) \<times> world" where
  "route x i target mt data flags w =
     (let ns = si_ns (w ! i) in
      case route_message x (\<lambda>_ _. Sent) (ns_router ns) (ns_leader ns) target mt data flags (ns_transport ns) of
        (r, tm) \<Rightarrow> (r, set_transport i tm w))"

definition send :: "ext \<Rightarrow> nat \<Rightarrow> MessageTarget \<Rightarrow> u16 \<Rightarrow> bytes \<Rightarrow> u8 \<Rightarrow> world \<Rightarrow> world" where
  "send x i target mt data flags w = (case route x i target mt data flags w of (Inl _, _) \<Rightarrow> [] | (Inr _, w1) \<Rightarrow> w1)"

definition calls :: "world \<Rightarrow> nat \<Rightarrow> ffi_call list" where
  "calls w i = cb_calls (ns_callback (si_ns (w ! i)))"

definition hang_up :: "ext \<Rightarrow> nat \<Rightarrow> string \<Rightarrow> world \<Rightarrow> world" where
  "hang_up x i name w =
     (let ns = si_ns (w ! i) in
      set_node i (ns\<lparr>ns_transport := snd (disconnect_peer x (\<lambda>_ _. Sent) (PeerId name) (ns_transport ns)),
                     ns_membership := remove_peer (PeerId name) (ns_membership ns)\<rparr>) w)"

definition shut_down :: "ext \<Rightarrow> nat \<Rightarrow> world \<Rightarrow> world" where
  "shut_down x i w =
     (case node_shutdown (world_env x) \<lparr>se_start = 0, se_polls = [(\<lambda>_. True, 0, si_transport (w ! i))], se_meanwhile = (\<lambda>ns. ns), se_steps = 2\<rparr> (si_ns (w ! i)) of
        None \<Rightarrow> w | Some ns \<Rightarrow> set_node i ns w)"

text \<open>The election timer of a node fires.\<close>

definition elect :: "ext \<Rightarrow> nat \<Rightarrow> world \<Rightarrow> world" where
  "elect x i w = set_node i (election_tick (world_env x) (si_ns (w ! i))) w"

definition leader_of :: "world \<Rightarrow> nat \<Rightarrow> PeerId option" where
  "leader_of w i = le_leader_id (ns_leader (si_ns (w ! i)))"

definition leads :: "world \<Rightarrow> nat \<Rightarrow> bool" where
  "leads w i \<longleftrightarrow> le_is_leader (ns_leader (si_ns (w ! i)))"

text \<open>A byte string literal.\<close>

definition ascii :: "string \<Rightarrow> bytes" where
  "ascii s = map of_char s"

lemma length_ascii [simp]: "length (ascii s) = length s"
  by (simp add: ascii_def)

section \<open>Evaluation\<close>

text \<open>What the tests rely on of postcard and of the text of socket addresses: short messages are serialized into something short that is read back, and so are addresses.\<close>

definition brief :: "'a list \<Rightarrow> bool" where
  "brief t \<longleftrightarrow> length t \<le> 100"

fun short :: "InternalMessage \<Rightarrow> bool" where
  "short (Handshake a _ _ b) \<longleftrightarrow> brief a \<and> brief b"
| "short (HandshakeAck a _ _ r) \<longleftrightarrow> brief a \<and> (case r of None \<Rightarrow> True | Some t \<Rightarrow> brief t)"
| "short (PeerListSync l) \<longleftrightarrow> brief l \<and> (\<forall>(a, b) \<in> set l. brief a \<and> brief b)"
| "short (PeerLeave a) \<longleftrightarrow> brief a"
| "short (Heartbeat _ a _) \<longleftrightarrow> brief a"
| "short (RequestVote _ a) \<longleftrightarrow> brief a"
| "short (VoteResponse _ a _) \<longleftrightarrow> brief a"
| "short (LeaderAssign _ a b) \<longleftrightarrow> brief a \<and> brief b"
| "short (ForwardedUserData a _ _ d) \<longleftrightarrow> brief a \<and> brief d"
| "short (DataChannelHandshake a) \<longleftrightarrow> brief a"
| "short (DataChannelHandshakeAck a _) \<longleftrightarrow> brief a"
| "short _ \<longleftrightarrow> True"

definition codec :: "ext \<Rightarrow> (InternalMessage \<Rightarrow> bytes) \<Rightarrow> bool" where
  "codec x ser \<longleftrightarrow> (\<forall>m. short m \<longrightarrow> to_allocvec x m = Inr (ser m) \<and> from_bytes x (ser m) = Inr m \<and> length (ser m) \<le> 250000)"

definition text_laws :: "addr_text \<Rightarrow> bool" where
  "text_laws s \<longleftrightarrow> (\<forall>a. parse_addr s (show_addr s a) = Inr a \<and> brief (show_addr s a))"

lemma codec_encode: "codec x ser \<Longrightarrow> short m \<Longrightarrow> encode_internal x m 262144 = Inr \<lparr>pkt_type = msg_type m, pkt_flags = 0, pkt_payload = ser m\<rparr>"
proof -
  assume "codec x ser" "short m"
  then have "to_allocvec x m = Inr (ser m)" "length (ser m) \<le> 250000" by (simp_all add: codec_def)
  moreover from this(2) have "unat (len_u32 (ser m)) \<le> 262144" by (subst len_u32_unat) simp_all
  then have "\<not> 262144 < len_u32 (ser m)" by (simp add: word_less_nat_alt)
  ultimately show ?thesis by (simp add: encode_internal_def)
qed

lemma codec_decode: "codec x ser \<Longrightarrow> short m \<Longrightarrow> decode_internal x \<lparr>pkt_type = t, pkt_flags = f, pkt_payload = ser m\<rparr> = Inr m"
  by (simp add: codec_def decode_internal_def)

lemma text_parse: "text_laws s \<Longrightarrow> parse_addr s (show_addr s a) = Inr a" and text_brief: "text_laws s \<Longrightarrow> brief (show_addr s a)"
  by (simp_all add: text_laws_def)

lemma brief_list [simp]: "brief []" "brief [u]" "brief [u, v]" "brief (ascii t) \<longleftrightarrow> brief t"
  by (simp_all add: brief_def)

lemma default_config:
  "cfg_max_message_size config_default = 262144" "max_connections config_default = 64" "cfg_compression_threshold config_default = 512"
  "cfg_auto_election_enabled config_default" "cfg_manual_override_recovery config_default = Hold" "cfg_centralized_auto_forward config_default"
  "cfg_auto_reconnect_enabled config_default"
  by (simp_all add: config_default_def)

lemma unroll: "(f ^^ numeral k) w = (f ^^ pred_numeral k) (f w)"
  by (simp add: numeral_eq_Suc funpow_swap1)

lemma unroll_Suc: "(f ^^ Suc n) w = (f ^^ n) (f w)"
  by (simp add: funpow_swap1)

lemmas world_eval = create_node_def node_with_def node_new_def transport_new_def discovery_new_def set_node_def set_transport_def is_node_def listens_at_def
  answer_read_def meet_def dial_def hand_over_def carry_def receive_one_def receive_def watch_def redial_def meet_data_def open_data_def hung_up_def reap_def site_turn_def
  turn_def settle_def join_def connect_nodes_def sees_def peers_seen_def route_def send_def hearing_def watching_def calls_def hang_up_def shut_down_def elect_def
  leader_of_def leads_def address_def local_addr_def socket_env_def world_env_def queue_peers_def Let_def unroll unroll_Suc

lemmas connect_eval = connect_to_def encode_for_def handle_incoming_connection_def admit_handshake_def process_handshake_message_def receive_handshake_ack_def
  refuse_def ack_msg_def get_peer_list_for_sync_def connection_count_def register_connection_def spawn_def offer_incoming_def hm_insert_def hm_contains_def hm_get_def
  hm_modify_def hm_remove_def handle_message_def is_internal_def HANDSHAKE_def HANDSHAKE_ACK_def DATA_CHANNEL_HANDSHAKE_def DATA_CHANNEL_HANDSHAKE_ACK_def USER_MESSAGE_START_def
  admit_peer_def get_peer_addr_def add_peer_def membership_new_def mm_emit_def peer_info_new_def update_status_def update_last_seen_def
  membership_watch_def leader_watch_def node_event_def send_event_def callback_step_def callback_new_def dispatch_event_def call_for_def
  leader_election_new_def default_config PROTOCOL_VERSION_def has_peer_def tm_has_peer_def open_data_channel_def handle_incoming_data_channel_framed_def
  register_data_channel_def cancel_opt_def cancel_def get_connected_peer_count_def less_char_def

lemmas send_eval = route_message_def with_packet_def encode_packet_def router_new_def compression_threshold_def len_u32_def send_to_peer_def try_send_def try_send_error_def
  channel_for_def broadcast_def broadcast_targets_def decode_payload_def is_compressed_def is_centralized_def register_receive_callback_def
  register_peer_status_callback_def cstring_new_def len_i32_def

lemmas election_eval = election_tick_def start_election_def majority_threshold_def become_leader_inner_def notify_leader_change_def announce_def heartbeat_msg_def reply_def
  handle_request_vote_def handle_vote_response_def handle_heartbeat_def le_is_leader_def le_leader_id_def le_current_term_def is_auto_election_enabled_def current_timestamp_ms_def
  REQUEST_VOTE_def VOTE_RESPONSE_def HEARTBEAT_def HEARTBEAT_RESPONSE_def PEER_LIST_SYNC_def sync_peer_def

end
