(* ===== verification/Plain_Codec.thy ===== *)
theory Plain_Codec
  imports Test_World
begin

text \<open>
  A plain serializer for control messages and a plain text for socket addresses, which show that what the end-to-end tests rely on can be had: a message is a list of
  fields, a field a list of numbers, and a number is written in base 255 with a final zero.
\<close>

section \<open>Definitions\<close>

fun put_nat :: "nat \<Rightarrow> bytes" where
  "put_nat n = (if n = 0 then [0] else word_of_nat (Suc (n mod 255)) # put_nat (n div 255))"

declare put_nat.simps [simp del]

fun get_nat :: "bytes \<Rightarrow> nat \<times> bytes" where
  "get_nat [] = (0, [])"
| "get_nat (b # bs) = (if b = 0 then (0, bs) else case get_nat bs of (n, r) \<Rightarrow> (unat b - 1 + 255 * n, r))"

definition put_list :: "('a \<Rightarrow> bytes) \<Rightarrow> 'a list \<Rightarrow> bytes" where
  "put_list put xs = put_nat (length xs) @ concat (map put xs)"

primrec get_many :: "(bytes \<Rightarrow> 'a \<times> bytes) \<Rightarrow> nat \<Rightarrow> bytes \<Rightarrow> 'a list \<times> bytes" where
  "get_many get 0 bs = ([], bs)"
| "get_many get (Suc n) bs = (case get bs of (x, r) \<Rightarrow> case get_many get n r of (xs, r') \<Rightarrow> (x # xs, r'))"

definition get_list :: "(bytes \<Rightarrow> 'a \<times> bytes) \<Rightarrow> bytes \<Rightarrow> 'a list \<times> bytes" where
  "get_list get bs = (case get_nat bs of (n, r) \<Rightarrow> get_many get n r)"

definition chars :: "string \<Rightarrow> nat list" where
  "chars t = map of_char t"

definition of_chars :: "nat list \<Rightarrow> string" where
  "of_chars ns = map char_of ns"

fun msg_fields :: "InternalMessage \<Rightarrow> nat list list" where
  "msg_fields (Handshake a p v b) = [[0, unat p, unat v], chars a, chars b]"
| "msg_fields (HandshakeAck a p ok None) = [[1, unat p, of_bool ok], chars a]"
| "msg_fields (HandshakeAck a p ok (Some r)) = [[2, unat p, of_bool ok], chars a, chars r]"
| "msg_fields (PeerLeave a) = [[3], chars a]"
| "msg_fields (PeerListSync l) = [4] # concat (map (\<lambda>(a, b). [chars a, chars b]) l)"
| "msg_fields (Heartbeat n a t) = [[5, unat n, unat t], chars a]"
| "msg_fields (HeartbeatResponse n t) = [[6, unat n, unat t]]"
| "msg_fields (Ping t) = [[7, unat t]]"
| "msg_fields (Pong t) = [[8, unat t]]"
| "msg_fields (RequestVote n a) = [[9, unat n], chars a]"
| "msg_fields (VoteResponse n a ok) = [[10, unat n, of_bool ok], chars a]"
| "msg_fields (LeaderAssign n a b) = [[11, unat n], chars a, chars b]"
| "msg_fields (ForwardedUserData a mt f d) = [[12, unat mt, unat f], chars a, map unat d]"
| "msg_fields (DataChannelHandshake a) = [[13], chars a]"
| "msg_fields (DataChannelHandshakeAck a ok) = [[14, of_bool ok], chars a]"

fun pairs :: "nat list list \<Rightarrow> (string \<times> string) list" where
  "pairs (a # b # r) = (of_chars a, of_chars b) # pairs r"
| "pairs _ = []"

definition message :: "nat list list \<Rightarrow> InternalMessage option" where
  "message l =
     (case l of
        [] \<Rightarrow> None
      | [] # _ \<Rightarrow> None
      | (k # h) # r \<Rightarrow>
         (let n = \<lambda>i. h ! i; t = \<lambda>i. of_chars (r ! i) in
          if k = 0 then Some (Handshake (t 0) (word_of_nat (n 0)) (word_of_nat (n 1)) (t 1))
          else if k = 1 then Some (HandshakeAck (t 0) (word_of_nat (n 0)) (n 1 = 1) None)
          else if k = 2 then Some (HandshakeAck (t 0) (word_of_nat (n 0)) (n 1 = 1) (Some (t 1)))
          else if k = 3 then Some (PeerLeave (t 0))
          else if k = 4 then Some (PeerListSync (pairs r))
          else if k = 5 then Some (Heartbeat (word_of_nat (n 0)) (t 0) (word_of_nat (n 1)))
          else if k = 6 then Some (HeartbeatResponse (word_of_nat (n 0)) (word_of_nat (n 1)))
          else if k = 7 then Some (Ping (word_of_nat (n 0)))
          else if k = 8 then Some (Pong (word_of_nat (n 0)))
          else if k = 9 then Some (RequestVote (word_of_nat (n 0)) (t 0))
          else if k = 10 then Some (VoteResponse (word_of_nat (n 0)) (t 0) (n 1 = 1))
          else if k = 11 then Some (LeaderAssign (word_of_nat (n 0)) (t 0) (t 1))
          else if k = 12 then Some (ForwardedUserData (t 0) (word_of_nat (n 0)) (word_of_nat (n 1)) (map word_of_nat (r ! 1)))
          else if k = 13 then Some (DataChannelHandshake (t 0))
          else if k = 14 then Some (DataChannelHandshakeAck (t 0) (n 0 = 1))
          else None))"

definition plain_ser :: "InternalMessage \<Rightarrow> bytes" where
  "plain_ser m = put_list (put_list put_nat) (msg_fields m)"

definition plain_de :: "bytes \<Rightarrow> string + InternalMessage" where
  "plain_de bs = (case message (fst (get_list (get_list get_nat) bs)) of None \<Rightarrow> Inl ''bad message'' | Some m \<Rightarrow> Inr m)"

definition plain_ext :: ext where
  "plain_ext = (table_ext [])\<lparr>to_allocvec := \<lambda>m. Inr (plain_ser m), from_bytes := plain_de\<rparr>"

fun addr_fields :: "SocketAddr \<Rightarrow> nat list" where
  "addr_fields (SocketAddr (V4 a) p) = [4, unat a, unat p]"
| "addr_fields (SocketAddr (V6 a) p) = [6, unat a, unat p]"

fun addr_of :: "nat list \<Rightarrow> SocketAddr option" where
  "addr_of [v, a, p] = (if v = 4 then Some (SocketAddr (V4 (word_of_nat a)) (word_of_nat p))
     else if v = 6 then Some (SocketAddr (V6 (word_of_nat a)) (word_of_nat p)) else None)"
| "addr_of _ = None"

definition plain_text :: addr_text where
  "plain_text =
     \<lparr>parse_addr = (\<lambda>t. case addr_of (fst (get_list get_nat (map (\<lambda>c. word_of_nat (of_char c)) t))) of None \<Rightarrow> Inl ''bad address'' | Some a \<Rightarrow> Inr a),
      show_addr = (\<lambda>a. map (\<lambda>b. char_of (unat b)) (put_list put_nat (addr_fields a)))\<rparr>"

section \<open>Reading back\<close>

lemma get_put_nat [simp]: "get_nat (put_nat n @ r) = (n, r)"
proof (induction n rule: put_nat.induct)
  case (1 n)
  have "unat (word_of_nat (Suc (n mod 255)) :: u8) = Suc (n mod 255)" by (rule word_of_nat_unat_small) simp
  moreover from this have "word_of_nat (Suc (n mod 255)) \<noteq> (0 :: u8)" by (metis nat.distinct(1) unat_0)
  ultimately show ?case using 1 by (subst put_nat.simps) simp
qed

lemma get_put_many: "(\<And>v r. get (put v @ r) = (v, r)) \<Longrightarrow> get_many get (length xs) (concat (map put xs) @ r) = (xs, r)"
  by (induction xs arbitrary: r) simp_all

lemma get_put_list: "(\<And>v r. get (put v @ r) = (v, r)) \<Longrightarrow> get_list get (put_list put xs @ r) = (xs, r)"
  by (simp add: get_list_def put_list_def get_put_many)

lemma get_put_fields: "get_list (get_list get_nat) (put_list (put_list put_nat) fs) = (fs, [])"
  using get_put_list [of "get_list get_nat" "put_list put_nat" fs "[]"] by (simp add: get_put_list)

lemma of_chars [simp]: "of_chars (chars t) = t"
  by (simp add: of_chars_def chars_def)

lemma pairs_fields [simp]: "pairs (concat (map (\<lambda>(a, b). [chars a, chars b]) l)) = l"
  by (induction l) auto

lemma message_fields: "message (msg_fields m) = Some m"
  by (cases m rule: msg_fields.cases) (simp_all add: message_def Let_def comp_def)

section \<open>Lengths\<close>

lemma length_put_nat: "n < 255 ^ k \<Longrightarrow> length (put_nat n) \<le> Suc k"
proof (induction k arbitrary: n)
  case (Suc k)
  then have "n div 255 < 255 ^ k" by (simp add: less_mult_imp_div_less mult.commute)
  from Suc.IH [OF this] show ?case by (subst put_nat.simps) simp
qed (simp add: put_nat.simps)

lemma length_put_list:
  assumes "length xs \<le> n" "\<And>v. v \<in> set xs \<Longrightarrow> length (put v) \<le> m" "n < 65025"
  shows "length (put_list put xs) \<le> 3 + n * m"
proof -
  have "length (concat (map put xs)) \<le> length xs * m" using assms(2) by (induction xs) (auto simp: add_mono)
  also have "\<dots> \<le> n * m" using assms(1) by simp
  finally show ?thesis using length_put_nat [of "length xs" 2] assms(1,3) by (simp add: put_list_def)
qed

lemma fields_small:
  assumes "short m"
  shows "length (msg_fields m) \<le> 201" and "fs \<in> set (msg_fields m) \<Longrightarrow> length fs \<le> 100 \<and> (\<forall>v \<in> set fs. v < 2 ^ 64)"
proof -
  have l: "length (concat (map (\<lambda>(a, b). [chars a, chars b]) l)) = 2 * length l" for l by (induction l) auto
  have u: "unat (w :: u64) < 2 ^ 64" "unat (v :: u16) < 2 ^ 64" "unat (b :: u8) < 2 ^ 64" for w v b
    using unsigned_less [of w, where 'a = nat] unsigned_less [of v, where 'a = nat] unsigned_less [of b, where 'a = nat] by simp_all
  have c: "v \<in> set (chars t) \<Longrightarrow> v < 2 ^ 64" for v t by (auto simp: chars_def intro: less_trans [OF nat_of_char_less_256])
  show "length (msg_fields m) \<le> 201" using assms by (cases m rule: msg_fields.cases) (simp_all add: l brief_def)
  show "length fs \<le> 100 \<and> (\<forall>v \<in> set fs. v < 2 ^ 64)" if "fs \<in> set (msg_fields m)"
    using assms that u c by (cases m rule: msg_fields.cases) (auto simp: brief_def chars_def)
qed

lemma plain_codec: "codec plain_ext plain_ser"
proof -
  have "length (plain_ser m) \<le> 250000" if "short m" for m
  proof -
    have "length (put_nat v) \<le> 10" if "v < 2 ^ 64" for v using length_put_nat [of v 9] that by simp
    then have "length (put_list put_nat fs) \<le> 3 + 100 * 10" if "fs \<in> set (msg_fields m)" for fs
      using fields_small(2) [OF \<open>short m\<close> that] by (intro length_put_list) auto
    then have "length (put_list (put_list put_nat) (msg_fields m)) \<le> 3 + 201 * 1003"
      by - (rule length_put_list [OF fields_small(1) [OF that]], simp_all)
    then show ?thesis by (simp add: plain_ser_def)
  qed
  then show ?thesis by (simp add: codec_def plain_ext_def plain_de_def plain_ser_def get_put_fields message_fields)
qed

lemma plain_lz4: "lz4_laws plain_ext"
  using table_ext_lz4 [of "[]"] by (simp add: lz4_laws_def plain_ext_def)

lemma plain_text_laws: "text_laws plain_text"
proof -
  have byte: "word_of_nat (unat b mod 256) = b" for b :: u8 using unsigned_less [of b, where 'a = nat] by simp
  have "parse_addr plain_text (show_addr plain_text a) = Inr a" for a
    using get_put_list [of get_nat put_nat "addr_fields a" "[]"] by (cases a rule: addr_fields.cases) (simp_all add: plain_text_def comp_def byte)
  moreover have "brief (show_addr plain_text a)" for a
  proof -
    have n: "length (put_nat v) \<le> 18" if "v < 2 ^ 128" for v using length_put_nat [of v 17] that by simp
    have u: "unat (w :: 128 word) < 2 ^ 128" "unat (v :: u16) < 2 ^ 128" "unat (b :: u32) < 2 ^ 128" for w v b
      using unsigned_less [of w, where 'a = nat] unsigned_less [of v, where 'a = nat] unsigned_less [of b, where 'a = nat] by simp_all
    have "length (put_list put_nat (addr_fields a)) \<le> 3 + 3 * 18"
      by (rule length_put_list) (use n u in \<open>cases a rule: addr_fields.cases; auto\<close>)+
    then show ?thesis by (simp add: plain_text_def brief_def)
  qed
  ultimately show ?thesis by (simp add: text_laws_def)
qed

end
