(* ===== verification/Exchange.thy ===== *)
theory Exchange
  imports Plain_Codec
begin

text \<open>
  Two fresh nodes that connect to each other and exchange messages, on a machine where every socket works: the handshake, the data channel, the routing of the messages, their packets, the
  handler and the callback thread together.
\<close>

section \<open>Definitions\<close>

definition peer_conn :: "string \<Rightarrow> u16 \<Rightarrow> PeerConnection" where
  "peer_conn peer prt = \<lparr>control_tx = 0, data_tx = Some 2, control_cancel = 1, data_cancel = Some 3, conn_info = peer_info_new 0 (PeerId peer) (local_addr prt)\<rparr>"

text \<open>The node at a site after it has met one other node; \<open>notice\<close> is the packet that told its message handler.\<close>

definition met :: "string \<Rightarrow> u16 \<Rightarrow> RawPacket \<Rightarrow> site \<Rightarrow> site" where
  "met peer prt notice v =
     (let me = as_str (si_id v); tm = si_transport v; mm = ns_membership (si_ns v) in
      v\<lparr>si_ns := (si_ns v)\<lparr>
          ns_transport := tm\<lparr>tm_connections := [(PeerId peer, peer_conn peer prt)], tm_incoming := [(PeerId peer, notice)], tm_next := 4,
            tm_spawned := [ControlWrite 0 1, ControlRead (PeerId peer) 1] @ (if me < peer then [OpenData (PeerId peer) (local_addr prt)] else [])
              @ [DataWrite 2 3, DataRead (PeerId peer) 3]\<rparr>,
          ns_membership := mm\<lparr>mm_peers := [(PeerId peer, peer_info_new 0 (PeerId peer) (local_addr prt))], mm_events := [Joined (PeerId peer)]\<rparr>,
          ns_events_seen := 1\<rparr>,
        si_handled := 1, si_opened := (if me < peer then 1 else 0)\<rparr>)"

definition fresh :: "NetworkConfig \<Rightarrow> nat option \<Rightarrow> string \<Rightarrow> string \<Rightarrow> u16 \<Rightarrow> site" where
  "fresh cfg cb name session prt = (case cb of None \<Rightarrow> node_with cfg name session prt | Some k \<Rightarrow> hearing k (node_with cfg name session prt))"

definition usable :: "NetworkConfig \<Rightarrow> bool" where
  "usable cfg \<longleftrightarrow> cfg_max_message_size cfg = 262144 \<and> 0 < max_connections cfg"

lemma pair_met_less:
  assumes x: "codec x ser" and s: "text_laws s" and ab: "a < b" and brief: "brief a" "brief b" "brief se" and cfg: "usable cfg" and prt: "p \<noteq> q"
  shows "connect_nodes x s 0 1 [fresh cfg ca a se p, fresh cfg cb b se q] =
    [met b q \<lparr>pkt_type = HANDSHAKE_ACK, pkt_flags = 0, pkt_payload = ser (HandshakeAck b q True None)\<rparr> (fresh cfg ca a se p),
     met a p \<lparr>pkt_type = HANDSHAKE, pkt_flags = 0, pkt_payload = ser (Handshake a p PROTOCOL_VERSION se)\<rparr> (fresh cfg cb b se q)]"
proof -
  have ne: "a \<noteq> b" "b \<noteq> a" "\<not> b < a" using ab by auto
  show ?thesis
    using cfg prt
    by (cases ca; cases cb; simp add: ab ne brief fresh_def usable_def met_def peer_conn_def world_eval text_parse [OF s] text_brief [OF s] codec_encode [OF x]
        codec_decode [OF x] connect_eval send_eval cong: let_weak_cong)
qed

lemma pair_met_greater:
  assumes x: "codec x ser" and s: "text_laws s" and ab: "b < a" and brief: "brief a" "brief b" "brief se" and cfg: "usable cfg" and prt: "p \<noteq> q"
  shows "connect_nodes x s 0 1 [fresh cfg ca a se p, fresh cfg cb b se q] =
    [met b q \<lparr>pkt_type = HANDSHAKE_ACK, pkt_flags = 0, pkt_payload = ser (HandshakeAck b q True None)\<rparr> (fresh cfg ca a se p),
     met a p \<lparr>pkt_type = HANDSHAKE, pkt_flags = 0, pkt_payload = ser (Handshake a p PROTOCOL_VERSION se)\<rparr> (fresh cfg cb b se q)]"
proof -
  have ne: "a \<noteq> b" "b \<noteq> a" "\<not> a < b" using ab by auto
  show ?thesis
    using cfg prt
    by (cases ca; cases cb; simp add: ab ne brief fresh_def usable_def met_def peer_conn_def world_eval text_parse [OF s] text_brief [OF s] codec_encode [OF x]
        codec_decode [OF x] connect_eval send_eval cong: let_weak_cong)
qed

text \<open>Two nodes of one session that connect know each other afterwards and have a control and a data channel, whoever dials and whatever their names.\<close>

lemma pair_met:
  assumes "codec x ser" "text_laws s" "a \<noteq> b" "brief a" "brief b" "brief se" "usable cfg" "p \<noteq> q"
  shows "connect_nodes x s 0 1 [fresh cfg ca a se p, fresh cfg cb b se q] =
    [met b q \<lparr>pkt_type = HANDSHAKE_ACK, pkt_flags = 0, pkt_payload = ser (HandshakeAck b q True None)\<rparr> (fresh cfg ca a se p),
     met a p \<lparr>pkt_type = HANDSHAKE, pkt_flags = 0, pkt_payload = ser (Handshake a p PROTOCOL_VERSION se)\<rparr> (fresh cfg cb b se q)]"
  using pair_met_less [OF assms(1,2) _ assms(4-8)] pair_met_greater [OF assms(1,2) _ assms(4-8)] assms(3) by (meson linorder_neq_iff)

section \<open>Any number of messages\<close>

lemma carry_list:
  "queue_peers tm tx = [q] \<Longrightarrow> is_node q V \<Longrightarrow> \<not> is_node q U \<Longrightarrow> tm_has_peer (si_transport V) me \<Longrightarrow>
     fold (hand_over me tm) (map (Pair tx) ps) [U, V]
       = [U, V\<lparr>si_ns := (si_ns V)\<lparr>ns_transport := (si_transport V)\<lparr>tm_incoming := tm_incoming (si_transport V) @ map (Pair me) ps\<rparr>\<rparr>\<rparr>]"
proof (induction ps arbitrary: V)
  case (Cons p ps)
  then show ?case by (simp add: hand_over_def is_node_def set_transport_def set_node_def offer_incoming_def tm_has_peer_def)
qed simp

lemma receive_list:
  "(\<And>p. p \<in> set ps \<Longrightarrow> \<not> is_internal p \<and> decode_payload x p = Inr (dat p)) \<Longrightarrow> cb_open (ns_callback (si_ns V)) \<Longrightarrow>
     fold (receive_one x 1) (map (Pair me) ps) [U, V]
       = [U, V\<lparr>si_ns := (si_ns V)\<lparr>ns_callback := (ns_callback (si_ns V))\<lparr>cb_queue := cb_queue (ns_callback (si_ns V))
            @ map (\<lambda>p. Received (as_str me) (dat p) (pkt_type p) (pkt_flags p)) ps\<rparr>\<rparr>\<rparr>]"
proof (induction ps arbitrary: V)
  case (Cons p ps)
  then show ?case by (simp add: receive_one_def set_node_def handle_message_def world_env_def node_event_def send_event_def)
qed simp

lemma callback_all:
  "cb_thread cb = AtFlag \<Longrightarrow> \<not> cb_shutdown cb \<Longrightarrow> cb_queue cb = es \<Longrightarrow>
     (callback_step ^^ (length es + length es)) cb = cb\<lparr>cb_queue := [], cb_calls := cb_calls cb @ calls_of cb es\<rparr>"
proof (induction es arbitrary: cb)
  case (Cons e es)
  let ?cb = "callback_step (callback_step cb)"
  have two: "?cb = cb\<lparr>cb_queue := es, cb_calls := cb_calls cb @ (case call_for cb e of None \<Rightarrow> [] | Some c \<Rightarrow> [c])\<rparr>"
    using Cons.prems by (simp add: callback_step_def dispatch_event_def split: option.split)
  then have "(callback_step ^^ (length es + length es)) ?cb = ?cb\<lparr>cb_queue := [], cb_calls := cb_calls ?cb @ calls_of ?cb es\<rparr>"
    using Cons.prems by (intro Cons.IH) simp_all
  moreover have "calls_of ?cb es = calls_of cb es" unfolding two by (rule calls_of_cong) (simp split: option.split)
  ultimately show ?case by (simp add: unroll_Suc two del: funpow.simps(2))
qed simp

text \<open>Packets that wait in the queue of the data channel.\<close>

definition queued :: "RawPacket list \<Rightarrow> site \<Rightarrow> site" where
  "queued ps v = v\<lparr>si_ns := (si_ns v)\<lparr>ns_transport := (si_transport v)\<lparr>tm_sent := map (Pair 2) ps\<rparr>\<rparr>\<rparr>"

lemma fresh_sel [simp]:
  "si_id (fresh cfg cb name se prt) = PeerId name" "tm_sent (si_transport (fresh cfg cb name se prt)) = []" "si_carried (fresh cfg cb name se prt) = 0"
  "si_dialled (fresh cfg cb name se prt) = 0" "ns_connects (si_ns (fresh cfg cb name se prt)) = []" "le_notified (ns_leader (si_ns (fresh cfg cb name se prt))) = []"
  "ns_leader_seen (si_ns (fresh cfg cb name se prt)) = 0" "ns_callback (si_ns (fresh cfg cb name se prt)) = callback_new\<lparr>receive_callback := cb\<rparr>"
  by (cases cb; simp add: fresh_def hearing_def node_with_def node_new_def transport_new_def discovery_new_def register_receive_callback_def callback_new_def
      leader_election_new_def Let_def)+

lemma met_sel [simp]:
  "si_id (met peer prt n v) = si_id v" "tm_sent (si_transport (met peer prt n v)) = tm_sent (si_transport v)" "si_carried (met peer prt n v) = si_carried v"
  "si_dialled (met peer prt n v) = si_dialled v" "ns_connects (si_ns (met peer prt n v)) = ns_connects (si_ns v)" "ns_leader (si_ns (met peer prt n v)) = ns_leader (si_ns v)"
  "ns_leader_seen (si_ns (met peer prt n v)) = ns_leader_seen (si_ns v)" "ns_callback (si_ns (met peer prt n v)) = ns_callback (si_ns v)"
  "tm_incoming (si_transport (met peer prt n v)) = [(PeerId peer, n)]" "si_handled (met peer prt n v) = 1"
  "tm_connections (si_transport (met peer prt n v)) = [(PeerId peer, peer_conn peer prt)]"
  "mm_events (ns_membership (si_ns (met peer prt n v))) = [Joined (PeerId peer)]" "ns_events_seen (si_ns (met peer prt n v)) = 1"
  by (simp_all add: met_def Let_def)

lemma met_tasks [simp]:
  "queue_peers (si_transport (met peer prt n v)) 2 = [PeerId peer]"
  "[(q, a). OpenData q a \<leftarrow> tm_spawned (si_transport (met peer prt n v))] = (if as_str (si_id v) < peer then [(PeerId peer, local_addr prt)] else [])"
  "si_opened (met peer prt n v) = (if as_str (si_id v) < peer then 1 else 0)"
  by (simp_all add: met_def queue_peers_def Let_def)

lemma queued_sel [simp]:
  "si_ns (queued ps v) = (si_ns v)\<lparr>ns_transport := (si_transport v)\<lparr>tm_sent := map (Pair 2) ps\<rparr>\<rparr>" "si_carried (queued ps v) = si_carried v"
  "si_handled (queued ps v) = si_handled v" "si_dialled (queued ps v) = si_dialled v" "si_opened (queued ps v) = si_opened v"
  by (simp_all add: queued_def)

lemma queue_peers_sent [simp]: "queue_peers (tm\<lparr>tm_sent := l\<rparr>) = queue_peers tm" "queue_peers (tm\<lparr>tm_incoming := i\<rparr>) = queue_peers tm"
  by (simp_all add: queue_peers_def fun_eq_iff)

lemma send_queued:
  assumes "usable cfg" "\<not> mt < USER_MESSAGE_START" "encode_packet x mt d (f AND 0xFE) (cfg_compression_threshold cfg) 262144 = Inr pk"
  shows "send x 0 (ToPeer (PeerId b)) mt d f [queued ps (met b q n (fresh cfg ca a se p)), V]
    = [queued (ps @ [pk]) (met b q n (fresh cfg ca a se p)), V]"
  using assms encode_packet_type [OF assms(3)]
  by (cases ca; simp add: queued_def met_def peer_conn_def fresh_def usable_def send_def route_def route_message_def with_packet_def hearing_def node_with_def node_new_def
      transport_new_def discovery_new_def router_new_def compression_threshold_def send_to_peer_eq hm_get_def channel_for_def try_send_error_def set_transport_def set_node_def Let_def)

lemma turn_delivers:
  assumes cfg: "usable cfg" and names: "a \<noteq> b" "CHR 0x00 \<notin> set a"
    and ps: "\<And>pk. pk \<in> set ps \<Longrightarrow> \<not> is_internal pk \<and> decode_payload x pk = Inr (dat pk)"
  shows "calls (turn x s [queued ps (met b q n (fresh cfg ca a se p)), met a p m (fresh cfg (Some k) b se q)]) 1
    = map (\<lambda>pk. CallReceive k a (dat pk) (len_i32 (dat pk)) (pkt_type pk) (pkt_flags pk)) ps"
proof -
  let ?U = "met b q n (fresh cfg ca a se p)" and ?V = "met a p m (fresh cfg (Some k) b se q)" and ?new = "map (Pair (PeerId a)) ps"
  let ?cb = "callback_new\<lparr>receive_callback := Some k\<rparr>" and ?es = "map (\<lambda>pk. Received a (dat pk) (pkt_type pk) (pkt_flags pk)) ps"
  let ?U1 = "(queued ps ?U)\<lparr>si_carried := length ps\<rparr>"
  let ?V1 = "?V\<lparr>si_ns := (si_ns ?V)\<lparr>ns_transport := (si_transport ?V)\<lparr>tm_incoming := tm_incoming (si_transport ?V) @ ?new\<rparr>\<rparr>\<rparr>"
  let ?V2 = "?V1\<lparr>si_handled := Suc (length ps), si_ns := (si_ns ?V1)\<lparr>ns_callback := ?cb\<lparr>cb_queue := ?es\<rparr>\<rparr>\<rparr>"
  let ?V3 = "?V2\<lparr>si_ns := (si_ns ?V2)\<lparr>ns_callback := ?cb\<lparr>cb_queue := [], cb_calls := calls_of ?cb ?es\<rparr>\<rparr>\<rparr>"
  note quiet = redial_def open_data_def reap_def hung_up_def is_node_def tm_has_peer_def hm_contains_def hm_get_def Let_def
  have "fold (hand_over (PeerId a) (si_transport (queued ps ?U))) (map (Pair 2) ps) [?U1, ?V] = [?U1, ?V1]"
    by (rule carry_list [where q = "PeerId b"]) (use names in \<open>simp_all add: is_node_def tm_has_peer_def hm_contains_def hm_get_def\<close>)
  then have "carry 0 [queued ps ?U, ?V] = [?U1, ?V1]" by (simp add: carry_def Let_def)
  moreover have "receive x 0 [?U1, ?V1] = [?U1, ?V1]" by (simp add: receive_def Let_def)
  moreover have "watch x 0 [?U1, ?V1] = [?U1, ?V1]" by (simp add: watch_def set_node_def Let_def callback_new_def)
  ultimately have t0: "site_turn x s 0 [queued ps ?U, ?V] = [?U1, ?V1]" using names by (simp add: site_turn_def quiet)
  have "fold (receive_one x 1) (map (Pair (PeerId a)) ps) [?U1, ?V1\<lparr>si_handled := Suc (length ps)\<rparr>] = [?U1, ?V2]"
    by (subst receive_list [of ps x dat]) (use ps in \<open>simp_all add: callback_new_def\<close>)
  then have "receive x 1 [?U1, ?V1] = [?U1, ?V2]" by (simp add: receive_def Let_def)
  moreover have "carry 1 [?U1, ?V1] = [?U1, ?V1]" by (simp add: carry_def Let_def)
  moreover have "(callback_step ^^ (length ps + length ps)) (?cb\<lparr>cb_queue := ?es\<rparr>) = ?cb\<lparr>cb_queue := [], cb_calls := calls_of ?cb ?es\<rparr>"
  proof -
    have "calls_of (?cb\<lparr>cb_queue := ?es\<rparr>) ?es = calls_of ?cb ?es" by (rule calls_of_cong) simp
    moreover have "cb_thread ?cb = AtFlag" "\<not> cb_shutdown ?cb" "cb_calls ?cb = []" by (simp_all add: callback_new_def)
    ultimately show ?thesis using callback_all [of "?cb\<lparr>cb_queue := ?es\<rparr>" ?es] by simp
  qed
  then have "watch x 1 [?U1, ?V2] = [?U1, ?V3]" by (simp add: watch_def set_node_def Let_def)
  ultimately have t1: "site_turn x s 1 [?U1, ?V1] = [?U1, ?V3]" using names by (simp add: site_turn_def quiet)
  have "turn x s [queued ps ?U, ?V] = [?U1, ?V3]" using t0 t1 by (simp add: turn_def)
  moreover have "calls_of ?cb ?es = map (\<lambda>pk. CallReceive k a (dat pk) (len_i32 (dat pk)) (pkt_type pk) (pkt_flags pk)) ps"
    using names(2) by (induction ps) (simp_all add: call_for_def cstring_new_def)
  ultimately show ?thesis by (simp add: calls_def)
qed

section \<open>From start to delivery\<close>

lemma queued_nil: "tm_sent (si_transport v) = [] \<Longrightarrow> queued [] v = v"
  by (simp add: queued_def)

lemma packed_ok:
  assumes "0x0100 \<le> mt" "length d \<le> 262144"
  shows "\<exists>pk. encode_packet x mt d (f AND 0xFE) thr 262144 = Inr pk"
proof -
  have "unat (len_u32 d) \<le> 262144" using assms(2) by (subst len_u32_unat) simp_all
  then have "\<not> 262144 < len_u32 d" by (simp add: word_less_nat_alt)
  with assms(1) show ?thesis by (simp add: encode_packet_def USER_MESSAGE_START_def Let_def not_less)
qed

lemma exchange_of_two:
  assumes "codec x ser" "lz4_laws x" "text_laws s" "a \<noteq> b" "brief a" "brief b" "brief se" "CHR 0x00 \<notin> set a" "usable cfg" "p \<noteq> q"
    and ms: "\<forall>(mt, d, f) \<in> set ms. 0x0100 \<le> mt \<and> length d \<le> 262144"
    and w: "w = connect_nodes x s 0 1 [fresh cfg ca a se p, fresh cfg (Some k) b se q]"
    and w': "w' = settle x s 1 (fold (\<lambda>(mt, d, f). send x 0 (ToPeer (PeerId b)) mt d f) ms w)"
  shows "sees w 0 b \<and> sees w 1 a
    \<and> list_all2 (\<lambda>(mt, d, f) c. \<exists>fl. c = CallReceive k a d (int (length d)) mt fl \<and> fl AND 0xFE = f AND 0xFE) ms (calls w' 1)"
proof -
  let ?n = "\<lparr>pkt_type = HANDSHAKE_ACK, pkt_flags = 0, pkt_payload = ser (HandshakeAck b q True None)\<rparr>"
  let ?m = "\<lparr>pkt_type = HANDSHAKE, pkt_flags = 0, pkt_payload = ser (Handshake a p PROTOCOL_VERSION se)\<rparr>"
  let ?U = "met b q ?n (fresh cfg ca a se p)" and ?V = "met a p ?m (fresh cfg (Some k) b se q)"
  let ?enc = "\<lambda>(mt, d, f). encode_packet x mt d (f AND 0xFE) (cfg_compression_threshold cfg) 262144"
  have "\<exists>pk. ?enc e = Inr pk" if "e \<in> set ms" for e
    using that ms packed_ok [of "fst e" "fst (snd e)" x "snd (snd e)"] by (auto simp: case_prod_beta)
  then obtain pk where pk: "\<And>e. e \<in> set ms \<Longrightarrow> ?enc e = Inr (pk e)" by metis
  have pair: "w = [queued [] ?U, ?V]" unfolding w pair_met [OF assms(1,3-7,9,10)] by (simp add: queued_nil)
  have "fold (\<lambda>(mt, d, f). send x 0 (ToPeer (PeerId b)) mt d f) ms' [queued ps ?U, ?V] = [queued (ps @ map pk ms') ?U, ?V]"
    if "set ms' \<subseteq> set ms" for ms' ps
    using that
  proof (induction ms' arbitrary: ps)
    case (Cons e ms')
    obtain mt d f where e: "e = (mt, d, f)" by (cases e)
    with Cons.prems ms pk [of e] have "\<not> mt < USER_MESSAGE_START" "encode_packet x mt d (f AND 0xFE) (cfg_compression_threshold cfg) 262144 = Inr (pk e)"
      by (auto simp: USER_MESSAGE_START_def)
    from send_queued [OF assms(9) this] Cons show ?case by (simp add: e)
  qed simp
  from this [of ms "[]"] have sent: "w' = turn x s [queued (map pk ms) ?U, ?V]" unfolding w' pair by (simp add: settle_def)
  have each: "\<not> is_internal (pk e) \<and> decode_payload x (pk e) = Inr d \<and> pkt_type (pk e) = mt \<and> pkt_flags (pk e) AND 0xFE = f AND 0xFE \<and> len_i32 d = int (length d)"
    if "e \<in> set ms" "e = (mt, d, f)" for e mt d f
  proof -
    from pk [OF that(1)] that(2) have enc: "encode_packet x mt d (f AND 0xFE) (cfg_compression_threshold cfg) 262144 = Inr (pk e)" by simp
    moreover have "length d < 2 ^ 31" using ms that by fastforce
    ultimately show ?thesis
      using encode_packet_type [OF enc] encode_packet_flags [OF enc] decode_encode_packet [OF assms(2) enc] by (simp add: user_flags_kept len_i32_exact)
  qed
  have "\<not> is_internal u \<and> decode_payload x u = Inr (projr (decode_payload x u))" if "u \<in> set (map pk ms)" for u using that each by fastforce
  from turn_delivers [OF assms(9,4,8) this, of "map pk ms"] have "calls w' 1 = map (\<lambda>u. CallReceive k a (projr (decode_payload x u))
      (len_i32 (projr (decode_payload x u))) (pkt_type u) (pkt_flags u)) (map pk ms)" unfolding sent by blast
  then have "list_all2 (\<lambda>(mt, d, f) c. \<exists>fl. c = CallReceive k a d (int (length d)) mt fl \<and> fl AND 0xFE = f AND 0xFE) ms (calls w' 1)"
    using each by (auto simp: list_all2_map2 list.rel_map intro!: list.rel_refl_strong)
  moreover have "sees w 0 b" "sees w 1 a" unfolding pair by (simp_all add: sees_def has_peer_def hm_contains_def hm_get_def met_def Let_def)
  ultimately show ?thesis by blast
qed

section \<open>Properties\<close>



end
