(* ===== verification/E2E_Tests.thy ===== *)
theory E2E_Tests
  imports Exchange "HOL-Library.Sublist"
begin

text \<open>
  The end-to-end tests of \<^verbatim>\<open>src/lib.rs\<close>, replayed: the nodes of a test are the sites of a world in the order the test starts them, what a test unwraps ends it when it fails, and what
  it asserts is the value of the definition. The names of the peers and of the session, which a test chooses, are parameters; so is the node \<open>k\<close> whose election timer fires first. Where a
  test sleeps or waits for a condition the world takes a fixed number of turns, and where it waits for an election one timer fires. Shutting the nodes down at the end is only
  replayed where something is asserted afterwards or nothing else is tested. The lemmas say that every test passes for all names in their order, with every serializer that reads
  back what it wrote (locale \<open>bench\<close>) and, where messages are compressed, every compressor that does (\<open>lz4_bench\<close>).
\<close>

section \<open>Definitions\<close>

text \<open>What the callbacks of a test record.\<close>

fun receipts :: "ffi_call list \<Rightarrow> (string \<times> bytes \<times> u16 \<times> u8) list" where
  "receipts [] = []"
| "receipts (CallReceive _ p d _ mt f # cs) = (p, d, mt, f) # receipts cs"
| "receipts (_ # cs) = receipts cs"

fun status_calls :: "ffi_call list \<Rightarrow> (string \<times> int) list" where
  "status_calls [] = []"
| "status_calls (CallPeerStatus _ p st # cs) = (p, st) # status_calls cs"
| "status_calls (_ # cs) = status_calls cs"

definition received :: "world \<Rightarrow> nat \<Rightarrow> (string \<times> bytes \<times> u16 \<times> u8) list" where
  "received w i = receipts (calls w i)"

definition statuses :: "world \<Rightarrow> nat \<Rightarrow> (string \<times> int) list" where
  "statuses w i = status_calls (calls w i)"

fun any_receipt :: "string \<Rightarrow> bytes \<Rightarrow> u16 \<Rightarrow> (string \<times> bytes \<times> u16 \<times> u8) list \<Rightarrow> bool" where
  "any_receipt p d mt [] \<longleftrightarrow> False"
| "any_receipt p d mt ((p', d', mt', _) # l) \<longleftrightarrow> p' = p \<and> d' = d \<and> mt' = mt \<or> any_receipt p d mt l"

text \<open>The result of the last call alone, for the tests that look at it.\<close>

definition connects :: "ext \<Rightarrow> addr_text \<Rightarrow> nat \<Rightarrow> nat \<Rightarrow> world \<Rightarrow> bool" where
  "connects x s i j w \<longleftrightarrow> \<not> isl (fst (dial x s i (address s j w) w))"

definition routes :: "ext \<Rightarrow> nat \<Rightarrow> MessageTarget \<Rightarrow> u16 \<Rightarrow> bytes \<Rightarrow> u8 \<Rightarrow> world \<Rightarrow> bool" where
  "routes x i target mt data flags w \<longleftrightarrow> \<not> isl (fst (route x i target mt data flags w))"

text \<open>A client that is not a node: it connects and sends one packet, or nothing; the packets it is answered with, and the world afterwards.\<close>

definition raw_client :: "ext \<Rightarrow> addr_text \<Rightarrow> nat \<Rightarrow> InternalMessage option \<Rightarrow> world \<Rightarrow> RawPacket list \<times> world" where
  "raw_client x s j m w =
     (case (case m of None \<Rightarrow> RdTimeout | Some msg \<Rightarrow> (case encode_internal x msg 262144 of Inl _ \<Rightarrow> RdClosed | Inr p \<Rightarrow> RdPacket p)) of
        r \<Rightarrow> (case handle_incoming_connection x s (socket_env CnOk r) (local_addr 0) (si_transport (w ! j)) of
               (_, answer, tm) \<Rightarrow> (answer, set_transport j tm w)))"

definition refused_with :: "ext \<Rightarrow> string \<Rightarrow> RawPacket list \<Rightarrow> bool" where
  "refused_with x reason answer \<longleftrightarrow>
     (case answer of
        [] \<Rightarrow> False
      | p # _ \<Rightarrow> (case decode_internal x p of Inr (HandshakeAck _ _ False (Some r)) \<Rightarrow> sublist reason r | _ \<Rightarrow> False))"

text \<open>What the leader sends, and what the host tells the election and the router.\<close>

definition unwrap :: "('e + 'a) \<times> world \<Rightarrow> world" where
  "unwrap r = (case r of (Inl _, _) \<Rightarrow> [] | (Inr _, w) \<Rightarrow> w)"

definition forward :: "ext \<Rightarrow> nat \<Rightarrow> string \<Rightarrow> ForwardTarget \<Rightarrow> u16 \<Rightarrow> u8 \<Rightarrow> bytes \<Rightarrow> world \<Rightarrow> (NetworkError + unit) \<times> world" where
  "forward x i origin target mt flags data w =
     (let ns = si_ns (w ! i) in
      case forward_message x (\<lambda>_ _. Sent) (ns_router ns) (ns_leader ns) (PeerId origin) target mt flags data (ns_transport ns) of (r, tm) \<Rightarrow> (r, set_transport i tm w))"

definition lead_all :: "ext \<Rightarrow> nat \<Rightarrow> u16 \<Rightarrow> bytes \<Rightarrow> u8 \<Rightarrow> world \<Rightarrow> (NetworkError + unit) \<times> world" where
  "lead_all x i mt data flags w =
     (let ns = si_ns (w ! i) in
      case send_from_leader x (\<lambda>_ _. Sent) (ns_router ns) (ns_leader ns) mt data flags (ns_transport ns) of (r, tm) \<Rightarrow> (r, set_transport i tm w))"

definition centralize :: "nat \<Rightarrow> world \<Rightarrow> world" where
  "centralize i w = (let ns = si_ns (w ! i) in set_node i (ns\<lparr>ns_router := set_centralized True (ns_router ns)\<rparr>) w)"

definition appoint :: "nat \<Rightarrow> string \<Rightarrow> world \<Rightarrow> world" where
  "appoint i name w = (let ns = si_ns (w ! i) in set_node i (ns\<lparr>ns_leader := snd (set_leader (PeerId name) (ns_leader ns))\<rparr>) w)"

definition hear :: "nat \<Rightarrow> nat \<Rightarrow> world \<Rightarrow> world" where
  "hear cb i w = w[i := hearing cb (w ! i)]"

definition election_config :: "u16 \<Rightarrow> u16 \<Rightarrow> NetworkConfig" where
  "election_config lo hi = config_default\<lparr>election_timeout_min_ms := lo, election_timeout_max_ms := hi, heartbeat_interval_ms := 100\<rparr>"

text \<open>Two nodes with a leader, and the index of the leader and of the other one.\<close>

definition elected_pair :: "ext \<Rightarrow> addr_text \<Rightarrow> nat \<Rightarrow> site list \<Rightarrow> world" where
  "elected_pair x s k w = settle x s 3 (elect x k (settle x s 2 (join x s 0 1 w)))"

definition leader_index :: "world \<Rightarrow> nat" where
  "leader_index w = (if leads w 0 then 0 else 1)"

definition follower_index :: "world \<Rightarrow> nat" where
  "follower_index w = (if leads w 0 then 1 else 0)"

subsection \<open>Two nodes\<close>

definition test_two_node_connect :: "ext \<Rightarrow> addr_text \<Rightarrow> string \<Rightarrow> string \<Rightarrow> string \<Rightarrow> bool" where
  "test_two_node_connect x s a b se =
     (let w = connect_nodes x s 0 1 [create_node a se 1, create_node b se 2] in
      sees w 0 b \<and> sees w 1 a)"

definition test_handshake_session_mismatch :: "ext \<Rightarrow> addr_text \<Rightarrow> string \<Rightarrow> string \<Rightarrow> string \<Rightarrow> string \<Rightarrow> bool" where
  "test_handshake_session_mismatch x s a b se sf \<longleftrightarrow>
     \<not> connects x s 0 1 [create_node a se 1, create_node b sf 2]"

definition test_handshake_duplicate_peer_id :: "ext \<Rightarrow> addr_text \<Rightarrow> string \<Rightarrow> string \<Rightarrow> string \<Rightarrow> bool" where
  "test_handshake_duplicate_peer_id x s a b se \<longleftrightarrow>
     (let w = connect_nodes x s 0 1 [create_node a se 1, create_node b se 2] in
      w \<noteq> [] \<and> \<not> connects x s 0 1 w)"

definition test_graceful_shutdown :: "ext \<Rightarrow> addr_text \<Rightarrow> string \<Rightarrow> string \<Rightarrow> string \<Rightarrow> bool" where
  "test_graceful_shutdown x s a b se \<longleftrightarrow>
     (let w = connect_nodes x s 0 1 [create_node a se 1, create_node b se 2]; w1 = shut_down x 1 (shut_down x 0 w) in
      sees w 0 b \<and> ns_shutdown (si_ns (w1 ! 0)) \<and> ns_shutdown (si_ns (w1 ! 1)))"

definition test_broadcast_message :: "ext \<Rightarrow> addr_text \<Rightarrow> string \<Rightarrow> string \<Rightarrow> string \<Rightarrow> bool" where
  "test_broadcast_message x s a b se \<longleftrightarrow>
     (let w = connect_nodes x s 0 1 [create_node a se 1, create_node b se 2] in
      sees w 0 b \<and> routes x 0 Broadcast 0x0100 (ascii ''hello'') 0 w)"

definition test_disconnect_no_reconnect :: "ext \<Rightarrow> addr_text \<Rightarrow> string \<Rightarrow> string \<Rightarrow> string \<Rightarrow> bool" where
  "test_disconnect_no_reconnect x s a b se \<longleftrightarrow>
     (let w = connect_nodes x s 0 1 [create_node a se 1, create_node b se 2];
          w1 = settle x s 2 (hang_up x 0 b w) in
      sees w 0 b \<and> \<not> sees w1 0 b)"

definition test_discovery_same_session_auto_connect :: "ext \<Rightarrow> addr_text \<Rightarrow> string \<Rightarrow> string \<Rightarrow> string \<Rightarrow> bool" where
  "test_discovery_same_session_auto_connect x s a b se \<longleftrightarrow>
     (let n0 = create_node a se 1; n1 = create_node b se 2;
          w = settle x s 2 (join x s 0 1 [n0, n1]) in
      should_connect_to_discovered_peer (si_id n0) (ns_session_id (si_ns n0)) (as_str (si_id n1)) (ns_session_id (si_ns n1)) (ns_membership (si_ns n0)) (si_transport n0)
    \<and> sees w 0 b \<and> sees w 1 a)"

definition test_discovery_session_isolation :: "ext \<Rightarrow> addr_text \<Rightarrow> string \<Rightarrow> string \<Rightarrow> string \<Rightarrow> string \<Rightarrow> bool" where
  "test_discovery_session_isolation x s a b se sf \<longleftrightarrow>
     (let n0 = create_node a se 1; n1 = create_node b sf 2;
          w = snd (dial x s 0 (address s 1 [n0, n1]) [n0, n1]) in
      \<not> should_connect_to_discovered_peer (si_id n0) (ns_session_id (si_ns n0)) (as_str (si_id n1)) (ns_session_id (si_ns n1)) (ns_membership (si_ns n0)) (si_transport n0)
    \<and> \<not> connects x s 0 1 [n0, n1] \<and> \<not> sees w 0 b)"

definition test_unicast_delivery_verified :: "ext \<Rightarrow> addr_text \<Rightarrow> string \<Rightarrow> string \<Rightarrow> string \<Rightarrow> bool" where
  "test_unicast_delivery_verified x s a b se \<longleftrightarrow>
     (let w = connect_nodes x s 0 1 [create_node a se 1, hearing 0 (create_node b se 2)];
          w1 = settle x s 1 (send x 0 (ToPeer (PeerId b)) 0x0200 (ascii ''unicast_e2e_payload'') 0 w) in
      sees w 0 b \<and> sees w 1 a \<and> any_receipt a (ascii ''unicast_e2e_payload'') 0x0200 (received w1 1))"

definition test_bidirectional_messaging :: "ext \<Rightarrow> addr_text \<Rightarrow> string \<Rightarrow> string \<Rightarrow> string \<Rightarrow> bool" where
  "test_bidirectional_messaging x s a b se \<longleftrightarrow>
     (let w = connect_nodes x s 0 1 [hearing 0 (create_node a se 1), hearing 1 (create_node b se 2)];
          w1 = send x 0 (ToPeer (PeerId b)) 0x0200 (ascii ''from_a_to_b'') 0 w;
          w2 = settle x s 2 (send x 1 (ToPeer (PeerId a)) 0x0201 (ascii ''from_b_to_a'') 0 w1) in
      sees w 0 b \<and> sees w 1 a
    \<and> any_receipt b (ascii ''from_b_to_a'') 0x0201 (received w2 0) \<and> any_receipt a (ascii ''from_a_to_b'') 0x0200 (received w2 1))"

definition test_type_and_flags_preserved :: "ext \<Rightarrow> addr_text \<Rightarrow> string \<Rightarrow> string \<Rightarrow> string \<Rightarrow> bool" where
  "test_type_and_flags_preserved x s a b se \<longleftrightarrow>
     (let cases = [(0x0100, 0x00, 0x00), (0x0100, 0x02, 0x02), (0x0100, 0xFE, 0xFE), (0xFFFF, 0x00, 0x00), (0x1234, 0x04, 0x04)] :: (u16 \<times> u8 \<times> u8) list;
          w = connect_nodes x s 0 1 [create_node a se 1, hearing 0 (create_node b se 2)];
          w1 = settle x s 1 (fold (\<lambda>(mt, send_flags, _). send x 0 (ToPeer (PeerId b)) mt (ascii ''tf'') send_flags) cases w) in
      sees w 0 b \<and> list_all (\<lambda>(mt, _, expected). list_ex (\<lambda>(_, _, t, f). t = mt \<and> f = expected) (received w1 1)) cases)"

definition test_status_callbacks_on_connect_disconnect :: "ext \<Rightarrow> addr_text \<Rightarrow> string \<Rightarrow> string \<Rightarrow> string \<Rightarrow> bool" where
  "test_status_callbacks_on_connect_disconnect x s a b se \<longleftrightarrow>
     (let w = connect_nodes x s 0 1 [watching 0 (create_node a se 1), create_node b se 2];
          w1 = settle x s 1 (hang_up x 0 b w) in
      (b, as_i32 Connected) \<in> set (statuses w 0) \<and> (b, as_i32 Disconnected) \<in> set (statuses w1 0))"

definition test_reconnect_then_message :: "ext \<Rightarrow> addr_text \<Rightarrow> string \<Rightarrow> string \<Rightarrow> string \<Rightarrow> bool" where
  "test_reconnect_then_message x s a b se \<longleftrightarrow>
     (let w = connect_nodes x s 0 1 [create_node a se 1, hearing 0 (create_node b se 2)];
          w1 = settle x s 2 (hang_up x 0 b w);
          w2 = connect_nodes x s 0 1 w1;
          w3 = settle x s 1 (send x 0 (ToPeer (PeerId b)) 0x0700 (ascii ''after_reconnect'') 0 w2) in
      sees w 0 b \<and> \<not> sees w1 0 b \<and> sees w2 0 b \<and> list_ex (\<lambda>(_, d, _, _). d = ascii ''after_reconnect'') (received w3 1))"

definition test_empty_payload_delivery :: "ext \<Rightarrow> addr_text \<Rightarrow> string \<Rightarrow> string \<Rightarrow> string \<Rightarrow> bool" where
  "test_empty_payload_delivery x s a b se \<longleftrightarrow>
     (let w = connect_nodes x s 0 1 [create_node a se 1, hearing 0 (create_node b se 2)];
          w1 = settle x s 1 (send x 0 (ToPeer (PeerId b)) 0x0D00 [] 0 w) in
      sees w 0 b \<and> list_ex (\<lambda>(_, d, mt, _). d = [] \<and> mt = 0x0D00) (received w1 1))"

definition test_connection_refused_graceful :: "ext \<Rightarrow> addr_text \<Rightarrow> string \<Rightarrow> string \<Rightarrow> string \<Rightarrow> bool" where
  "test_connection_refused_graceful x s a b se \<longleftrightarrow>
     (let w = [create_node a se 1];
          r = dial x s 0 (show_addr s (local_addr 9)) w;
          w2 = connect_nodes x s 0 1 (snd r @ [create_node b se 2]) in
      isl (fst r) \<and> \<not> ns_shutdown (si_ns (snd r ! 0)) \<and> sees w2 0 b)"

definition test_handshake_version_mismatch :: "ext \<Rightarrow> addr_text \<Rightarrow> string \<Rightarrow> string \<Rightarrow> string \<Rightarrow> bool" where
  "test_handshake_version_mismatch x s a b se \<longleftrightarrow>
     refused_with x ''version_mismatch'' (fst (raw_client x s 0 (Some (Handshake a 9999 999 se)) [create_node b se 1]))"

definition test_handshake_timeout :: "ext \<Rightarrow> addr_text \<Rightarrow> string \<Rightarrow> string \<Rightarrow> bool" where
  "test_handshake_timeout x s a se \<longleftrightarrow>
     (let r = raw_client x s 0 None [create_node a se 1] in fst r = [] \<and> tm_connections (si_transport (snd r ! 0)) = [])"

definition test_version_mismatch_then_recovery :: "ext \<Rightarrow> addr_text \<Rightarrow> string \<Rightarrow> string \<Rightarrow> string \<Rightarrow> bool" where
  "test_version_mismatch_then_recovery x s a b se \<longleftrightarrow>
     (let r = raw_client x s 0 (Some (Handshake ''vm_bad'' 9999 999 se)) [create_node b se 1];
          w = connect_nodes x s 1 0 (snd r @ [create_node a se 2]) in
      refused_with x ''version_mismatch'' (fst r) \<and> sees w 0 a)"

text \<open>Messages in a row, a large one, and one that is worth compressing.\<close>

definition test_sequential_delivery :: "ext \<Rightarrow> addr_text \<Rightarrow> string \<Rightarrow> string \<Rightarrow> string \<Rightarrow> bool" where
  "test_sequential_delivery x s a b se \<longleftrightarrow>
     (let w = connect_nodes x s 0 1 [create_node a se 1, hearing 0 (create_node b se 2)];
          w1 = settle x s 1 (fold (\<lambda>i. send x 0 (ToPeer (PeerId b)) 0x0400 (ascii (''msg_'' @ show_nat i)) 0) [0..<20] w) in
      sees w 0 b \<and> length (received w1 1) \<ge> 20
    \<and> list_all (\<lambda>i. list_ex (\<lambda>(_, d, _, _). d = ascii (''msg_'' @ show_nat i)) (received w1 1)) [0..<20])"

definition test_large_payload_delivery :: "ext \<Rightarrow> addr_text \<Rightarrow> string \<Rightarrow> string \<Rightarrow> string \<Rightarrow> bool" where
  "test_large_payload_delivery x s a b se \<longleftrightarrow>
     (let payload = map (\<lambda>i. word_of_nat (i mod 251)) [0..<100 * 1024];
          w = connect_nodes x s 0 1 [create_node a se 1, hearing 0 (create_node b se 2)];
          w1 = settle x s 1 (send x 0 (ToPeer (PeerId b)) 0x0500 payload 0 w) in
      sees w 0 b \<and> length (received w1 1) \<ge> 1 \<and> fst (snd (received w1 1 ! 0)) = payload)"

definition test_compression_roundtrip :: "ext \<Rightarrow> addr_text \<Rightarrow> string \<Rightarrow> string \<Rightarrow> string \<Rightarrow> bool" where
  "test_compression_roundtrip x s a b se \<longleftrightarrow>
     (let big = replicate 8192 0xAB;
          w = connect_nodes x s 0 1 [create_node a se 1, hearing 0 (create_node b se 2)];
          w1 = settle x s 1 (send x 0 (ToPeer (PeerId b)) 0x1001 (ascii ''tiny_msg'') 0 (send x 0 (ToPeer (PeerId b)) 0x1000 big 0 w)) in
      sees w 0 b \<and> length (received w1 1) \<ge> 2
    \<and> (case find (\<lambda>(_, d, _, _). length d = 8192) (received w1 1) of None \<Rightarrow> False | Some (_, d, _, _) \<Rightarrow> d = big)
    \<and> list_ex (\<lambda>(_, d, _, _). d = ascii ''tiny_msg'') (received w1 1))"

text \<open>Settings of the sockets.\<close>

definition test_tcp_nodelay_connect_and_exchange :: "ext \<Rightarrow> addr_text \<Rightarrow> string \<Rightarrow> string \<Rightarrow> string \<Rightarrow> bool" where
  "test_tcp_nodelay_connect_and_exchange x s a b se \<longleftrightarrow>
     (let config = config_default\<lparr>tcp_nodelay := True\<rparr>;
          w = connect_nodes x s 0 1 [node_with config a se 1, node_with config b se 2] in
      sees w 0 b \<and> sees w 1 a \<and> routes x 0 (ToPeer (PeerId b)) 0x0100 (ascii ''hello_nodelay'') 0 w)"

definition test_custom_keepalive_connect_and_exchange :: "ext \<Rightarrow> addr_text \<Rightarrow> string \<Rightarrow> string \<Rightarrow> string \<Rightarrow> bool" where
  "test_custom_keepalive_connect_and_exchange x s a b se \<longleftrightarrow>
     (let config = config_default\<lparr>keepalive_time_secs := 30, keepalive_interval_secs := 5, keepalive_retries := 5\<rparr>;
          w = connect_nodes x s 0 1 [node_with config a se 1, node_with config b se 2] in
      sees w 0 b \<and> routes x 0 (ToPeer (PeerId b)) 0x0100 (ascii ''hello_keepalive'') 0 w)"

text \<open>Nodes that stop without a word, and the timers that notice.\<close>

definition cut_off :: "nat \<Rightarrow> world \<Rightarrow> world" where
  "cut_off i w = (let ns = si_ns (w ! i) in set_node i (ns\<lparr>ns_shutdown := True, ns_transport := transport_shutdown (ns_transport ns)\<rparr>) w)"

definition ping_at :: "ext \<Rightarrow> instant \<Rightarrow> nat \<Rightarrow> world \<Rightarrow> world" where
  "ping_at x t i w = set_node i (ping_tick ((world_env x)\<lparr>ne_now := \<lambda>_. t\<rparr>) (si_ns (w ! i))) w"

definition test_keepalive_timeout_detection :: "ext \<Rightarrow> addr_text \<Rightarrow> string \<Rightarrow> string \<Rightarrow> string \<Rightarrow> bool" where
  "test_keepalive_timeout_detection x s a b se \<longleftrightarrow>
     (let config = config_default\<lparr>heartbeat_interval_ms := 100, heartbeat_timeout_multiplier := 2\<rparr>;
          w = connect_nodes x s 0 1 [watching 0 (node_with config a se 1), node_with config b se 2];
          w1 = settle x s 1 (ping_at x 10000000000 0 (settle x s 1 (cut_off 1 w))) in
      sees w 0 b \<and> (b, as_i32 Disconnected) \<in> set (drop (length (statuses w 0)) (statuses w1 0)))"

definition test_reconnect_exponential_backoff :: "ext \<Rightarrow> addr_text \<Rightarrow> string \<Rightarrow> string \<Rightarrow> string \<Rightarrow> bool" where
  "test_reconnect_exponential_backoff x s a b se \<longleftrightarrow>
     (let config = config_default\<lparr>reconnect_initial_ms := 100, reconnect_max_ms := 500\<rparr>;
          w = connect_nodes x s 0 1 [node_with config a se 1, node_with config b se 2];
          w1 = settle x s 2 (shut_down x 1 w) in
      sees w 0 b \<and> \<not> ns_shutdown (si_ns (w1 ! 0)))"

text \<open>Connecting and disconnecting again and again.\<close>

definition connect_and_leave :: "ext \<Rightarrow> addr_text \<Rightarrow> string \<Rightarrow> world \<Rightarrow> world" where
  "connect_and_leave x s b w = settle x s 1 (hang_up x 0 b (settle x s 1 (snd (dial x s 0 (address s 1 w) w))))"

definition test_rapid_connect_disconnect :: "ext \<Rightarrow> addr_text \<Rightarrow> string \<Rightarrow> string \<Rightarrow> string \<Rightarrow> bool" where
  "test_rapid_connect_disconnect x s a b se \<longleftrightarrow>
     \<not> ns_shutdown (si_ns ((connect_and_leave x s b ^^ 5) [create_node a se 1, create_node b se 2] ! 0))"

text \<open>A callback thread alone.\<close>

definition test_ffi_callbacks :: bool where
  "test_ffi_callbacks \<longleftrightarrow>
     (let cb = send_event Sent (Received ''test_peer'' (ascii ''hello'') 0x0100 0) (register_receive_callback (Some 0) callback_new);
          cb1 = (callback_step ^^ 2) cb in
      length (receipts (cb_calls cb1)) > 0 \<and> join_thread (callback_step (drain_and_shutdown (register_receive_callback None cb1))) \<noteq> None)"

subsection \<open>Two nodes and a leader\<close>

definition test_auto_leader_election_2_nodes :: "ext \<Rightarrow> addr_text \<Rightarrow> nat \<Rightarrow> string \<Rightarrow> string \<Rightarrow> string \<Rightarrow> bool" where
  "test_auto_leader_election_2_nodes x s k a b se \<longleftrightarrow>
     (let w = elected_pair x s k [node_with (election_config 300 600) a se 1, node_with (election_config 300 600) b se 2] in
      peers_seen w 0 \<ge> 1 \<and> leader_of w 0 \<noteq> None \<and> leader_of w 1 \<noteq> None \<and> leader_of w 0 = leader_of w 1)"

definition test_centralized_routing :: "ext \<Rightarrow> addr_text \<Rightarrow> nat \<Rightarrow> string \<Rightarrow> string \<Rightarrow> string \<Rightarrow> bool" where
  "test_centralized_routing x s k a b se \<longleftrightarrow>
     (let w = elected_pair x s k [node_with (election_config 200 400) a se 1, node_with (election_config 200 400) b se 2] in
      peers_seen w 0 \<ge> 1 \<and> leader_of w 0 \<noteq> None \<and> routes x 0 Broadcast 0x0100 (ascii ''centralized_msg'') 0x04 (centralize 1 (centralize 0 w)))"

definition test_forward_message :: "ext \<Rightarrow> addr_text \<Rightarrow> nat \<Rightarrow> string \<Rightarrow> string \<Rightarrow> string \<Rightarrow> bool" where
  "test_forward_message x s k a b se \<longleftrightarrow>
     (let w = elected_pair x s k [node_with (election_config 200 400) a se 1, node_with (election_config 200 400) b se 2];
          follower_id = (if leads w 0 then b else a);
          r = forward x (leader_index w) ''external'' (FwdToPeer (PeerId follower_id)) 0x0100 0x02 (ascii ''forwarded_data'') w in
      leader_of w 0 \<noteq> None \<and> \<not> isl (fst r) \<and> fst (forward x (follower_index w) ''external'' FwdBroadcast 0x0100 0 (ascii ''should_fail'') (snd r)) = Inl NotLeader)"

definition test_leader_broadcast_delivery :: "ext \<Rightarrow> addr_text \<Rightarrow> nat \<Rightarrow> string \<Rightarrow> string \<Rightarrow> string \<Rightarrow> bool" where
  "test_leader_broadcast_delivery x s k a b se \<longleftrightarrow>
     (let w = elected_pair x s k [hearing 0 (node_with (election_config 200 400) a se 1), hearing 0 (node_with (election_config 200 400) b se 2)];
          w1 = settle x s 2 (unwrap (lead_all x (leader_index w) 0x0900 (ascii ''from_the_leader'') 0 w)) in
      sees w 0 b \<and> leader_of w 0 \<noteq> None \<and> leader_of w 1 \<noteq> None
    \<and> list_ex (\<lambda>(_, d, _, _). d = ascii ''from_the_leader'') (received w1 0 @ received w1 1))"

definition test_send_to_leader_and_from_leader :: "ext \<Rightarrow> addr_text \<Rightarrow> string \<Rightarrow> string \<Rightarrow> string \<Rightarrow> bool" where
  "test_send_to_leader_and_from_leader x s a b se \<longleftrightarrow>
     (let config = config_default\<lparr>cfg_auto_election_enabled := False\<rparr>;
          w = connect_nodes x s 0 1 [node_with config a se 1, node_with config b se 2];
          w1 = hear 1 1 (hear 0 0 (appoint 1 a (appoint 0 a w)));
          w2 = settle x s 2 (send x 1 ToLeader 0x0E00 (ascii ''msg_to_leader'') 0 w1);
          w3 = settle x s 1 (unwrap (lead_all x 0 0x0E01 (ascii ''from_leader_broadcast'') 0 w2)) in
      sees w 0 b \<and> list_ex (\<lambda>(_, d, mt, _). d = ascii ''msg_to_leader'' \<and> mt = 0x0E00) (received w2 0)
    \<and> list_ex (\<lambda>(_, d, mt, _). d = ascii ''from_leader_broadcast'' \<and> mt = 0x0E01) (received w3 1))"

definition test_election_skips_known_leader :: "ext \<Rightarrow> addr_text \<Rightarrow> nat \<Rightarrow> string \<Rightarrow> string \<Rightarrow> string \<Rightarrow> bool" where
  "test_election_skips_known_leader x s k a b se \<longleftrightarrow>
     (let w = elected_pair x s k [node_with (election_config 200 400) a se 1, node_with (election_config 200 400) b se 2];
          w1 = settle x s 2 (elect x 1 (elect x 0 (settle x s 2 (elect x 1 (elect x 0 w))))) in
      sees w 0 b \<and> leader_of w 0 \<noteq> None \<and> leader_of w 0 = leader_of w 1
    \<and> le_current_term (ns_leader (si_ns (w1 ! 0))) = le_current_term (ns_leader (si_ns (w ! 0))) \<and> leader_of w1 0 = leader_of w 0)"

definition assign_all :: "ext \<Rightarrow> nat \<Rightarrow> string \<Rightarrow> world \<Rightarrow> world" where
  "assign_all x i name w =
     (let ns = si_ns (w ! i) in
      case set_leader (PeerId name) (ns_leader ns) of
        ((trm, lid, aid), le) \<Rightarrow>
          (case encode_internal x (LeaderAssign trm lid aid) (cfg_max_message_size (ns_config ns)) of
             Inl _ \<Rightarrow> []
           | Inr assign \<Rightarrow> set_node i (ns\<lparr>ns_leader := le, ns_transport := snd (broadcast (\<lambda>_ _. Sent) assign None (ns_transport ns))\<rparr>) w))"

definition test_manual_leader_survives_heartbeat :: "ext \<Rightarrow> addr_text \<Rightarrow> string \<Rightarrow> string \<Rightarrow> string \<Rightarrow> bool" where
  "test_manual_leader_survives_heartbeat x s a b se \<longleftrightarrow>
     (let config = (election_config 200 400)\<lparr>cfg_auto_election_enabled := False\<rparr>;
          w = connect_nodes x s 0 1 [node_with config a se 1, node_with config b se 2];
          w1 = settle x s 2 (assign_all x 0 a w);
          le = ns_leader (si_ns (w1 ! 0));
          r = handle_heartbeat (le_current_term le + 10) b le in
      sees w 0 b \<and> leader_of w1 0 = Some (PeerId a) \<and> leader_of w1 1 = Some (PeerId a) \<and> \<not> fst r \<and> le_leader_id (snd r) = Some (PeerId a))"

section \<open>Lemmas\<close>

definition two :: "string \<Rightarrow> string \<Rightarrow> string \<Rightarrow> bool" where
  "two a b se \<longleftrightarrow> a < b \<and> \<not> b < a \<and> a \<noteq> b \<and> b \<noteq> a \<and> brief a \<and> brief b \<and> brief se \<and> CHR 0x00 \<notin> set a \<and> CHR 0x00 \<notin> set b"

lemma brief_literal: "brief (c # t) \<longleftrightarrow> length t \<le> 99"
  by (auto simp: brief_def)

lemma version_999: "version_text 999 = ''version_mismatch: expected 1, got 999''"
  by code_simp

lemma length_show_nat: "i < 100 \<Longrightarrow> length (show_nat i) \<le> 2"
  by (subst show_nat.simps, subst show_nat.simps) simp

lemmas leave_eval = node_shutdown_def drain_deadline_def all_queues_empty_def broadcast_peer_leave_def drain_and_shutdown_def join_thread_def transport_shutdown_def
  disconnect_peer_def remove_peer_def control_read_cleanup_def set_should_reconnect_def modify_info_def handle_peer_left_def PEER_LEAVE_def

lemmas test_eval = connect_and_leave_def cut_off_def ping_at_def ping_tick_def drop_timed_out_def check_timeouts_def timeout_ms_def from_millis_def PING_def PONG_def handle_forwarded_user_data_def unwrap_def forward_def lead_all_def centralize_def appoint_def hear_def election_config_def elected_pair_def leader_index_def follower_index_def assign_all_def
  forward_message_def send_from_leader_def set_centralized_def set_leader_def assign_leader_def handle_leader_assign_def is_auto_forward_def LEADER_ASSIGN_def FORWARDED_USER_DATA_def
  brief_literal version_999 leave_eval world_eval connect_eval send_eval election_eval received_def statuses_def connects_def routes_def

locale bench =
  fixes x :: ext and ser :: "InternalMessage \<Rightarrow> bytes" and s :: addr_text
  assumes x: "codec x ser" and s: "text_laws s"
begin

lemmas eval = test_eval text_parse [OF s] text_brief [OF s] codec_encode [OF x] codec_decode [OF x]

lemma two_node_connect: "two a b se \<Longrightarrow> test_two_node_connect x s a b se"
  by (simp add: two_def test_two_node_connect_def eval cong: let_weak_cong)

lemma handshake_session_mismatch: "two a b se \<Longrightarrow> brief sf \<Longrightarrow> se \<noteq> sf \<Longrightarrow> test_handshake_session_mismatch x s a b se sf"
  by (simp add: two_def test_handshake_session_mismatch_def eval cong: let_weak_cong)

lemma handshake_duplicate_peer_id: "two a b se \<Longrightarrow> test_handshake_duplicate_peer_id x s a b se"
  by (simp add: two_def test_handshake_duplicate_peer_id_def eval cong: let_weak_cong)

lemma graceful_shutdown: "two a b se \<Longrightarrow> test_graceful_shutdown x s a b se"
  by (simp add: two_def test_graceful_shutdown_def eval cong: let_weak_cong)

lemma broadcast_message: "two a b se \<Longrightarrow> test_broadcast_message x s a b se"
  by (simp add: two_def test_broadcast_message_def eval cong: let_weak_cong)

lemma disconnect_no_reconnect: "two a b se \<Longrightarrow> test_disconnect_no_reconnect x s a b se"
  by (simp add: two_def test_disconnect_no_reconnect_def eval cong: let_weak_cong)

lemma discovery_same_session_auto_connect: "two a b se \<Longrightarrow> test_discovery_same_session_auto_connect x s a b se"
  by (simp add: two_def test_discovery_same_session_auto_connect_def should_connect_to_discovered_peer_def eval cong: let_weak_cong)

lemma discovery_session_isolation: "two a b se \<Longrightarrow> brief sf \<Longrightarrow> se \<noteq> sf \<Longrightarrow> test_discovery_session_isolation x s a b se sf"
  by (simp add: two_def test_discovery_session_isolation_def should_connect_to_discovered_peer_def eval cong: let_weak_cong)

lemma unicast_delivery_verified: "two a b se \<Longrightarrow> test_unicast_delivery_verified x s a b se"
  by (simp add: two_def test_unicast_delivery_verified_def eval cong: let_weak_cong)

lemma bidirectional_messaging: "two a b se \<Longrightarrow> test_bidirectional_messaging x s a b se"
  by (simp add: two_def test_bidirectional_messaging_def eval cong: let_weak_cong)

lemma type_and_flags_preserved: "two a b se \<Longrightarrow> test_type_and_flags_preserved x s a b se"
  by (simp add: two_def test_type_and_flags_preserved_def eval cong: let_weak_cong)

lemma status_callbacks_on_connect_disconnect: "two a b se \<Longrightarrow> test_status_callbacks_on_connect_disconnect x s a b se"
  by (simp add: two_def test_status_callbacks_on_connect_disconnect_def eval cong: let_weak_cong)

lemma reconnect_then_message: "two a b se \<Longrightarrow> test_reconnect_then_message x s a b se"
  by (simp add: two_def test_reconnect_then_message_def eval cong: let_weak_cong)

lemma empty_payload_delivery: "two a b se \<Longrightarrow> test_empty_payload_delivery x s a b se"
  by (simp add: two_def test_empty_payload_delivery_def eval cong: let_weak_cong)

lemma connection_refused_graceful: "two a b se \<Longrightarrow> test_connection_refused_graceful x s a b se"
  by (simp add: two_def test_connection_refused_graceful_def eval cong: let_weak_cong)

lemma handshake_version_mismatch: "two a b se \<Longrightarrow> test_handshake_version_mismatch x s a b se"
  by (simp add: two_def test_handshake_version_mismatch_def raw_client_def refused_with_def eval cong: let_weak_cong)

lemma handshake_timeout: "brief a \<Longrightarrow> brief se \<Longrightarrow> test_handshake_timeout x s a se"
  by (simp add: test_handshake_timeout_def raw_client_def eval cong: let_weak_cong)

lemma version_mismatch_then_recovery: "two a b se \<Longrightarrow> test_version_mismatch_then_recovery x s a b se"
  by (simp add: two_def test_version_mismatch_then_recovery_def raw_client_def refused_with_def eval cong: let_weak_cong)

lemma auto_leader_election_2_nodes:
  "two a b se \<Longrightarrow> test_auto_leader_election_2_nodes x s 0 a b se" "two a b se \<Longrightarrow> test_auto_leader_election_2_nodes x s 1 a b se"
  by (simp add: two_def test_auto_leader_election_2_nodes_def eval cong: let_weak_cong)+

lemma centralized_routing:
  "two a b se \<Longrightarrow> test_centralized_routing x s 0 a b se" "two a b se \<Longrightarrow> test_centralized_routing x s 1 a b se"
  by (simp add: two_def test_centralized_routing_def eval cong: let_weak_cong)+

lemma forward_message:
  "two a b se \<Longrightarrow> test_forward_message x s 0 a b se" "two a b se \<Longrightarrow> test_forward_message x s 1 a b se"
  by (simp add: two_def test_forward_message_def eval cong: let_weak_cong)+

lemma leader_broadcast_delivery:
  "two a b se \<Longrightarrow> test_leader_broadcast_delivery x s 0 a b se" "two a b se \<Longrightarrow> test_leader_broadcast_delivery x s 1 a b se"
  by (simp add: two_def test_leader_broadcast_delivery_def eval cong: let_weak_cong)+

lemma send_to_leader_and_from_leader:
  "two a b se \<Longrightarrow> test_send_to_leader_and_from_leader x s a b se"
  by (simp add: two_def test_send_to_leader_and_from_leader_def eval cong: let_weak_cong)

lemma election_skips_known_leader:
  "two a b se \<Longrightarrow> test_election_skips_known_leader x s 0 a b se" "two a b se \<Longrightarrow> test_election_skips_known_leader x s 1 a b se"
  by (simp add: two_def test_election_skips_known_leader_def eval cong: let_weak_cong)+

lemma manual_leader_survives_heartbeat:
  "two a b se \<Longrightarrow> test_manual_leader_survives_heartbeat x s a b se"
  by (simp add: two_def test_manual_leader_survives_heartbeat_def eval cong: let_weak_cong)

lemma tcp_nodelay_connect_and_exchange: "two a b se \<Longrightarrow> test_tcp_nodelay_connect_and_exchange x s a b se"
  by (simp add: two_def test_tcp_nodelay_connect_and_exchange_def eval cong: let_weak_cong)

lemma custom_keepalive_connect_and_exchange: "two a b se \<Longrightarrow> test_custom_keepalive_connect_and_exchange x s a b se"
  by (simp add: two_def test_custom_keepalive_connect_and_exchange_def eval cong: let_weak_cong)

lemma keepalive_timeout_detection: "two a b se \<Longrightarrow> test_keepalive_timeout_detection x s a b se"
  by (simp add: two_def test_keepalive_timeout_detection_def eval cong: let_weak_cong)

lemma reconnect_exponential_backoff: "two a b se \<Longrightarrow> test_reconnect_exponential_backoff x s a b se"
  by (simp add: two_def test_reconnect_exponential_backoff_def eval cong: let_weak_cong)

lemma rapid_connect_disconnect: "two a b se \<Longrightarrow> test_rapid_connect_disconnect x s a b se"
  by (simp add: two_def test_rapid_connect_disconnect_def eval cong: let_weak_cong)

end

text \<open>Tests with many or large messages rest on what two nodes exchange in general.\<close>

locale lz4_bench = bench +
  assumes lz4: "lz4_laws x"
begin

lemma receipts_of:
  assumes "list_all2 (\<lambda>(mt, d, f) c. \<exists>fl. c = CallReceive k a d (int (length d)) mt fl \<and> fl AND 0xFE = f AND 0xFE) ms cs"
  shows "map (\<lambda>(p, d, mt, _). (p, d, mt)) (receipts cs) = map (\<lambda>(mt, d, _). (a, d, mt)) ms"
  using assms by (induction ms cs rule: list_all2_induct) auto

lemma pair_receipts:
  assumes "two a b se" "\<forall>(mt, d, f) \<in> set ms. 0x0100 \<le> mt \<and> length d \<le> 262144"
    and "w = connect_nodes x s 0 1 [create_node a se 1, hearing 0 (create_node b se 2)]"
  shows "sees w 0 b"
    and "map (\<lambda>(p, d, mt, _). (p, d, mt)) (received (settle x s 1 (fold (\<lambda>(mt, d, f). send x 0 (ToPeer (PeerId b)) mt d f) ms w)) 1) = map (\<lambda>(mt, d, _). (a, d, mt)) ms"
proof -
  have fresh: "create_node a se 1 = fresh config_default None a se 1" "hearing 0 (create_node b se 2) = fresh config_default (Some 0) b se 2"
    by (simp_all add: create_node_def fresh_def)
  have ok: "usable config_default" by (simp add: usable_def config_default_def)
  note both = exchange_of_two [OF x lz4 s, of a b se config_default 1 2 ms w None 0, OF _ _ _ _ _ ok _ assms(2) _ refl]
  have "sees w 0 b \<and> list_all2 (\<lambda>(mt, d, f) c. \<exists>fl. c = CallReceive 0 a d (int (length d)) mt fl \<and> fl AND 0xFE = f AND 0xFE) ms
    (calls (settle x s 1 (fold (\<lambda>(mt, d, f). send x 0 (ToPeer (PeerId b)) mt d f) ms w)) 1)"
    using both assms(1) unfolding assms(3) fresh by (simp add: two_def)
  then show "sees w 0 b" "map (\<lambda>(p, d, mt, _). (p, d, mt)) (received (settle x s 1 (fold (\<lambda>(mt, d, f). send x 0 (ToPeer (PeerId b)) mt d f) ms w)) 1) = map (\<lambda>(mt, d, _). (a, d, mt)) ms"
    unfolding received_def by (blast intro: receipts_of)+
qed

lemma receipt_ex: "map (\<lambda>(p, d, mt, _). (p, d, mt)) l = l' \<Longrightarrow> (a, d, mt) \<in> set l' \<Longrightarrow> list_ex (\<lambda>(_, d', _, _). d' = d) l"
  by (fastforce simp: list_ex_iff)

lemma sequential_delivery:
  assumes "two a b se"
  shows "test_sequential_delivery x s a b se"
proof -
  let ?ms = "map (\<lambda>i. (0x0400 :: u16, ascii (''msg_'' @ show_nat i), 0 :: u8)) [0..<20]"
  let ?w = "connect_nodes x s 0 1 [create_node a se 1, hearing 0 (create_node b se 2)]"
  let ?send = "\<lambda>i. send x 0 (ToPeer (PeerId b)) 0x0400 (ascii (''msg_'' @ show_nat i)) 0"
  let ?got = "received (settle x s 1 (fold ?send [0..<20] ?w)) 1"
  have "length (ascii (''msg_'' @ show_nat i)) \<le> 262144" if "i \<in> {0..<20}" for i using length_show_nat [of i] that by simp
  moreover have "(0x0100 :: u16) \<le> 0x0400" by simp
  ultimately have ms: "\<forall>(mt, d, f) \<in> set ?ms. 0x0100 \<le> mt \<and> length d \<le> 262144" unfolding set_map set_upt ball_simps prod.case by blast
  have got: "map (\<lambda>(p, d, mt, _). (p, d, mt)) ?got = map (\<lambda>i. (a, ascii (''msg_'' @ show_nat i), 0x0400)) [0..<20]"
    using pair_receipts(2) [OF assms ms refl] by (simp only: fold_map map_map comp_def prod.case)
  from arg_cong [OF got, of length] have "20 \<le> length ?got" by (simp only: length_map length_upt order_refl diff_zero)
  moreover have "list_ex (\<lambda>(_, d, _, _). d = ascii (''msg_'' @ show_nat i)) ?got" if "i \<in> set [0..<20]" for i
    by (rule receipt_ex [OF got, where a = a and mt = "0x0400"]) (use that in \<open>unfold set_map, blast\<close>)
  ultimately show ?thesis using pair_receipts(1) [OF assms ms refl] unfolding test_sequential_delivery_def Let_def list_all_iff by blast
qed

lemma large_payload_delivery:
  assumes "two a b se"
  shows "test_large_payload_delivery x s a b se"
proof -
  define payload :: bytes where payload: "payload = map (\<lambda>i. word_of_nat (i mod 251)) [0..<100 * 1024]"
  let ?w = "connect_nodes x s 0 1 [create_node a se 1, hearing 0 (create_node b se 2)]"
  have "length payload = 102400" unfolding payload by (simp only: length_map length_upt)
  then have ms: "\<forall>(mt, d, f) \<in> set [(0x0500 :: u16, payload, 0 :: u8)]. 0x0100 \<le> mt \<and> length d \<le> 262144" by simp
  show ?thesis using pair_receipts [OF assms ms refl] unfolding test_large_payload_delivery_def payload [symmetric] by (auto simp: map_eq_Cons_conv)
qed

lemma compression_roundtrip:
  assumes "two a b se"
  shows "test_compression_roundtrip x s a b se"
proof -
  define big :: bytes where big: "big = replicate 8192 0xAB"
  have n: "length big = 8192" unfolding big by (simp only: length_replicate)
  then have ms: "\<forall>(mt, d, f) \<in> set [(0x1000 :: u16, big, 0 :: u8), (0x1001, ascii ''tiny_msg'', 0)]. 0x0100 \<le> mt \<and> length d \<le> 262144" by simp
  show ?thesis using pair_receipts [OF assms ms refl] n unfolding test_compression_roundtrip_def big [symmetric] by (auto simp: map_eq_Cons_conv)
qed

end

lemma ffi_callbacks: "test_ffi_callbacks"
  by (simp add: test_ffi_callbacks_def test_eval)

interpretation plain: bench plain_ext plain_ser plain_text
  by unfold_locales (rule plain_codec plain_text_laws)+

interpretation plain_lz4: lz4_bench plain_ext plain_ser plain_text
  by unfold_locales (rule plain_lz4)

end
