(* ===== verification/E2E_Mesh.thy ===== *)
theory E2E_Mesh
  imports E2E_Tests
begin

text \<open>
  The end-to-end tests of \<^verbatim>\<open>src/lib.rs\<close> with three or more nodes, replayed. The names of the nodes are in the order of their indices unless a definition says otherwise, and the election timer
  that fires first is the one of the first node.
\<close>

section \<open>Definitions\<close>

definition mesh :: "ext \<Rightarrow> addr_text \<Rightarrow> world \<Rightarrow> world" where
  "mesh x s w = settle x s 3 (join x s 1 2 (join x s 0 2 (join x s 0 1 w)))"

definition elected_mesh :: "ext \<Rightarrow> addr_text \<Rightarrow> world \<Rightarrow> world" where
  "elected_mesh x s w = settle x s 4 (elect x 0 w)"

definition agreed :: "world \<Rightarrow> bool" where
  "agreed w \<longleftrightarrow> leader_of w 0 \<noteq> None \<and> leader_of w 0 = leader_of w 1 \<and> leader_of w 1 = leader_of w 2"

definition test_auto_leader_election_3_nodes :: "ext \<Rightarrow> addr_text \<Rightarrow> string \<Rightarrow> string \<Rightarrow> string \<Rightarrow> string \<Rightarrow> bool" where
  "test_auto_leader_election_3_nodes x s a b c se \<longleftrightarrow>
     (let w = mesh x s [node_with (election_config 300 600) a se 1, node_with (election_config 300 600) b se 2, node_with (election_config 300 600) c se 3];
          w1 = elected_mesh x s w in
      peers_seen w 0 \<ge> 2 \<and> peers_seen w 1 \<ge> 2 \<and> peers_seen w 2 \<ge> 2 \<and> agreed w1)"

definition test_all_nodes_agree_on_leader :: "ext \<Rightarrow> addr_text \<Rightarrow> string \<Rightarrow> string \<Rightarrow> string \<Rightarrow> string \<Rightarrow> bool" where
  "test_all_nodes_agree_on_leader x s a b c se \<longleftrightarrow>
     (let w = mesh x s [node_with (election_config 200 400) a se 1, node_with (election_config 200 400) b se 2, node_with (election_config 200 400) c se 3];
          w1 = elected_mesh x s w in
      peers_seen w 0 \<ge> 2 \<and> agreed w1
    \<and> of_bool (leads w1 0) + of_bool (leads w1 1) + of_bool (leads w1 2) = (1 :: nat)
    \<and> leader_of w1 0 \<in> {Some (PeerId a), Some (PeerId b), Some (PeerId c)})"

definition test_broadcast_delivery_verified :: "ext \<Rightarrow> addr_text \<Rightarrow> string \<Rightarrow> string \<Rightarrow> string \<Rightarrow> string \<Rightarrow> bool" where
  "test_broadcast_delivery_verified x s a b c se \<longleftrightarrow>
     (let w = settle x s 3 (join x s 0 2 (join x s 0 1 [create_node a se 1, hearing 0 (create_node b se 2), hearing 0 (create_node c se 3)]));
          w1 = settle x s 1 (send x 0 Broadcast 0x0300 (ascii ''broadcast_e2e_payload'') 0 w) in
      peers_seen w 0 \<ge> 2 \<and> any_receipt a (ascii ''broadcast_e2e_payload'') 0x0300 (received w1 1) \<and> any_receipt a (ascii ''broadcast_e2e_payload'') 0x0300 (received w1 2))"

fun from_sender :: "string \<Rightarrow> (string \<times> bytes \<times> u16 \<times> u8) list \<Rightarrow> nat" where
  "from_sender p [] = 0"
| "from_sender p ((p', _) # l) = (if p' = p then Suc (from_sender p l) else from_sender p l)"

definition test_full_mesh_broadcast :: "ext \<Rightarrow> addr_text \<Rightarrow> string \<Rightarrow> string \<Rightarrow> string \<Rightarrow> string \<Rightarrow> bool" where
  "test_full_mesh_broadcast x s a b c se \<longleftrightarrow>
     (let w = mesh x s [hearing 0 (create_node a se 1), hearing 0 (create_node b se 2), hearing 0 (create_node c se 3)];
          w1 = send x 2 Broadcast 0x0600 (ascii ''from_2'') 0 (send x 1 Broadcast 0x0600 (ascii ''from_1'') 0 (send x 0 Broadcast 0x0600 (ascii ''from_0'') 0 w));
          w2 = settle x s 2 w1;
          msgs = received w2 0 @ received w2 1 @ received w2 2 in
      peers_seen w 0 \<ge> 2 \<and> peers_seen w 1 \<ge> 2 \<and> peers_seen w 2 \<ge> 2
    \<and> length msgs \<ge> 6 \<and> from_sender a msgs \<ge> 2 \<and> from_sender b msgs \<ge> 2 \<and> from_sender c msgs \<ge> 2)"

definition test_centralized_broadcast_delivery :: "ext \<Rightarrow> addr_text \<Rightarrow> string \<Rightarrow> string \<Rightarrow> string \<Rightarrow> string \<Rightarrow> bool" where
  "test_centralized_broadcast_delivery x s a b c se \<longleftrightarrow>
     (let w = mesh x s [hearing 0 (node_with (election_config 200 400) a se 1), hearing 0 (node_with (election_config 200 400) b se 2),
            hearing 0 (node_with (election_config 200 400) c se 3)];
          w1 = elected_mesh x s w;
          follower = (if \<not> leads w1 0 then 0 else if \<not> leads w1 1 then 1 else 2);
          w2 = settle x s 3 (send x follower Broadcast 0x0800 (ascii ''centralized_e2e'') 0 (centralize 2 (centralize 1 (centralize 0 w1)))) in
      peers_seen w 0 \<ge> 2 \<and> agreed w1 \<and> list_ex (\<lambda>(_, d, _, _). d = ascii ''centralized_e2e'') (received w2 0 @ received w2 1 @ received w2 2))"

definition test_forward_message_delivery_to_follower :: "ext \<Rightarrow> addr_text \<Rightarrow> string \<Rightarrow> string \<Rightarrow> string \<Rightarrow> string \<Rightarrow> bool" where
  "test_forward_message_delivery_to_follower x s a b c se \<longleftrightarrow>
     (let w = mesh x s [hearing 0 (node_with (election_config 200 400) a se 1), hearing 0 (node_with (election_config 200 400) b se 2),
            hearing 0 (node_with (election_config 200 400) c se 3)];
          w1 = elected_mesh x s w;
          leader = (if leads w1 0 then 0 else if leads w1 1 then 1 else 2);
          target_id = (if \<not> leads w1 0 then a else if \<not> leads w1 1 then b else c);
          w2 = settle x s 2 (unwrap (forward x leader ''external_peer'' (FwdToPeer (PeerId target_id)) 0x0F00 0x02 (ascii ''forwarded_payload'') w1)) in
      peers_seen w 0 \<ge> 2 \<and> agreed w1
    \<and> list_ex (\<lambda>(_, d, mt, _). d = ascii ''forwarded_payload'' \<and> mt = 0x0F00) (received w2 0 @ received w2 1 @ received w2 2))"

definition test_duplicate_peer_id_connection_rejected :: "ext \<Rightarrow> addr_text \<Rightarrow> string \<Rightarrow> string \<Rightarrow> string \<Rightarrow> bool" where
  "test_duplicate_peer_id_connection_rejected x s a b se \<longleftrightarrow>
     (let w = connect_nodes x s 0 1 [create_node a se 1, create_node b se 2];
          r = dial x s 2 (address s 0 w) (w @ [create_node b se 3]) in
      sees w 0 b \<and> isl (fst r) \<and> sees (snd r) 0 b)"

text \<open>The names are such that the last node, who learns of the second from the first, is the one who calls.\<close>

definition test_peer_list_sync_auto_mesh :: "ext \<Rightarrow> addr_text \<Rightarrow> string \<Rightarrow> string \<Rightarrow> string \<Rightarrow> string \<Rightarrow> bool" where
  "test_peer_list_sync_auto_mesh x s a c b se \<longleftrightarrow>
     (let w = connect_nodes x s 0 1 [create_node a se 1, create_node b se 2, create_node c se 3];
          w1 = settle x s 4 (join x s 2 0 w) in
      sees w 0 b \<and> sees w1 2 a \<and> sees w1 2 b \<and> peers_seen w1 0 \<ge> 2)"

definition test_graceful_leave_propagates :: "ext \<Rightarrow> addr_text \<Rightarrow> string \<Rightarrow> string \<Rightarrow> string \<Rightarrow> string \<Rightarrow> bool" where
  "test_graceful_leave_propagates x s a b c se \<longleftrightarrow>
     (let w = settle x s 3 (join x s 1 2 (connect_nodes x s 0 2 (connect_nodes x s 0 1 [watching 0 (create_node a se 1), create_node b se 2, watching 0 (create_node c se 3)])));
          w1 = settle x s 2 (shut_down x 1 w) in
      peers_seen w 0 \<ge> 2 \<and> peers_seen w 1 \<ge> 2 \<and> peers_seen w 2 \<ge> 2
    \<and> (b, as_i32 Disconnected) \<in> set (drop (length (statuses w 0)) (statuses w1 0)) \<and> (b, as_i32 Disconnected) \<in> set (drop (length (statuses w 2)) (statuses w1 2)))"

definition test_leader_failover_new_election :: "ext \<Rightarrow> addr_text \<Rightarrow> string \<Rightarrow> string \<Rightarrow> string \<Rightarrow> string \<Rightarrow> bool" where
  "test_leader_failover_new_election x s a b c se \<longleftrightarrow>
     (let w = mesh x s [node_with (election_config 200 400) a se 1, node_with (election_config 200 400) b se 2, node_with (election_config 200 400) c se 3];
          w1 = elected_mesh x s w;
          w2 = settle x s 2 (shut_down x 0 w1);
          w3 = settle x s 3 (elect x 1 w2) in
      peers_seen w 0 \<ge> 2 \<and> agreed w1 \<and> leader_of w1 0 = Some (PeerId a)
    \<and> leader_of w3 1 \<noteq> None \<and> leader_of w3 1 = leader_of w3 2 \<and> leader_of w3 1 \<noteq> leader_of w1 0)"

text \<open>Four nodes.\<close>

definition test_late_joiner_receives_messages :: "ext \<Rightarrow> addr_text \<Rightarrow> string \<Rightarrow> string \<Rightarrow> string \<Rightarrow> string \<Rightarrow> string \<Rightarrow> bool" where
  "test_late_joiner_receives_messages x s a b c d se \<longleftrightarrow>
     (let w = settle x s 2 (join x s 0 2 (join x s 0 1 [create_node a se 1, create_node b se 2, create_node c se 3]));
          w1 = settle x s 2 (join x s 0 3 (w @ [hearing 0 (create_node d se 4)]));
          w2 = settle x s 1 (send x 0 (ToPeer (PeerId d)) 0x0A00 (ascii ''welcome_latecomer'') 0 w1) in
      peers_seen w 0 \<ge> 2 \<and> sees w1 3 a \<and> list_ex (\<lambda>(_, p, _, _). p = ascii ''welcome_latecomer'') (received w2 3))"

section \<open>Lemmas\<close>

definition three :: "string \<Rightarrow> string \<Rightarrow> string \<Rightarrow> string \<Rightarrow> bool" where
  "three a b c se \<longleftrightarrow> two a b se \<and> two b c se \<and> two a c se"

definition four :: "string \<Rightarrow> string \<Rightarrow> string \<Rightarrow> string \<Rightarrow> string \<Rightarrow> bool" where
  "four a b c d se \<longleftrightarrow> three a b c se \<and> three a b d se \<and> two c d se"

lemmas mesh_eval = mesh_def elected_mesh_def agreed_def

context bench
begin

lemma auto_leader_election_3_nodes:
  "three a b c se \<Longrightarrow> test_auto_leader_election_3_nodes x s a b c se"
  by (simp add: three_def two_def test_auto_leader_election_3_nodes_def mesh_eval eval cong: let_weak_cong)

lemma all_nodes_agree_on_leader:
  "three a b c se \<Longrightarrow> test_all_nodes_agree_on_leader x s a b c se"
  by (simp add: three_def two_def test_all_nodes_agree_on_leader_def mesh_eval eval cong: let_weak_cong)

lemma broadcast_delivery_verified:
  "three a b c se \<Longrightarrow> test_broadcast_delivery_verified x s a b c se"
  by (simp add: three_def two_def test_broadcast_delivery_verified_def mesh_eval eval cong: let_weak_cong)

lemma full_mesh_broadcast:
  "three a b c se \<Longrightarrow> test_full_mesh_broadcast x s a b c se"
  by (simp add: three_def two_def test_full_mesh_broadcast_def mesh_eval eval cong: let_weak_cong)

lemma centralized_broadcast_delivery:
  "three a b c se \<Longrightarrow> test_centralized_broadcast_delivery x s a b c se"
  by (simp add: three_def two_def test_centralized_broadcast_delivery_def mesh_eval eval cong: let_weak_cong)

lemma forward_message_delivery_to_follower:
  "three a b c se \<Longrightarrow> test_forward_message_delivery_to_follower x s a b c se"
  by (simp add: three_def two_def test_forward_message_delivery_to_follower_def mesh_eval eval cong: let_weak_cong)

lemma duplicate_peer_id_connection_rejected:
  "two a b se \<Longrightarrow> test_duplicate_peer_id_connection_rejected x s a b se"
  by (simp add: two_def test_duplicate_peer_id_connection_rejected_def mesh_eval eval cong: let_weak_cong)

lemma peer_list_sync_auto_mesh:
  "three a b c se \<Longrightarrow> test_peer_list_sync_auto_mesh x s a b c se"
  by (simp add: three_def two_def test_peer_list_sync_auto_mesh_def mesh_eval eval cong: let_weak_cong)

lemma graceful_leave_propagates:
  "three a b c se \<Longrightarrow> test_graceful_leave_propagates x s a b c se"
  by (simp add: three_def two_def test_graceful_leave_propagates_def mesh_eval eval cong: let_weak_cong)

lemma leader_failover_new_election:
  "three a b c se \<Longrightarrow> test_leader_failover_new_election x s a b c se"
  by (simp add: three_def two_def test_leader_failover_new_election_def mesh_eval eval cong: let_weak_cong)

lemma late_joiner_receives_messages:
  "four a b c d se \<Longrightarrow> test_late_joiner_receives_messages x s a b c d se"
  by (simp add: four_def three_def two_def test_late_joiner_receives_messages_def mesh_eval eval cong: let_weak_cong)

end

end
