(* ===== verification/E2E_Limits.thy ===== *)
theory E2E_Limits
  imports E2E_Tests
begin

text \<open>
  The tests of \<^verbatim>\<open>src/lib.rs\<close> that fill a node with connections: clients that are no nodes and only shake hands, one after the other.
\<close>

section \<open>Definitions\<close>

definition let_in :: "ext \<Rightarrow> RawPacket list \<Rightarrow> bool" where
  "let_in x answer \<longleftrightarrow>
     (case answer of
        [] \<Rightarrow> False
      | p # _ \<Rightarrow> (case decode_internal x p of Inr (HandshakeAck _ _ ok _) \<Rightarrow> ok | _ \<Rightarrow> False))"

fun fill_connections :: "ext \<Rightarrow> addr_text \<Rightarrow> nat \<Rightarrow> string \<Rightarrow> string list \<Rightarrow> world \<Rightarrow> nat \<times> nat \<times> world" where
  "fill_connections x s j session [] w = (0, 0, w)"
| "fill_connections x s j session (client # clients) w =
     (case raw_client x s j (Some (Handshake client 0 PROTOCOL_VERSION session)) w of
        (answer, w1) \<Rightarrow>
          (case fill_connections x s j session clients w1 of
             (success, reject, w2) \<Rightarrow> if let_in x answer then (Suc success, reject, w2) else (success, Suc reject, w2)))"

text \<open>The connection of a client ends.\<close>

definition dropped :: "addr_text \<Rightarrow> nat \<Rightarrow> string \<Rightarrow> world \<Rightarrow> world" where
  "dropped s j client w = set_transport j (control_read_cleanup (show_addr s) False (PeerId client) (si_transport (w ! j))) w"

definition test_max_connections :: "ext \<Rightarrow> addr_text \<Rightarrow> string \<Rightarrow> string \<Rightarrow> string \<Rightarrow> bool" where
  "test_max_connections x s a pre se \<longleftrightarrow>
     (case fill_connections x s 0 se (map (\<lambda>i. pre @ show_nat i) [0..<66]) [create_node a se 1] of
        (connected, _, _) \<Rightarrow> connected > 0 \<and> connected \<le> max_connections config_default)"

definition test_max_connections_rejection :: "ext \<Rightarrow> addr_text \<Rightarrow> string \<Rightarrow> string \<Rightarrow> string \<Rightarrow> string \<Rightarrow> bool" where
  "test_max_connections_rejection x s a pre c se \<longleftrightarrow>
     (let max_conn = max_connections config_default in
      case fill_connections x s 0 se (map (\<lambda>i. pre @ show_nat i) [0..<max_conn + 2]) [create_node a se 1] of
        (success, reject, w) \<Rightarrow>
          success > 0 \<and> success \<le> max_conn \<and> reject > 0 \<and> connects x s 1 0 (dropped s 0 (pre @ show_nat 0) w @ [create_node c se 2]))"

section \<open>Lemmas\<close>

text \<open>A transport with these connections, to peers with short names.\<close>

definition serving :: "NetworkConfig \<Rightarrow> string \<Rightarrow> string \<Rightarrow> u16 \<Rightarrow> PeerId list \<Rightarrow> TransportManager \<Rightarrow> bool" where
  "serving cfg me se prt ps tm \<longleftrightarrow> tm_listener_addr tm = local_addr prt \<and> tm_config tm = cfg \<and> tm_local_peer_id tm = PeerId me \<and> tm_session_id tm = se \<and> map fst (tm_connections tm) = ps
     \<and> (\<forall>(q, c) \<in> set (tm_connections tm). brief (as_str (pi_peer_id (conn_info c))))"

lemma update_new: "k \<notin> fst ` set l \<Longrightarrow> AList.update k v l = l @ [(k, v)]"
  by (induction l) auto

context bench
begin

lemma sync_short: "serving cfg me se prt ps tm \<Longrightarrow> length ps \<le> 100 \<Longrightarrow> short (PeerListSync (get_peer_list_for_sync (show_addr s) tm))"
proof -
  assume a: "serving cfg me se prt ps tm" "length ps \<le> 100"
  then have "length (get_peer_list_for_sync (show_addr s) tm) \<le> length ps" by (auto simp: serving_def get_peer_list_for_sync_def intro: order_trans [OF length_filter_le])
  with a show ?thesis by (fastforce simp: serving_def get_peer_list_for_sync_def brief_def [of "_ :: (string \<times> string) list"] text_brief [OF s])
qed

lemma client_answered:
  assumes "serving cfg me se prt ps tm" "cfg_max_message_size cfg = 262144" "max_connections cfg \<le> 100" "brief me" "brief se" "brief client" "PeerId client \<notin> set ps"
    and "handle_incoming_connection x s (socket_env CnOk (RdPacket \<lparr>pkt_type = HANDSHAKE, pkt_flags = 0, pkt_payload = ser (Handshake client lp PROTOCOL_VERSION se)\<rparr>)) (local_addr 0) tm
      = (r, answer, tm')"
  shows "if length ps < max_connections cfg 
    then (\<exists>ps'. answer = \<lparr>pkt_type = HANDSHAKE_ACK, pkt_flags = 0, pkt_payload = ser (HandshakeAck me prt True None)\<rparr> # ps') \<and> let_in x answer
      \<and> serving cfg me se prt (ps @ [PeerId client]) tm'
    else \<not> let_in x answer \<and> tm' = tm"
proof (cases "length ps < max_connections cfg")
  case True
  have n: "connection_count tm = length ps" "\<not> hm_contains (tm_connections tm) (PeerId client)" "PeerId client \<notin> fst ` set (tm_connections tm)"
    using assms(1,7) by (force simp: serving_def connection_count_def hm_contains_def hm_get_def map_of_eq_None_iff)+
  have sync: "short (PeerListSync (get_peer_list_for_sync (show_addr s) tm))" using sync_short [OF assms(1)] True assms(3) by simp
  show ?thesis
    using assms(1,2,4-6,8) True n sync
    by (auto simp: serving_def handle_incoming_connection_def admit_handshake_def process_handshake_message_def socket_env_def codec_encode [OF x] codec_decode [OF x] encode_for_def
        ack_msg_def register_connection_def Let_def HANDSHAKE_def DATA_CHANNEL_HANDSHAKE_def let_in_def offer_incoming_def spawn_def hm_insert_def hm_contains_def
        peer_info_new_def update_new local_addr_def split: if_splits)
next
  case False
  have "connection_count tm = length ps" using assms(1) by (auto simp: serving_def connection_count_def)
  with False assms(1,8) show ?thesis
    by (auto simp: serving_def handle_incoming_connection_def admit_handshake_def socket_env_def Let_def HANDSHAKE_def DATA_CHANNEL_HANDSHAKE_def let_in_def)
qed

lemma clients_served:
  assumes "serving cfg me se prt ps (si_transport v)" "cfg_max_message_size cfg = 262144" "max_connections cfg \<le> 100" "length ps \<le> max_connections cfg" "brief me" "brief se"
    and "\<forall>c \<in> set cs. brief c" "distinct cs" "PeerId ` set cs \<inter> set ps = {}" "fill_connections x s 0 se cs [v] = (ok, no, w)"
  shows "ok = min (length cs) (max_connections cfg - length ps) \<and> no = length cs - (max_connections cfg - length ps)
    \<and> (\<exists>tm. serving cfg me se prt (ps @ map PeerId (take (max_connections cfg - length ps) cs)) tm \<and> w = set_transport 0 tm [v])"
  using assms
proof (induction cs arbitrary: ps v ok no w)
  case Nil
  then show ?case by (auto simp: set_transport_def set_node_def)
next
  case (Cons c cs)
  let ?room = "max_connections cfg - length ps"
  obtain r answer tm1 where step: "handle_incoming_connection x s
      (socket_env CnOk (RdPacket \<lparr>pkt_type = HANDSHAKE, pkt_flags = 0, pkt_payload = ser (Handshake c 0 PROTOCOL_VERSION se)\<rparr>)) (local_addr 0) (si_transport v) = (r, answer, tm1)"
    by (metis prod_cases3)
  define v1 where v1: "v1 = v\<lparr>si_ns := (si_ns v)\<lparr>ns_transport := tm1\<rparr>\<rparr>"
  have raw: "raw_client x s 0 (Some (Handshake c 0 PROTOCOL_VERSION se)) [v] = (answer, [v1])"
    using step Cons.prems(6,7) by (simp add: raw_client_def codec_encode [OF x] set_transport_def set_node_def v1)
  obtain ok' no' where rest: "fill_connections x s 0 se cs [v1] = (ok', no', w)"
    and count: "ok = (if let_in x answer then Suc ok' else ok')" "no = (if let_in x answer then no' else Suc no')"
    using Cons.prems(10) raw by (auto split: prod.splits if_splits)
  have new: "PeerId c \<notin> set ps" using Cons.prems(9) by auto
  note one = client_answered [OF Cons.prems(1,2,3,5,6) _ new step]
  show ?case
  proof (cases "length ps < max_connections cfg")
    case True
    with one Cons.prems(7) have acc: "let_in x answer" "serving cfg me se prt (ps @ [PeerId c]) (si_transport v1)" by (auto simp: v1)
    have "ok' = min (length cs) (max_connections cfg - length (ps @ [PeerId c])) \<and> no' = length cs - (max_connections cfg - length (ps @ [PeerId c]))
      \<and> (\<exists>tm. serving cfg me se prt ((ps @ [PeerId c]) @ map PeerId (take (max_connections cfg - length (ps @ [PeerId c])) cs)) tm \<and> w = set_transport 0 tm [v1])"
      using Cons.prems True by (intro Cons.IH [OF acc(2) _ _ _ _ _ _ _ _ rest]) auto
    moreover have "?room = Suc (max_connections cfg - length (ps @ [PeerId c]))" using True by simp
    moreover have "set_transport 0 tm [v1] = set_transport 0 tm [v]" for tm by (simp add: v1 set_transport_def set_node_def)
    ultimately show ?thesis using count acc(1) by auto
  next
    case False
    with one Cons.prems(7) have acc: "\<not> let_in x answer" "v1 = v" by (auto simp: v1)
    have "ok' = min (length cs) ?room \<and> no' = length cs - ?room \<and> (\<exists>tm. serving cfg me se prt (ps @ map PeerId (take ?room cs)) tm \<and> w = set_transport 0 tm [v])"
      using Cons.prems rest unfolding acc(2) by (intro Cons.IH) auto
    with False Cons.prems(4) count acc(1) show ?thesis by auto
  qed
qed

lemma fresh_node_serving: "serving cfg a se prt [] (si_transport (node_with cfg a se prt))"
  by (simp add: serving_def node_with_def node_new_def transport_new_def discovery_new_def Let_def local_addr_def)

text \<open>A client whose connection ended has left its place.\<close>

lemma serving_dropped:
  assumes "serving cfg me se prt (q # ps) tm" "q \<notin> set ps"
  shows "serving cfg me se prt ps (control_read_cleanup (show_addr s) shut q tm)"
proof -
  obtain c l where l: "tm_connections tm = (q, c) # l" "map fst l = ps" using assms(1) by (cases "tm_connections tm") (auto simp: serving_def)
  then have "AList.delete q l = l" using assms(2) by (metis AList.delete_id list.set_map)
  with l assms(1) show ?thesis
    by (simp add: serving_def control_read_cleanup_def hm_get_def hm_remove_def Let_def cancel_opt_def cancel_def spawn_def split: option.split)
qed

lemma newcomer_connects:
  assumes "serving cfg me se prt ps (si_transport v)" "\<not> ns_shutdown (si_ns v)" "cfg_max_message_size cfg = 262144" "max_connections cfg \<le> 100" "length ps < max_connections cfg"
    and "brief me" "brief se" "brief c" "PeerId c \<notin> set ps" "prt \<noteq> q"
  shows "connects x s 1 0 [v, create_node c se q]"
proof -
  obtain r answer tm' where step: "handle_incoming_connection x s
      (socket_env CnOk (RdPacket \<lparr>pkt_type = HANDSHAKE, pkt_flags = 0, pkt_payload = ser (Handshake c q PROTOCOL_VERSION se)\<rparr>)) (local_addr 0) (si_transport v) = (r, answer, tm')"
    by (metis prod_cases3)
  from client_answered [OF assms(1,3,4,6-9) step] assms(5) obtain ps' where
    answer: "answer = \<lparr>pkt_type = HANDSHAKE_ACK, pkt_flags = 0, pkt_payload = ser (HandshakeAck me prt True None)\<rparr> # ps'" by auto
  have v: "tm_listener_addr (si_transport v) = local_addr prt" using assms(1) by (simp add: serving_def)
  show ?thesis
    using assms(2,6-8) step unfolding answer socket_env_def
    by (simp add: connects_def dial_def meet_def v address_def text_parse [OF s] listens_at_def local_addr_def answer_read_def socket_env_def connect_to_def encode_for_def
        receive_handshake_ack_def create_node_def node_with_def node_new_def transport_new_def discovery_new_def default_config connection_count_def codec_encode [OF x]
        codec_decode [OF x] register_connection_def hm_contains_def hm_get_def Let_def)
qed

text \<open>The tests: 66 clients, or two more than fit.\<close>

lemma clients_distinct: "distinct (map (\<lambda>i. pre @ show_nat i) [0..<66])"
proof -
  have "distinct (map show_nat [0..<66])" by code_simp
  then show ?thesis by (simp only: distinct_map inj_on_def append_same_eq) blast
qed

lemma clients_brief:
  assumes "length pre \<le> 98"
  shows "\<forall>c \<in> set (map (\<lambda>i. pre @ show_nat i) [0..<66]). brief c"
proof -
  have "brief (pre @ show_nat i)" if "i \<in> {0..<66}" for i using length_show_nat [of i] that assms by (simp add: brief_def)
  then show ?thesis unfolding set_map set_upt ball_simps by blast
qed

lemma clients_filled:
  assumes "brief a" "brief se" "length pre \<le> 98" "fill_connections x s 0 se (map (\<lambda>i. pre @ show_nat i) [0..<66]) [create_node a se 1] = (ok, no, w)"
  shows "ok = 64 \<and> no = 2 \<and> (\<exists>tm. serving config_default a se 1 (map PeerId (take 64 (map (\<lambda>i. pre @ show_nat i) [0..<66]))) tm \<and> w = set_transport 0 tm [create_node a se 1])"
proof -
  define clients where clients: "clients = map (\<lambda>i. pre @ show_nat i) [0..<66]"
  have n: "length clients = 66" unfolding clients by (simp only: length_map length_upt)
  have start: "serving config_default a se 1 [] (si_transport (create_node a se 1))" unfolding create_node_def by (rule fresh_node_serving)
  show ?thesis
    using clients_served [OF start _ _ _ assms(1,2), of clients ok no w] clients_brief [OF assms(3)] clients_distinct [of pre] assms(4) n
    unfolding clients [symmetric] by (simp add: default_config)
qed

lemma max_connections_test:
  assumes "brief a" "brief se" "length pre \<le> 98"
  shows "test_max_connections x s a pre se"
  using clients_filled [OF assms] unfolding test_max_connections_def by (auto simp only: default_config split: prod.splits) simp_all

lemma max_connections_rejection:
  assumes "brief a" "brief se" "length pre \<le> 98" "brief c" "c \<notin> set (map (\<lambda>i. pre @ show_nat i) [0..<66])"
  shows "test_max_connections_rejection x s a pre c se"
proof -
  let ?clients = "map (\<lambda>i. pre @ show_nat i) [0..<66]"
  obtain ok no w where fill: "fill_connections x s 0 se ?clients [create_node a se 1] = (ok, no, w)" by (metis prod_cases3)
  from clients_filled [OF assms(1-3) fill] obtain tm where got: "ok = 64" "no = 2" "serving config_default a se 1 (map PeerId (take 64 ?clients)) tm"
    and w: "w = set_transport 0 tm [create_node a se 1]" by blast
  obtain cs where cs: "?clients = (pre @ show_nat 0) # cs" by (simp only: upt_conv_Cons) simp
  let ?v = "(create_node a se 1)\<lparr>si_ns := (si_ns (create_node a se 1))\<lparr>ns_transport := control_read_cleanup (show_addr s) False (PeerId (pre @ show_nat 0)) tm\<rparr>\<rparr>"
  have len: "length cs = 65" using arg_cong [OF cs, of length] by (simp only: length_map length_upt list.size)
  have first: "map PeerId (take 64 ?clients) = PeerId (pre @ show_nat 0) # map PeerId (take 63 cs)" unfolding cs by (simp add: take_Suc_conv_app_nth numeral_eq_Suc)
  have fresh: "pre @ show_nat 0 \<notin> set cs" using clients_distinct [of pre] unfolding cs by simp
  then have "serving config_default a se 1 (map PeerId (take 63 cs)) (si_transport ?v)"
    using serving_dropped [OF got(3) [unfolded first]] by (auto dest: in_set_takeD)
  moreover have "PeerId c \<notin> set (map PeerId (take 63 cs))" using assms(5) unfolding cs by (auto dest: in_set_takeD)
  moreover have "\<not> ns_shutdown (si_ns ?v)" by (simp add: create_node_def node_with_def node_new_def transport_new_def discovery_new_def Let_def)
  ultimately have "connects x s 1 0 [?v, create_node c se 2]"
    using newcomer_connects [of config_default a se 1 "map PeerId (take 63 cs)" ?v c 2] assms(1,2,4) len by (simp add: default_config)
  moreover have "dropped s 0 (pre @ show_nat 0) w @ [create_node c se 2] = [?v, create_node c se 2]" unfolding w by (simp add: dropped_def set_transport_def set_node_def)
  ultimately show ?thesis unfolding test_max_connections_rejection_def Let_def default_config using fill got(1,2) by simp
qed

end

section \<open>Properties\<close>




end
