(* ===== verification/Spec2Isabelle.thy ===== *)
theory Spec2Isabelle
  imports Authenticity Election_Progress Ffi_Locks Ffi_Tests E2E_Mesh E2E_Limits
begin

text \<open>
  A verification library of the peer-to-peer networking crate under \<^verbatim>\<open>src/src/\<close>: a library with a C interface through which
  a game finds other players on the local network, connects to them, agrees on a leader and exchanges messages.
  Line and function names below are those of the Rust sources.

  \<^bold>\<open>The program.\<close> A host program calls the functions of \<^verbatim>\<open>ffi.rs\<close>. They keep one node (\<^verbatim>\<open>NetworkState\<close>, \<^verbatim>\<open>lib.rs\<close>) in a global.
  A node owns six managers. The transport (\<^verbatim>\<open>transport.rs\<close>) keeps a table of connections, each with a control channel and possibly
  a data channel, and serves them with tasks that frame packets (\<^verbatim>\<open>PacketCodec\<close>) onto sockets. Incoming packets reach
  \<^verbatim>\<open>handle_message\<close>, which decodes them (\<^verbatim>\<open>messaging.rs\<close>, \<^verbatim>\<open>protocol.rs\<close>) and passes control messages to the membership table
  (\<^verbatim>\<open>membership.rs\<close>) and to the election (\<^verbatim>\<open>leader.rs\<close>), and user messages to the callback queue (\<^verbatim>\<open>callback.rs\<close>), whose thread
  calls the C functions of the host. Outgoing user messages go through the session router (\<^verbatim>\<open>session_router.rs\<close>), which asks the
  election who leads. Discovery (\<^verbatim>\<open>discovery.rs\<close>) finds peers by mDNS and has the transport connect to them. Watchers carry
  membership and leader events from the managers to each other and to the callbacks.

  \<^bold>\<open>Theories.\<close> A struct is a record of the same name with its fields, an enum a datatype, a function or method a definition of the same
  name. In the theories of the managers and in \<open>Node\<close> a definition is one step. \<open>Node_Tasks\<close> cuts the handlers, timers and watchers of a node into their critical sections
  and lets them run concurrently.

  \<^item> \<open>Net_Prelude\<close>: words, bytes, the operations of \<^verbatim>\<open>HashMap\<close> on association lists, and three interfaces.
    \<open>table\<close> is what a keyed container promises; it is provided by \<open>hm_get\<close>, \<open>hm_insert\<close>, \<open>hm_remove\<close>, \<open>hm_modify\<close> (interpretation
    \<open>hm\<close>) and used for the connections and the peers. \<open>invariant_system\<close> is a component whose steps keep an
    invariant, possibly under a condition on the step; it is provided by the election (\<open>leader_steps\<close>), the transport
    (\<open>transport_steps\<close>) and the node (\<open>node_steps\<close>). \<open>event_sourced\<close> is a component whose emitted events
    reproduce its observable state; it is an \<open>invariant_system\<close> (\<open>sublocale\<close>) and is provided by the membership table
    (\<open>membership_events\<close>) and the election (\<open>leader_events\<close>).
  \<^item> \<open>Net_Types\<close>, \<open>Net_Error\<close>, \<open>Net_Config\<close>, \<open>Net_Protocol\<close>: \<^verbatim>\<open>types.rs\<close>, \<^verbatim>\<open>error.rs\<close>, \<^verbatim>\<open>config.rs\<close>, \<^verbatim>\<open>protocol.rs\<close>. \<open>PeerId\<close>
    is made a \<open>linorder\<close>, the byte order by which ties are broken.
  \<^item> \<open>Messaging\<close>: \<^verbatim>\<open>messaging.rs\<close>, packing and unpacking of user and control messages with their compression and size limits.
    What is packed unpacks to itself.
  \<^item> \<open>Packet_Codec\<close>: \<^verbatim>\<open>PacketCodec\<close>. The locales \<open>frame_decoder\<close> and \<open>frame_codec\<close> say what a stream reader needs from a codec and prove what follows:
    a stream of frames is read back in order, however the network cuts it. \<open>packet_codec\<close> interprets them on \<open>encode\<close> and \<open>decode\<close>.
  \<^item> \<open>Leader\<close>: \<^verbatim>\<open>leader.rs\<close>, every operation of one node with its invariant, its tie break and its notifications.
  \<^item> \<open>Cluster\<close>: several nodes running \<open>Leader\<close>'s operations over a network that delays, reorders, duplicates and loses; at most one
    leader in a term when manual assignment is not used, there are at least three nodes and every node counts all of them. \<open>sticky_votes\<close> is what the proof needs of a node's term and vote
    (interpretation \<open>node_votes\<close>).
  \<^item> \<open>Membership\<close>: \<^verbatim>\<open>membership.rs\<close>; the events replay to the table, the timeout check finds exactly the silent peers.
  \<^item> \<open>Transport\<close>: the connection table of \<^verbatim>\<open>transport.rs\<close> with its channels, tokens and tasks, the loops of the tasks, draining and
    shutdown; the invariant says that no two connections share a sender or a token, that registered connections are not cancelled and that every
    control task either has been cancelled or serves a registered connection.
  \<^item> \<open>Handshake_Protocol\<close>: both sides of the control and the data handshake and the reconnection loop; other tasks run
    between the critical sections. Who is admitted is compatible, and both sides end with matching entries.
  \<^item> \<open>Session_Routing\<close>, \<open>Discovery\<close>, \<open>Callbacks\<close>: \<^verbatim>\<open>session_router.rs\<close>, \<^verbatim>\<open>discovery.rs\<close>, \<^verbatim>\<open>callback.rs\<close>.
  \<^item> \<open>Node\<close>: \<^verbatim>\<open>lib.rs\<close>, all managers side by side, with the invariants of the parts joined (\<open>node_inv\<close>) and kept by every handler,
    timer, watcher and command.
  \<^item> \<open>Node_Tasks\<close>: the same handlers, timers, watchers and calls as trees of critical sections (\<open>task\<close>). Uninterrupted they do what \<open>Node\<close> says (\<open>tasks_refine_steps\<close>);
    interleaved in any order (\<open>pool_step\<close>) they keep the invariant of the node (\<open>interleaved_invariant\<close>). The locale \<open>task_logic\<close> says what an
    invariant needs so that it may be proved section by section; it is interpreted on \<open>node_inv\<close> (\<open>pool\<close>).
    Two theorems show what the sections do not exclude: \<open>heartbeat_without_leading\<close>, \<open>announcements_out_of_order\<close>.
  \<^item> \<open>Channels\<close>: which peer a send queue serves, over the lifetime of a transport: a queue leads to one peer, for ever.
  \<^item> \<open>Wire_Logic\<close>: what a statement about packets in flight needs so that every handler, timer, watcher and call keeps it, section by section (locale \<open>wire_logic\<close>, an extension of
    \<open>task_logic\<close>); it is interpreted on the election in \<open>System\<close> (\<open>election\<close>) and on the origin of messages in \<open>Authenticity\<close> (\<open>delivery\<close>).
  \<^item> \<open>System\<close>: several complete nodes with their tasks, connected by their send queues (\<open>sys_step\<close>). Packets on a queue that serves a node reach its message handler late, repeatedly, in
    any order or never. \<open>program_elects_one_leader\<close> lifts election safety from the handlers of \<open>Cluster\<close> to this program.
  \<^item> \<open>Authenticity\<close>: the same system with a record of what the hosts hand over and the handlers receive (\<open>net_step\<close>). Whatever a receive callback reports was handed over by a host before,
    and was addressed to everybody, to the leader or to that node (\<open>no_message_invented\<close>).
  \<^item> \<open>Election_Progress\<close>: an election that no other timer disturbs succeeds, whatever the order of delivery, and can always be completed.
  \<^item> \<open>Ffi\<close>: \<^verbatim>\<open>ffi.rs\<close>, every exported function on the globals; the step relation \<open>ffi_step\<close> interleaves calls with the node's own
    steps. \<open>Ffi_Locks\<close>: the lock order of the two functions that wait while they hold a lock.
  \<^item> \<open>Unit_Tests\<close>, \<open>Ffi_Tests\<close>: the crate's own tests that run in one process without sockets, replayed on the definitions, among them the whole life of a network through the C interface
    (\<open>ffi_lifecycle_test\<close>). They check the translation; readings of the clock and LZ4 are arguments, and the lemmas say for which of them a test passes.
  \<^item> \<open>Test_World\<close>: several nodes on one machine where every socket works, as the end-to-end tests of \<^verbatim>\<open>lib.rs\<close> set them up; a world takes turns. \<open>Plain_Codec\<close>: a serializer and a text
    of addresses that satisfy what the tests rely on. \<open>Exchange\<close>: two fresh nodes connect and exchange any list of messages (\<open>fresh_nodes_exchange\<close>). \<open>E2E_Tests\<close>, \<open>E2E_Mesh\<close>,
    \<open>E2E_Limits\<close>: the end-to-end tests, replayed for all names; clients are let in up to the limit and no further (\<open>connections_up_to_the_limit\<close>).
  \<^item> This theory: a message from \<^verbatim>\<open>SendToPeer\<close> on one node to the callback on the other, through all the layers.

  \<^bold>\<open>What is an argument.\<close> Third-party code and the outside world are arguments of the definitions, never definitions of their own. The record
  \<open>ext\<close> holds LZ4 and \<^verbatim>\<open>postcard\<close>; the properties that decode what was encoded assume their documented round trips
  (\<open>lz4_laws\<close>, \<open>postcard_laws\<close>; in \<open>Test_World\<close> also that short messages have short encodings, \<open>codec\<close>), which the witnesses satisfy by a concrete instance. The answers of bounded channels
  (\<open>Sent\<close>, \<open>Full\<close>, \<open>Closed\<close>), of sockets and connection attempts (\<open>conn_env\<close>), of clocks (\<open>node_env\<close>, \<open>shutdown_env\<close>), of the mDNS
  daemon and of the address formatter (\<open>addr_text\<close>) are arguments, and so is what a panicking body has left behind
  (\<open>fe_panic\<close>). The properties hold for all of their values unless a hypothesis says otherwise.

  \<^bold>\<open>Loops and bounds.\<close> Every definition is total. \<open>drain\<close> recurs on the buffer's length: a decoder that returns a frame has
  consumed bytes. \<open>reconnect_loop\<close> recurs on the list of its rounds and gives up after the configured number of them; \<open>drain_send_queues\<close>
  recurs on the polls, which end by the deadline. The task and browse loops recur on the events they select from; an exit \<open>Running\<close> means that
  the task waits for more. The callback thread is a state machine; \<open>queued_events_delivered\<close> says how many of its steps deliver
  the queue. \<^verbatim>\<open>u8\<close> to \<^verbatim>\<open>u64\<close> are words and wrap where the source wraps, saturate where it saturates; \<^verbatim>\<open>usize\<close> is \<open>nat\<close>.

  \<^bold>\<open>Flaws.\<close> Some theorems state what the code does where it does not do what it means to: a leader that falls silent is not replaced
  (\<open>silent_leader_not_replaced\<close>), an overtaken leader stays in the way of the next election (\<open>overtaken_leader_is_stuck\<close>), a late cleanup removes
  a newer connection (\<open>late_cleanup_removes_successor\<close>), concurrent initializations overwrite each other (\<open>concurrent_initialize_overwrites\<close>),
  shutdown and a connect from a callback wait for each other (\<open>connect_from_callback_deadlock\<close>), a heartbeat can claim a term the node does not lead
  (\<open>heartbeat_without_leading\<close>), events and notifications can arrive in an order that leaves their observer out of date (\<open>announcements_out_of_order\<close>). In a cluster of two both
  may lead in one term (\<open>two_nodes_both_lead\<close>). A broadcast that the leader forwards is reported under the leader's name (the run in \<open>no_message_invented_witness\<close>).

  \<^bold>\<open>The election of the whole program.\<close> \<open>program_elects_one_leader\<close> is proved for runs in which no leader is assigned by hand (assignment resets votes), terms do not
  reach the end of their 64 bits, there are at least three nodes and a node that counts its peers sees all others as connected, since the code takes its majority from the connected
  peers and not from the members. A peer's name on a queue is the peer at its other end: \<open>handshake_agreement\<close> is the theorem about how the table gets its names.

  \<^bold>\<open>Not modelled.\<close> The tokio runtime and its scheduler (a task's critical sections are the steps, their interleaving is arbitrary); log output and
  the subscriber that \<^verbatim>\<open>EnableLogging\<close> installs; \<^verbatim>\<open>build.rs\<close>, which has no run-time behaviour; the C# declarations. Of the tests, those
  that look for peers by mDNS, fill a bounded queue, overrun the broadcast channel of tokio, ask the operating system for a new port or call getters in parallel without asserting anything,
  the ten cycles of \<^verbatim>\<open>test_rapid_reconnect_then_message\<close> and the four nodes of \<^verbatim>\<open>test_concurrent_senders_all_delivered\<close>. Real time occurs only as clock readings and poll counts.
\<close>

section \<open>Properties that span components\<close>

lemma sint_nonneg_bound: "0 \<le> sint (w :: 32 word) \<Longrightarrow> unat w < 2147483648"
proof -
  assume "0 \<le> sint w"
  then have "\<not> bit w 31" using bit_last_iff [of w] by simp
  then have "\<not> bit (unat w) 31" by (simp add: bit_unsigned_iff)
  then have "even (unat w div 2147483648)" by (simp add: bit_iff_odd)
  moreover have "unat w < 4294967296" by (rule unat_bound32)
  then have "unat w div 2147483648 < 2" by (simp add: less_mult_imp_div_less)
  ultimately have "unat w div 2147483648 = 0" by (auto dest: less_2_cases)
  then show ?thesis by (simp add: div_eq_0_iff)
qed

text \<open>
  C1: A message travels from one program to the other. A successful \<^verbatim>\<open>SendToPeer\<close> has queued one packet, on the data channel of the named peer's
  connection, or on its control channel while it has no data channel. Framed by the sender, cut into arbitrary pieces by the
  network and decoded by the receiver, it comes out as that packet; handed to the receiving node it makes the callback thread call the registered function once,
  with the sender's name, exactly the bytes the caller passed and their number, the caller's message type and its flag bits 1 to 7.
\<close>

theorem message_end_to_end:
  assumes "lz4_laws (ne_ext (fe_node env))" "fe_panic env = None" "NETWORK g = Some nsA"
    and "SendToPeer env target (Some mem) len mt flags g = (OK, g')"
    and "cfg_max_message_size (ns_config nsA) \<le> mx" "\<And>w. concat (pieces w) = w"
    and "ne_ext envB = ne_ext (fe_node env)" "\<And>e. ne_cb envB e = Sent"
    and "cb_open (ns_callback nsB)" "cb_queue (ns_callback nsB) = []" "cb_thread (ns_callback nsB) = AtRecv"
    and "receive_callback (ns_callback nsB) = Some cb" "CHR 0x00 \<notin> set sender"
  shows "\<exists>nsA' name c ch p wire fl. NETWORK g' = Some nsA'
    \<and> c_str_to_string target = Inr name \<and> hm_get (tm_connections (ns_transport nsA)) (PeerId name) = Some c
    \<and> ch = (case data_tx c of Some d \<Rightarrow> d | None \<Rightarrow> control_tx c) \<and> tm_sent (ns_transport nsA') = tm_sent (ns_transport nsA) @ [(ch, p)]
    \<and> encode mx p [] = Inr wire \<and> feed (decode mx) [] (pieces wire) = ([p], Inr [])
    \<and> cb_calls (callback_step (ns_callback (handle_message envB (PeerId sender) p nsB)))
      = cb_calls (ns_callback nsB) @ [CallReceive cb sender (take (unat len) mem) (int (length (take (unat len) mem))) mt fl]
    \<and> fl AND 0xFE = flags AND 0xFE"
proof -
  let ?x = "ne_ext (fe_node env)" and ?data = "take (unat len) mem"
  from assms(2,3,4) obtain pn tm' where name: "c_str_to_string target = Inr pn" and sign: "0 \<le> sint len" and lim: "len \<le> cfg_max_message_size (ns_config nsA)"
    and route: "route_message ?x (ne_out (fe_node env)) (ns_router nsA) (ns_leader nsA) (ToPeer (PeerId pn)) mt ?data flags
        (ns_transport nsA) = (Inr (), tm')" and g': "NETWORK g' = Some (nsA\<lparr>ns_transport := tm'\<rparr>)"
    by (auto simp: SendToPeer_def slice_from_raw_parts_def bad_data_def route_checked_def report_def with_network_def
        split: sum.splits if_splits prod.splits)
  obtain c p where c: "hm_get (tm_connections (ns_transport nsA)) (PeerId pn) = Some c" and p: "encode_packet ?x mt ?data (flags AND 0xFE) (compression_threshold (ns_router nsA)) (sr_max_message_size (ns_router nsA)) = Inr p"
    and sent: "only_sends (ns_transport nsA) tm' [(case data_tx c of Some d \<Rightarrow> d | None \<Rightarrow> control_tx c, p)]"
    using route_to_peer_sends [OF route] .
  have facts: "pkt_type p = mt" "\<not> is_internal p" "pkt_flags p AND 0xFE = flags AND 0xFE" "decode_payload (ne_ext envB) p = Inr ?data"
    using encode_packet_type [OF p] encode_packet_flags [OF p] decode_encode_packet [OF assms(1) p] assms(7) by (simp_all add: user_flags_kept)
  have "length (pkt_payload p) \<le> unat len" using encode_packet_payload [OF p] by simp
  also have "\<dots> \<le> unat mx" using lim assms(5) by (meson order_trans word_le_nat_alt)
  finally have fits: "length (pkt_payload p) \<le> unat mx" .
  then have wire: "encode mx p [] = Inr (frame p)" by (simp add: encode_frame)
  have "feed (decode mx) [] (pieces (frame p)) = ([p], Inr [])"
    by (rule packet_codec.feed_encoded) (simp_all add: fits assms(6))
  moreover have "length ?data < 2147483648" using sint_nonneg_bound [OF sign] by simp
  then have "cb_calls (callback_step (ns_callback (handle_message envB (PeerId sender) p nsB)))
      = cb_calls (ns_callback nsB) @ [CallReceive cb sender ?data (int (length ?data)) mt (pkt_flags p)]"
    using facts assms(8-13)
    by (simp add: handle_message_def node_event_def send_event_def callback_step_def dispatch_event_def call_for_def cstring_new_def
        len_i32_exact)
  ultimately show ?thesis using g' name c sent wire facts(3) by (auto simp: only_sends_def)
qed

theorem message_end_to_end_witness:
  "\<exists>g' p. SendToPeer demo_ffi_env (Some ''b'') (Some [1, 2, 3]) 2 0x0100 5 (ffi_init\<lparr>NETWORK :=
        Some ((demo_node ''a'')\<lparr>ns_transport := demo_pair\<rparr>), RUNTIME := True\<rparr>) = (OK, g')
    \<and> feed (decode 262144) [] (map (\<lambda>b. [b]) (frame p)) = ([p], Inr [])
    \<and> (\<exists>fl. cb_calls (callback_step (ns_callback (handle_message demo_env (PeerId ''a'') p ((demo_node ''b'')\<lparr>ns_callback :=
        callback_new\<lparr>cb_thread := AtRecv, receive_callback := Some 7\<rparr>\<rparr>)))) = [CallReceive 7 ''a'' [1, 2] 2 0x0100 fl])"
proof -
  let ?A = "(demo_node ''a'')\<lparr>ns_transport := demo_pair\<rparr>" and ?cb = "callback_new\<lparr>cb_thread := AtRecv, receive_callback := Some 7\<rparr>"
  let ?B = "(demo_node ''b'')\<lparr>ns_callback := ?cb\<rparr>" and ?g = "ffi_init\<lparr>NETWORK := Some ((demo_node ''a'')\<lparr>ns_transport := demo_pair\<rparr>), RUNTIME := True\<rparr>"
  obtain code g' where r: "SendToPeer demo_ffi_env (Some ''b'') (Some [1, 2, 3]) 2 0x0100 5 ?g = (code, g')" by fastforce
  have "c_str_to_string (Some ''b'') = Inr ''b''" by (rule c_str_ascii) simp
  moreover have cfg: "ns_config (demo_node ''a'') = config_default" and "ns_router (demo_node ''a'') = router_new (PeerId ''a'') config_default"
    using node_new_fields [OF demo_node_eq [of "''a''"]] by simp_all
  ultimately have "code = OK"
    using r by (auto simp: SendToPeer_def slice_from_raw_parts_def route_checked_def report_def with_network_def ffi_init_def
        route_message_def with_packet_def encode_packet_def router_new_def compression_threshold_def config_default_def len_u32_def
        USER_MESSAGE_START_def send_to_peer_eq try_send_error_def demo_pair_run demo_env_def)
  with r have r: "SendToPeer demo_ffi_env (Some ''b'') (Some [1, 2, 3]) 2 0x0100 5 ?g = (OK, g')" by simp
  show ?thesis
    using message_end_to_end [where env = demo_ffi_env and nsA = ?A and g = ?g and pieces = "map (\<lambda>b. [b])" and mx = 262144
        and envB = demo_env and nsB = ?B and cb = 7 and sender = "''a''", OF _ _ _ r] r cfg
    by (auto simp: ffi_init_def demo_env_def table_ext_lz4 callback_new_def config_default_def encode_frame split: if_splits)
qed

end
